(* ===== verification/Prelude.thy ===== *)
theory Prelude
  imports
    Main
    "HOL-Library.Word"
    "HOL-Library.Sublist"
    "HOL-Library.Char_ord"
    "HOL-Library.List_Lexorder"
begin

text \<open>
  Shared vocabulary of the development: the type names of the Rust sources, errors as
  values, the two sequencing combinators that stand for the operator \<open>?\<close>, machine
  arithmetic, and the string operations of the standard library that the sources call,
  with the generic lemmas the components use.

  A Rust \<open>String\<close> is its UTF-8 byte sequence, so it is a HOL \<open>string\<close> whose characters
  are bytes: \<open>length\<close> is \<open>String::len\<close>, and the comparison of \<open>String\<close>s is the
  lexicographic order on bytes that List_Lexorder gives.
\<close>

section \<open>Types\<close>

type_synonym u8 = "8 word"
type_synonym u16 = "16 word"
type_synonym u32 = "32 word"
type_synonym u64 = "64 word"
type_synonym bytes = "8 word list"

text \<open>An \<open>anyhow::Error\<close> is its chain of messages, the outermost context first.\<close>

type_synonym error = "string list"
type_synonym 'a res = "error + 'a"
type_synonym ('s, 'a) io = "'s \<Rightarrow> 'a res \<times> 's"

named_theorems io_simps \<open>unfolding of the sequencing combinators\<close>
named_theorems key_simps \<open>shape of the object keys\<close>

section \<open>Errors as values\<close>

definition bail :: "string \<Rightarrow> 'a res" where
  "bail msg = Inl [msg]"

definition with_context :: "string \<Rightarrow> 'a res \<Rightarrow> 'a res" where
  "with_context msg r = (case r of Inl e \<Rightarrow> Inl (msg # e) | Inr x \<Rightarrow> Inr x)"

definition ok_or :: "string \<Rightarrow> 'a option \<Rightarrow> 'a res" where
  "ok_or msg opt = (case opt of None \<Rightarrow> Inl [msg] | Some x \<Rightarrow> Inr x)"

text \<open>\<open>error.to_string()\<close> is the outermost message; \<open>format!("{error:#}")\<close> the whole chain.\<close>

definition error_to_string :: "error \<Rightarrow> string" where
  "error_to_string e = (case e of [] \<Rightarrow> [] | m # _ \<Rightarrow> m)"

fun error_alternate :: "error \<Rightarrow> string" where
  "error_alternate [] = []"
| "error_alternate [m] = m"
| "error_alternate (m # ms) = m @ '': '' @ error_alternate ms"

definition is_ok :: "'a res \<Rightarrow> bool" where
  "is_ok r = (case r of Inl _ \<Rightarrow> False | Inr _ \<Rightarrow> True)"

definition res_then :: "'a res \<Rightarrow> ('a \<Rightarrow> 'b res) \<Rightarrow> 'b res" where
  "res_then r f = (case r of Inl e \<Rightarrow> Inl e | Inr x \<Rightarrow> f x)"

definition ensure :: "bool \<Rightarrow> string \<Rightarrow> unit res" where
  "ensure b msg = (if b then Inr () else bail msg)"

lemma bail_neq_ok [simp]: "bail m \<noteq> Inr x" "Inr x \<noteq> bail m"
  by (simp_all add: bail_def)

lemma is_ok_simps [simp]: "is_ok (Inr x)" "\<not> is_ok (Inl e)" "\<not> is_ok (bail m)"
  by (simp_all add: is_ok_def bail_def)

lemma is_ok_iff: "is_ok r \<longleftrightarrow> (\<exists>x. r = Inr x)"
  by (cases r) auto

lemma res_then_simps [simp]:
  "res_then (Inl e) f = Inl e" "res_then (Inr x) f = f x" "res_then (bail m) f = bail m"
  by (simp_all add: res_then_def bail_def)

lemma res_then_Inr_iff:
  "res_then r f = Inr y \<longleftrightarrow> (\<exists>x. r = Inr x \<and> f x = Inr y)"
  by (cases r) auto

lemma ensure_simps [simp]:
  "ensure True m = Inr ()" "ensure False m = bail m"
  by (simp_all add: ensure_def)

lemma ensure_Inr_iff [simp]: "ensure b m = Inr x \<longleftrightarrow> b"
  by (cases b) simp_all

lemma res_then_ensure_Inr [simp]:
  "res_then (ensure b m) f = Inr y \<longleftrightarrow> b \<and> f () = Inr y"
  by (cases b) simp_all

lemma with_context_simps [simp]:
  "with_context m (Inr x) = Inr x" "with_context m (Inl e) = Inl (m # e)"
  by (simp_all add: with_context_def)

lemma with_context_Inr_iff: "with_context m r = Inr x \<longleftrightarrow> r = Inr x"
  by (cases r) simp_all

lemma ok_or_Inr_iff [simp]: "ok_or m opt = Inr x \<longleftrightarrow> opt = Some x"
  by (cases opt) (simp_all add: ok_or_def)

section \<open>Effects: a computation over a state that may fail\<close>

text \<open>
  \<open>io_then m f\<close> is \<open>f(m.await?).await\<close>: an error of \<open>m\<close> returns at once with the state
  \<open>m\<close> left. \<open>io_attempt m\<close> hands the outcome to the caller as a value, for the places
  that match on it, and \<open>io_ignore m\<close> is \<open>let _ = m.await\<close>.
\<close>

definition io_ok :: "'a \<Rightarrow> ('s, 'a) io" where
  "io_ok x = (\<lambda>s. (Inr x, s))"

definition io_lift :: "'a res \<Rightarrow> ('s, 'a) io" where
  "io_lift r = (\<lambda>s. (r, s))"

definition io_then :: "('s, 'a) io \<Rightarrow> ('a \<Rightarrow> ('s, 'b) io) \<Rightarrow> ('s, 'b) io" where
  "io_then m f = (\<lambda>s. case m s of (Inl e, s') \<Rightarrow> (Inl e, s') | (Inr x, s') \<Rightarrow> f x s')"

definition io_attempt :: "('s, 'a) io \<Rightarrow> ('s, 'a res) io" where
  "io_attempt m = (\<lambda>s. case m s of (r, s') \<Rightarrow> (Inr r, s'))"

definition io_ignore :: "('s, 'a) io \<Rightarrow> ('s, unit) io" where
  "io_ignore m = (\<lambda>s. (Inr (), snd (m s)))"

definition io_context :: "string \<Rightarrow> ('s, 'a) io \<Rightarrow> ('s, 'a) io" where
  "io_context msg m = (\<lambda>s. case m s of (r, s') \<Rightarrow> (with_context msg r, s'))"

lemma io_ok_apply [io_simps]: "io_ok x s = (Inr x, s)"
  by (simp add: io_ok_def)

lemma io_lift_apply [io_simps]: "io_lift r s = (r, s)"
  by (simp add: io_lift_def)

lemma io_then_apply [io_simps]:
  "io_then m f s = (case m s of (Inl e, s') \<Rightarrow> (Inl e, s') | (Inr x, s') \<Rightarrow> f x s')"
  by (simp add: io_then_def)

lemma io_attempt_apply [io_simps]: "io_attempt m s = (case m s of (r, s') \<Rightarrow> (Inr r, s'))"
  by (simp add: io_attempt_def)

lemma io_ignore_apply [io_simps]: "io_ignore m s = (Inr (), snd (m s))"
  by (simp add: io_ignore_def)

lemma io_context_apply [io_simps]:
  "io_context msg m s = (case m s of (r, s') \<Rightarrow> (with_context msg r, s'))"
  by (simp add: io_context_def)

lemma io_then_Inr:
  "io_then m f s = (Inr y, s'') \<longleftrightarrow> (\<exists>x s'. m s = (Inr x, s') \<and> f x s' = (Inr y, s''))"
  by (auto simp: io_then_def split: prod.splits sum.splits)

lemma io_then_InrE:
  assumes "io_then m f s = (Inr y, s'')"
  obtains x s' where "m s = (Inr x, s')" and "f x s' = (Inr y, s'')"
  using assms by (auto simp: io_then_Inr)

lemma io_then_Inl:
  "io_then m f s = (Inl e, s'') \<longleftrightarrow>
     m s = (Inl e, s'') \<or> (\<exists>x s'. m s = (Inr x, s') \<and> f x s' = (Inl e, s''))"
  by (auto simp: io_then_def split: prod.splits sum.splits)

lemma io_then_lift: "io_then (io_lift r) f s = (case r of Inl e \<Rightarrow> (Inl e, s) | Inr x \<Rightarrow> f x s)"
  by (simp add: io_then_def io_lift_def split: sum.splits)

lemma io_lift_eq [simp]: "io_lift r s = (q, s') \<longleftrightarrow> r = q \<and> s' = s"
  by (auto simp: io_lift_def)

lemma io_attempt_Inr: "io_attempt m s = (Inr r, s') \<longleftrightarrow> m s = (r, s')"
  by (auto simp: io_attempt_def split: prod.splits)

lemma io_ignore_Inr: "io_ignore m s = (Inr u, s') \<longleftrightarrow> s' = snd (m s)"
  by (auto simp: io_ignore_def)

lemma io_never_fails: "\<not> io_attempt m s = (Inl e, s')" "\<not> io_ignore m s = (Inl e, s')"
  by (auto simp: io_attempt_def io_ignore_def split: prod.splits)

lemma io_ok_eq [simp]: "io_ok x s = (q, s') \<longleftrightarrow> q = Inr x \<and> s' = s"
  by (auto simp: io_ok_def)

lemma io_context_Inr [simp]: "io_context msg m s = (Inr x, s') \<longleftrightarrow> m s = (Inr x, s')"
  by (auto simp: io_context_def with_context_def split: prod.splits sum.splits)

lemma io_context_Inl:
  "io_context msg m s = (Inl e, s') \<longleftrightarrow> (\<exists>e'. m s = (Inl e', s') \<and> e = msg # e')"
  by (auto simp: io_context_def with_context_def split: prod.splits sum.splits)

text \<open>
  A state predicate that a computation keeps whatever its outcome: closed under the
  combinators, so a frame fact of a component is one line over its building blocks.
\<close>

definition keeps :: "('s \<Rightarrow> bool) \<Rightarrow> ('s, 'a) io \<Rightarrow> bool" where
  "keeps P m \<longleftrightarrow> (\<forall>s. P s \<longrightarrow> P (snd (m s)))"

lemma keepsI [intro]: "(\<And>s. P s \<Longrightarrow> P (snd (m s))) \<Longrightarrow> keeps P m"
  by (simp add: keeps_def)

lemma keepsD: "keeps P m \<Longrightarrow> P s \<Longrightarrow> m s = (r, s') \<Longrightarrow> P s'"
  by (metis keeps_def snd_conv)

lemma keeps_ok [simp, intro]: "keeps P (io_ok x)"
  by (simp add: keeps_def io_ok_def)

lemma keeps_lift [simp, intro]: "keeps P (io_lift r)"
  by (simp add: keeps_def io_lift_def)

lemma keeps_then [intro]:
  assumes "keeps P m" and "\<And>x. keeps P (f x)"
  shows "keeps P (io_then m f)"
  unfolding keeps_def io_then_def
proof (intro allI impI)
  fix s assume "P s"
  obtain r s' where m: "m s = (r, s')" by (cases "m s")
  with assms(1) \<open>P s\<close> have "P s'" by (rule keepsD)
  then show "P (snd (case m s of (Inl e, s') \<Rightarrow> (Inl e, s') | (Inr x, s') \<Rightarrow> f x s'))"
    using assms(2) by (cases r) (simp_all add: m keeps_def)
qed

lemma keeps_ignore [intro]: "keeps P m \<Longrightarrow> keeps P (io_ignore m)"
  by (simp add: keeps_def io_ignore_def)

lemma keeps_attempt [intro]: "keeps P m \<Longrightarrow> keeps P (io_attempt m)"
  unfolding keeps_def io_attempt_def by (auto split: prod.splits)

lemma keeps_context [intro]: "keeps P m \<Longrightarrow> keeps P (io_context msg m)"
  unfolding keeps_def io_context_def by (auto split: prod.splits)

text \<open>A part of the state that a computation does not touch, whatever its outcome.\<close>

definition leaves :: "('s \<Rightarrow> 'v) \<Rightarrow> ('s, 'a) io \<Rightarrow> bool" where
  "leaves f m \<longleftrightarrow> (\<forall>s. f (snd (m s)) = f s)"

named_theorems leaves_intros \<open>computations that leave a part of the state alone\<close>

lemma leavesD: "leaves f m \<Longrightarrow> m s = (r, s') \<Longrightarrow> f s' = f s"
  by (metis leaves_def snd_conv)

lemma leaves_basic [leaves_intros]: "leaves f (io_ok x)" "leaves f (io_lift r)"
  by (simp_all add: leaves_def io_ok_def io_lift_def)

lemma leaves_then [leaves_intros]:
  assumes "leaves f m" and "\<And>x. leaves f (g x)"
  shows "leaves f (io_then m g)"
  unfolding leaves_def io_then_def
proof
  fix s
  obtain r s' where m: "m s = (r, s')" by (cases "m s")
  with assms(1) have "f s' = f s" by (auto dest: leavesD)
  then show "f (snd (case m s of (Inl e, s') \<Rightarrow> (Inl e, s') | (Inr x, s') \<Rightarrow> g x s')) = f s"
    using assms(2) by (cases r) (simp_all add: m leaves_def)
qed

lemma leaves_wrapped [leaves_intros]:
  "leaves f m \<Longrightarrow> leaves f (io_ignore m)" "leaves f m \<Longrightarrow> leaves f (io_attempt m)"
  "leaves f m \<Longrightarrow> leaves f (io_context msg m)"
  by (auto simp: leaves_def io_ignore_def io_attempt_def io_context_def split: prod.splits)
    (metis snd_conv)+

lemma leaves_option [leaves_intros]:
  "leaves f m \<Longrightarrow> (\<And>x. leaves f (g x)) \<Longrightarrow> leaves f (case z of None \<Rightarrow> m | Some x \<Rightarrow> g x)"
  by (cases z) simp_all

lemma leaves_sum [leaves_intros]:
  "(\<And>e. leaves f (m e)) \<Longrightarrow> (\<And>x. leaves f (g x)) \<Longrightarrow> leaves f (case z of Inl e \<Rightarrow> m e | Inr x \<Rightarrow> g x)"
  by (cases z) simp_all

lemma leaves_if [leaves_intros]: "leaves f m \<Longrightarrow> leaves f g \<Longrightarrow> leaves f (if b then m else g)"
  by simp

lemma leaves_prod [leaves_intros]: "(\<And>x y. leaves f (g x y)) \<Longrightarrow> leaves f (case z of (x, y) \<Rightarrow> g x y)"
  by (cases z) simp

end
