(* ===== verification/Std.thy ===== *)
theory Std
  imports Prelude
begin

text \<open>
  What the sources use of Rust's standard library on integers and text: saturating and
  checked arithmetic, casts, decimal formatting, ASCII classes, and the operations on
  \<open>&str\<close>. The order lemma for zero-padded decimals is what makes the listing order of
  the bucket agree with the numbering of chunks and log segments.
\<close>

section \<open>Machine arithmetic\<close>

text \<open>\<open>i64\<close> values are \<open>int\<close>s in this range; the saturating operations clamp to it.\<close>

definition i64_min :: int where "i64_min = - (2 ^ 63)"
definition i64_max :: int where "i64_max = 2 ^ 63 - 1"

definition is_i64 :: "int \<Rightarrow> bool" where
  "is_i64 x \<longleftrightarrow> i64_min \<le> x \<and> x \<le> i64_max"

definition clamp_i64 :: "int \<Rightarrow> int" where
  "clamp_i64 x = max i64_min (min i64_max x)"

definition sat_add_i64 :: "int \<Rightarrow> int \<Rightarrow> int" where
  "sat_add_i64 a b = clamp_i64 (a + b)"

definition sat_sub_i64 :: "int \<Rightarrow> int \<Rightarrow> int" where
  "sat_sub_i64 a b = clamp_i64 (a - b)"

lemmas i64_bounds = i64_min_def i64_max_def

lemma clamp_i64_id [simp]: "is_i64 x \<Longrightarrow> clamp_i64 x = x"
  by (simp add: is_i64_def clamp_i64_def)

lemma is_i64_clamp [simp]: "is_i64 (clamp_i64 x)"
  by (simp add: is_i64_def clamp_i64_def i64_bounds)

lemma is_i64_sat [simp]: "is_i64 (sat_add_i64 a b)" "is_i64 (sat_sub_i64 a b)"
  by (simp_all add: sat_add_i64_def sat_sub_i64_def)

text \<open>\<open>x as i64\<close> of a \<open>u64\<close> reads the same 64 bits as two's complement.\<close>

definition u64_as_i64 :: "u64 \<Rightarrow> int" where
  "u64_as_i64 x = sint x"

lemma is_i64_u64_as_i64 [simp]: "is_i64 (u64_as_i64 x)"
proof -
  have "- (2 ^ 63) \<le> sint x" using sint_ge [of x] by simp
  moreover have "sint x < 2 ^ 63" using sint_lt [of x] by simp
  ultimately show ?thesis by (simp add: u64_as_i64_def is_i64_def i64_bounds)
qed

definition sat_add_u64 :: "u64 \<Rightarrow> u64 \<Rightarrow> u64" where
  "sat_add_u64 a b = (if unat a + unat b < 2 ^ 64 then a + b else - 1)"

definition sat_mul_u64 :: "u64 \<Rightarrow> u64 \<Rightarrow> u64" where
  "sat_mul_u64 a b = (if unat a * unat b < 2 ^ 64 then a * b else - 1)"

definition checked_add_u32 :: "u32 \<Rightarrow> u32 \<Rightarrow> u32 option" where
  "checked_add_u32 a b = (if unat a + unat b < 2 ^ 32 then Some (a + b) else None)"

lemma unat_u64_max: "unat (- 1 :: u64) = 2 ^ 64 - 1"
  by (simp add: unsigned_minus_1_eq_mask mask_eq_exp_minus_1)

lemma unat_u64_less: "unat (x :: u64) < 2 ^ 64"
  using unsigned_less [of x] by simp

lemma unat_u32_less: "unat (x :: u32) < 2 ^ 32"
  using unsigned_less [of x] by simp

lemma unat_sat_add_u64: "unat (sat_add_u64 a b) = min (unat a + unat b) (2 ^ 64 - 1)"
  by (auto simp: sat_add_u64_def unat_word_ariths unat_u64_max)

lemma unat_sat_mul_u64: "unat (sat_mul_u64 a b) = min (unat a * unat b) (2 ^ 64 - 1)"
  by (auto simp: sat_mul_u64_def unat_word_ariths unat_u64_max)

lemma unat_checked_add_u32:
  "checked_add_u32 a b = Some c \<Longrightarrow> unat c = unat a + unat b"
  by (auto simp: checked_add_u32_def unat_word_ariths split: if_splits)

section \<open>Decimal formatting\<close>

definition digit_char :: "nat \<Rightarrow> char" where
  "digit_char d = char_of (48 + d)"

lemma of_char_digit [simp]: "d < 10 \<Longrightarrow> of_char (digit_char d) = (48 + d :: nat)"
  by (simp add: digit_char_def)

lemma digit_char_inj: "d < 10 \<Longrightarrow> e < 10 \<Longrightarrow> digit_char d = digit_char e \<longleftrightarrow> d = e"
  by (metis add_left_cancel of_char_digit)

lemma digit_char_less: "d < 10 \<Longrightarrow> e < 10 \<Longrightarrow> digit_char d < digit_char e \<longleftrightarrow> d < e"
  by (simp add: less_char_def)

text \<open>The last \<open>w\<close> decimal digits of \<open>n\<close>, most significant first.\<close>

fun dec_fixed :: "nat \<Rightarrow> nat \<Rightarrow> string" where
  "dec_fixed 0 n = []"
| "dec_fixed (Suc w) n = dec_fixed w (n div 10) @ [digit_char (n mod 10)]"

text \<open>\<open>{n}\<close>: the digits without leading zeros.\<close>

fun dec :: "nat \<Rightarrow> string" where
  "dec n = (if n < 10 then [digit_char n] else dec (n div 10) @ [digit_char (n mod 10)])"

declare dec.simps [simp del]

text \<open>\<open>{n:0w}\<close>: zero padded to at least \<open>w\<close> characters, longer when the number needs it.\<close>

definition dec_padded :: "nat \<Rightarrow> nat \<Rightarrow> string" where
  "dec_padded w n = replicate (w - length (dec n)) (CHR ''0'') @ dec n"

lemma length_dec_fixed [simp]: "length (dec_fixed w n) = w"
  by (induction w arbitrary: n) simp_all

lemma dec_nonempty [simp]: "dec n \<noteq> []" "[] \<noteq> dec n"
  by (subst dec.simps, simp)+

lemma digit_char_0: "digit_char 0 = CHR ''0''"
proof -
  have "char_of (of_char (CHR ''0'') :: nat) = CHR ''0''" by (rule char_of_char)
  then show ?thesis by (simp add: digit_char_def)
qed

lemma dec_fixed_0: "dec_fixed w 0 = replicate w (CHR ''0'')"
  by (induction w) (simp_all add: digit_char_0 replicate_append_same)

lemma set_dec: "set (dec n) \<subseteq> digit_char ` {..<10}"
proof (induction n rule: dec.induct)
  case (1 n)
  then show ?case
    by (cases "n < 10") (simp_all add: dec.simps [of n])
qed

lemma dec_fixed_eq_padded:
  "n < 10 ^ w \<Longrightarrow> 0 < w \<Longrightarrow> dec_fixed w n = replicate (w - length (dec n)) (CHR ''0'') @ dec n
     \<and> length (dec n) \<le> w"
proof (induction w arbitrary: n)
  case 0
  then show ?case by simp
next
  case (Suc w)
  show ?case
  proof (cases "n < 10")
    case True
    then show ?thesis by (simp add: dec.simps [of n] dec_fixed_0)
  next
    case False
    with Suc.prems have "0 < w" by (cases w) auto
    moreover from Suc.prems have "n div 10 < 10 ^ w"
      by (simp add: less_mult_imp_div_less mult.commute)
    ultimately show ?thesis
      using Suc.IH [of "n div 10"] False by (simp add: dec.simps [of n] Suc_diff_le)
  qed
qed

lemma dec_padded_fixed: "n < 10 ^ w \<Longrightarrow> 0 < w \<Longrightarrow> dec_padded w n = dec_fixed w n"
  using dec_fixed_eq_padded by (simp add: dec_padded_def)

lemma length_dec_padded: "n < 10 ^ w \<Longrightarrow> 0 < w \<Longrightarrow> length (dec_padded w n) = w"
  by (simp add: dec_padded_fixed)

lemma dec_inj: "dec m = dec n \<Longrightarrow> m = n"
proof (induction m arbitrary: n rule: dec.induct)
  case (1 m)
  show ?case
  proof (cases "m < 10")
    case True
    with 1(2) show ?thesis
      by (cases "n < 10")
        (auto simp: dec.simps [of m] dec.simps [of n] digit_char_inj Cons_eq_append_conv)
  next
    case False
    with 1(2) have n: "\<not> n < 10"
      by (auto simp: dec.simps [of m] dec.simps [of n])
    with False 1(2) have "dec (m div 10) = dec (n div 10)" "m mod 10 = n mod 10"
      by (simp_all add: dec.simps [of m] dec.simps [of n] digit_char_inj)
    with False 1(1) have "m div 10 = n div 10" by simp
    with \<open>m mod 10 = n mod 10\<close> show ?thesis by (metis mult_div_mod_eq)
  qed
qed

lemma dec_no_leading_zero: "0 < n \<Longrightarrow> hd (dec n) \<noteq> CHR ''0''"
proof (induction n rule: dec.induct)
  case (1 n)
  show ?case
  proof (cases "n < 10")
    case True
    with 1(2) show ?thesis
      using digit_char_inj [of n 0] by (simp add: dec.simps [of n] digit_char_0)
  next
    case False
    then have "0 < n div 10" by simp
    with 1(1) False show ?thesis by (simp add: dec.simps [of n])
  qed
qed

lemma dropWhile_zeros: "dropWhile (\<lambda>c. c = CHR ''0'') (dec_padded w n) = (if n = 0 then [] else dec n)"
proof (cases "n = 0")
  case True
  then show ?thesis by (simp add: dec_padded_def dec.simps digit_char_0)
next
  case False
  then obtain c cs where "dec n = c # cs" "c \<noteq> CHR ''0''"
    using dec_no_leading_zero [of n] by (cases "dec n") auto
  with False show ?thesis by (simp add: dec_padded_def dropWhile_append)
qed

lemma dec_padded_inj:
  assumes "dec_padded w m = dec_padded w n"
  shows "m = n"
proof -
  have "(if m = 0 then [] else dec m) = (if n = 0 then [] else dec n)"
    using assms by (metis dropWhile_zeros)
  then show ?thesis
    by (cases "m = 0"; cases "n = 0") (auto simp: dec_inj dest: sym)
qed

text \<open>At a fixed width the byte order of the digits is the order of the numbers.\<close>

lemma list_less_append_same_length:
  fixes xs ys :: "'a :: linorder list"
  assumes "length xs = length ys"
  shows "xs @ us < ys @ vs \<longleftrightarrow> xs < ys \<or> xs = ys \<and> us < vs"
  using assms
proof (induction xs ys rule: list_induct2)
  case Nil
  then show ?case by simp
next
  case (Cons x xs y ys)
  then show ?case by (cases "x = y") simp_all
qed

lemma div_mod_less_iff:
  fixes m n :: nat
  shows "m < n \<longleftrightarrow> m div 10 < n div 10 \<or> m div 10 = n div 10 \<and> m mod 10 < n mod 10"
proof -
  have m: "m = 10 * (m div 10) + m mod 10" and n: "n = 10 * (n div 10) + n mod 10" by simp_all
  have "m mod 10 < 10" "n mod 10 < 10" by simp_all
  with m n show ?thesis by linarith
qed

lemma dec_fixed_less:
  "m < 10 ^ w \<Longrightarrow> n < 10 ^ w \<Longrightarrow> dec_fixed w m < dec_fixed w n \<longleftrightarrow> m < n"
proof (induction w arbitrary: m n)
  case 0
  then show ?case by simp
next
  case (Suc w)
  have dn: "m div 10 < 10 ^ w" "n div 10 < 10 ^ w"
    using Suc.prems by (simp_all add: less_mult_imp_div_less mult.commute)
  have eq: "dec_fixed w (m div 10) = dec_fixed w (n div 10) \<longleftrightarrow> m div 10 = n div 10"
    using Suc.IH [OF dn] Suc.IH [OF dn(2) dn(1)] by (metis linorder_neq_iff)
  have "dec_fixed (Suc w) m < dec_fixed (Suc w) n \<longleftrightarrow>
      m div 10 < n div 10 \<or> m div 10 = n div 10 \<and> m mod 10 < n mod 10"
    by (simp add: list_less_append_same_length Suc.IH [OF dn] eq digit_char_less)
  also have "\<dots> \<longleftrightarrow> m < n"
    by (rule div_mod_less_iff [symmetric])
  finally show ?case .
qed

lemma dec_padded_less:
  "m < 10 ^ w \<Longrightarrow> n < 10 ^ w \<Longrightarrow> 0 < w \<Longrightarrow> dec_padded w m < dec_padded w n \<longleftrightarrow> m < n"
  by (simp add: dec_padded_fixed dec_fixed_less)

section \<open>ASCII classes and operations on text\<close>

definition in_range :: "nat \<Rightarrow> nat \<Rightarrow> char \<Rightarrow> bool" where
  "in_range lo hi c \<longleftrightarrow> lo \<le> of_char c \<and> of_char c \<le> hi"

definition is_ascii_digit :: "char \<Rightarrow> bool" where
  "is_ascii_digit c = in_range 48 57 c"

definition is_ascii_upper :: "char \<Rightarrow> bool" where
  "is_ascii_upper c = in_range 65 90 c"

definition is_ascii_lower :: "char \<Rightarrow> bool" where
  "is_ascii_lower c = in_range 97 122 c"

definition is_ascii_alphanumeric :: "char \<Rightarrow> bool" where
  "is_ascii_alphanumeric c \<longleftrightarrow> is_ascii_digit c \<or> is_ascii_upper c \<or> is_ascii_lower c"

text \<open>
  \<open>trim\<close> removes white space; the model's text is bytes, so only the ASCII white space
  characters are known to it (tab to carriage return, and the blank).
\<close>

definition is_space :: "char \<Rightarrow> bool" where
  "is_space c \<longleftrightarrow> in_range 9 13 c \<or> in_range 32 32 c"

definition trim :: "string \<Rightarrow> string" where
  "trim s = rev (dropWhile is_space (rev (dropWhile is_space s)))"

definition to_ascii_lowercase :: "string \<Rightarrow> string" where
  "to_ascii_lowercase = map (\<lambda>c. if is_ascii_upper c then char_of (of_char c + 32 :: nat) else c)"

definition to_ascii_uppercase :: "string \<Rightarrow> string" where
  "to_ascii_uppercase = map (\<lambda>c. if is_ascii_lower c then char_of (of_char c - 32 :: nat) else c)"

abbreviation starts_with :: "string \<Rightarrow> string \<Rightarrow> bool" where
  "starts_with s p \<equiv> prefix p s"

abbreviation ends_with :: "string \<Rightarrow> string \<Rightarrow> bool" where
  "ends_with s p \<equiv> suffix p s"

abbreviation contains_str :: "string \<Rightarrow> string \<Rightarrow> bool" where
  "contains_str s p \<equiv> sublist p s"

definition strip_prefix :: "string \<Rightarrow> string \<Rightarrow> string option" where
  "strip_prefix p s = (if prefix p s then Some (drop (length p) s) else None)"

definition strip_suffix :: "string \<Rightarrow> string \<Rightarrow> string option" where
  "strip_suffix p s = (if suffix p s then Some (take (length s - length p) s) else None)"

text \<open>\<open>split_once(c)\<close>: around the first occurrence of \<open>c\<close>.\<close>

fun split_once :: "char \<Rightarrow> string \<Rightarrow> (string \<times> string) option" where
  "split_once c [] = None"
| "split_once c (x # xs) =
     (if x = c then Some ([], xs)
      else case split_once c xs of None \<Rightarrow> None | Some (a, b) \<Rightarrow> Some (x # a, b))"

text \<open>\<open>split(c)\<close>: every piece between separators, empty ones included.\<close>

fun split_on :: "char \<Rightarrow> string \<Rightarrow> string list" where
  "split_on c [] = [[]]"
| "split_on c (x # xs) =
     (if x = c then [] # split_on c xs
      else case split_on c xs of [] \<Rightarrow> [[x]] | p # ps \<Rightarrow> (x # p) # ps)"

fun join :: "string \<Rightarrow> string list \<Rightarrow> string" where
  "join sep [] = []"
| "join sep [p] = p"
| "join sep (p # q # ps) = p @ sep @ join sep (q # ps)"

text \<open>A piece of a message between single quotes.\<close>

definition quoted :: "string \<Rightarrow> string" where
  "quoted s = CHR 0x27 # s @ [CHR 0x27]"

lemma strip_prefix_Some: "strip_prefix p s = Some r \<longleftrightarrow> s = p @ r"
  by (auto simp: strip_prefix_def prefix_def)

lemma strip_suffix_Some: "strip_suffix p s = Some r \<longleftrightarrow> s = r @ p"
  by (auto simp: strip_suffix_def suffix_def)

lemma split_once_append: "c \<notin> set a \<Longrightarrow> split_once c (a @ c # b) = Some (a, b)"
  by (induction a) auto

lemma split_once_SomeD: "split_once c s = Some (a, b) \<Longrightarrow> s = a @ c # b \<and> c \<notin> set a"
  by (induction s arbitrary: a b) (auto split: if_splits option.splits)

lemma split_once_Some: "split_once c s = Some (a, b) \<longleftrightarrow> s = a @ c # b \<and> c \<notin> set a"
  using split_once_append split_once_SomeD by blast

lemma split_once_None: "split_once c s = None \<longleftrightarrow> c \<notin> set s"
  by (induction s) (auto split: option.splits)

lemma split_on_not_Nil [simp]: "split_on c s \<noteq> []"
  by (induction s) (auto split: list.splits)

lemma split_on_no_sep: "p \<in> set (split_on c s) \<Longrightarrow> c \<notin> set p"
proof (induction s arbitrary: p)
  case Nil
  then show ?case by simp
next
  case (Cons x s)
  then show ?case by (cases "split_on c s") (auto split: if_splits)
qed

lemma join_split_on: "join [c] (split_on c s) = s"
proof (induction s)
  case Nil
  then show ?case by simp
next
  case (Cons x s)
  obtain p ps where "split_on c s = p # ps" by (cases "split_on c s") auto
  with Cons show ?case by (cases ps) auto
qed

lemma slash_not_alphanumeric [simp]: "\<not> is_ascii_alphanumeric (CHR ''/'')"
  by (simp add: is_ascii_alphanumeric_def is_ascii_digit_def is_ascii_upper_def
      is_ascii_lower_def in_range_def)

text \<open>Text as bytes, for the places where the sources call \<open>as_bytes\<close> or \<open>from_utf8\<close>.\<close>

definition as_bytes :: "string \<Rightarrow> bytes" where
  "as_bytes = map of_char"

definition of_bytes :: "bytes \<Rightarrow> string" where
  "of_bytes = map (\<lambda>b. char_of (unat b))"

lemma length_as_bytes [simp]: "length (as_bytes s) = length s"
  by (simp add: as_bytes_def)

lemma of_bytes_as_bytes [simp]: "of_bytes (as_bytes s) = s"
proof -
  have "char_of (unat (of_char c :: u8)) = c" for c
  proof -
    have "unat (of_char c :: u8) = of_char c"
      by (cases c) (simp add: of_char_def unat_of_nat)
    then show ?thesis by simp
  qed
  then show ?thesis by (simp add: as_bytes_def of_bytes_def o_def)
qed

lemma as_bytes_inj: "as_bytes s = as_bytes t \<longleftrightarrow> s = t"
  by (metis of_bytes_as_bytes)

lemma as_bytes_append [simp]: "as_bytes (s @ t) = as_bytes s @ as_bytes t"
  by (simp add: as_bytes_def)

text \<open>\<open>str::from_utf8(..).is_ok()\<close>: the well-formed byte sequences of the Unicode standard.\<close>

definition utf8_cont :: "u8 \<Rightarrow> bool" where
  "utf8_cont b \<longleftrightarrow> 128 \<le> b \<and> b \<le> 191"

fun utf8_valid :: "bytes \<Rightarrow> bool" where
  "utf8_valid [] = True"
| "utf8_valid (a # r) =
     (if a \<le> 127 then utf8_valid r
      else if 194 \<le> a \<and> a \<le> 223 then
        (case r of b # r1 \<Rightarrow> utf8_cont b \<and> utf8_valid r1 | _ \<Rightarrow> False)
      else if 224 \<le> a \<and> a \<le> 239 then
        (case r of b # c # r2 \<Rightarrow> utf8_cont b \<and> (a = 224 \<longrightarrow> 160 \<le> b) \<and> (a = 237 \<longrightarrow> b \<le> 159)
            \<and> utf8_cont c \<and> utf8_valid r2
         | _ \<Rightarrow> False)
      else if 240 \<le> a \<and> a \<le> 244 then
        (case r of b # c # d # r3 \<Rightarrow> utf8_cont b \<and> (a = 240 \<longrightarrow> 144 \<le> b) \<and> (a = 244 \<longrightarrow> b \<le> 143)
            \<and> utf8_cont c \<and> utf8_cont d \<and> utf8_valid r3
         | _ \<Rightarrow> False)
      else False)"

lemma utf8_valid_ascii: "list_all (\<lambda>b. b \<le> 127) bs \<Longrightarrow> utf8_valid bs"
  by (induction bs) simp_all

lemma utf8_valid_cases:
  assumes "utf8_valid (a # r)"
  obtains (one) "a \<le> 127" "utf8_valid r"
  | (two) b r1 where "r = b # r1" "\<not> a \<le> 127" "194 \<le> a \<and> a \<le> 223" "utf8_cont b" "utf8_valid r1"
  | (three) b c r2 where "r = b # c # r2" "\<not> a \<le> 127" "\<not> (194 \<le> a \<and> a \<le> 223)" "224 \<le> a \<and> a \<le> 239"
      "utf8_cont b" "a = 224 \<longrightarrow> 160 \<le> b" "a = 237 \<longrightarrow> b \<le> 159" "utf8_cont c" "utf8_valid r2"
  | (four) b c d r3 where "r = b # c # d # r3" "\<not> a \<le> 127" "\<not> (194 \<le> a \<and> a \<le> 223)"
      "\<not> (224 \<le> a \<and> a \<le> 239)" "240 \<le> a \<and> a \<le> 244"
      "utf8_cont b" "a = 240 \<longrightarrow> 144 \<le> b" "a = 244 \<longrightarrow> b \<le> 143" "utf8_cont c" "utf8_cont d" "utf8_valid r3"
proof -
  define A B C D where "A \<longleftrightarrow> a \<le> 127" and "B \<longleftrightarrow> 194 \<le> a \<and> a \<le> 223" and "C \<longleftrightarrow> 224 \<le> a \<and> a \<le> 239"
    and "D \<longleftrightarrow> 240 \<le> a \<and> a \<le> 244"
  note defs = A_def B_def C_def D_def
  note v = assms [unfolded utf8_valid.simps, folded defs]
  note goals = one two three four
  show thesis
  proof (cases A)
    case True
    with v one show ?thesis unfolding defs by (simp only: if_True)
  next
    case nA: False
    show ?thesis
    proof (cases B)
      case True
      with v nA have "case r of b # r1 \<Rightarrow> utf8_cont b \<and> utf8_valid r1 | _ \<Rightarrow> False"
        by (simp only: if_True if_False)
      then obtain b r1 where "r = b # r1" "utf8_cont b" "utf8_valid r1"
        by (simp only: split: list.splits)
      with nA True two show ?thesis unfolding defs by blast
    next
      case nB: False
      show ?thesis
      proof (cases C)
        case True
        with v nA nB have "case r of b # c # r2 \<Rightarrow> utf8_cont b \<and> (a = 224 \<longrightarrow> 160 \<le> b) \<and> (a = 237 \<longrightarrow> b \<le> 159)
            \<and> utf8_cont c \<and> utf8_valid r2 | _ \<Rightarrow> False"
          by (simp only: if_True if_False)
        then obtain b c r2 where "r = b # c # r2" "utf8_cont b" "a = 224 \<longrightarrow> 160 \<le> b" "a = 237 \<longrightarrow> b \<le> 159"
          "utf8_cont c" "utf8_valid r2"
          by (simp only: split: list.splits) blast
        with nA nB True three show ?thesis unfolding defs by blast
      next
        case nC: False
        with v nA nB have d: D by (simp only: if_False split: if_splits)
        with v nA nB nC have "case r of b # c # d # r3 \<Rightarrow> utf8_cont b \<and> (a = 240 \<longrightarrow> 144 \<le> b) \<and> (a = 244 \<longrightarrow> b \<le> 143)
            \<and> utf8_cont c \<and> utf8_cont d \<and> utf8_valid r3 | _ \<Rightarrow> False"
          by (simp only: if_True if_False)
        then obtain b c d' r3 where "r = b # c # d' # r3" "utf8_cont b" "a = 240 \<longrightarrow> 144 \<le> b"
          "a = 244 \<longrightarrow> b \<le> 143" "utf8_cont c" "utf8_cont d'" "utf8_valid r3"
          by (simp only: split: list.splits) blast
        with nA nB nC d four show ?thesis unfolding defs by blast
      qed
    qed
  qed
qed

lemma utf8_valid_intros:
  "a \<le> 127 \<Longrightarrow> utf8_valid r \<Longrightarrow> utf8_valid (a # r)"
  "\<not> a \<le> 127 \<Longrightarrow> 194 \<le> a \<and> a \<le> 223 \<Longrightarrow> utf8_cont b \<Longrightarrow> utf8_valid r \<Longrightarrow> utf8_valid (a # b # r)"
  "\<not> a \<le> 127 \<Longrightarrow> \<not> (194 \<le> a \<and> a \<le> 223) \<Longrightarrow> 224 \<le> a \<and> a \<le> 239 \<Longrightarrow> utf8_cont b \<Longrightarrow>
   (a = 224 \<longrightarrow> 160 \<le> b) \<Longrightarrow> (a = 237 \<longrightarrow> b \<le> 159) \<Longrightarrow> utf8_cont c \<Longrightarrow> utf8_valid r \<Longrightarrow> utf8_valid (a # b # c # r)"
  "\<not> a \<le> 127 \<Longrightarrow> \<not> (194 \<le> a \<and> a \<le> 223) \<Longrightarrow> \<not> (224 \<le> a \<and> a \<le> 239) \<Longrightarrow> 240 \<le> a \<and> a \<le> 244 \<Longrightarrow>
   utf8_cont b \<Longrightarrow> (a = 240 \<longrightarrow> 144 \<le> b) \<Longrightarrow> (a = 244 \<longrightarrow> b \<le> 143) \<Longrightarrow> utf8_cont c \<Longrightarrow> utf8_cont d \<Longrightarrow>
   utf8_valid r \<Longrightarrow> utf8_valid (a # b # c # d # r)"
  by (simp_all only: utf8_valid.simps if_True if_False list.case simp_thms)

lemma utf8_append: "utf8_valid x \<Longrightarrow> utf8_valid y \<Longrightarrow> utf8_valid (x @ y)"
proof (induction "length x" arbitrary: x rule: less_induct)
  case less
  show ?case
  proof (cases x)
    case Nil
    with less.prems show ?thesis by simp
  next
    case (Cons a r)
    from less.prems(1) have "utf8_valid (a # r)" unfolding Cons .
    then show ?thesis
    proof (cases rule: utf8_valid_cases)
      case one
      then show ?thesis using less.hyps [of r] less.prems(2) unfolding Cons
        by (simp only: append_Cons) (rule utf8_valid_intros(1); simp)
    next
      case (two b r1)
      then show ?thesis using less.hyps [of r1] less.prems(2) unfolding Cons
        by (simp only: append_Cons) (rule utf8_valid_intros(2); simp)
    next
      case (three b c r2)
      have "utf8_valid (r2 @ y)" using less.hyps [of r2] less.prems(2) Cons three(1,9) by simp
      with three show ?thesis unfolding Cons by (simp only: append_Cons) (rule utf8_valid_intros(3))
    next
      case (four b c d r3)
      have "utf8_valid (r3 @ y)" using less.hyps [of r3] less.prems(2) Cons four(1,11) by simp
      with four show ?thesis unfolding Cons by (simp only: append_Cons) (rule utf8_valid_intros(4))
    qed
  qed
qed

lemma utf8_take:
  "utf8_valid x \<Longrightarrow> n \<le> length x \<Longrightarrow> n = length x \<or> \<not> utf8_cont (x ! n) \<Longrightarrow> utf8_valid (take n x)"
proof (induction "length x" arbitrary: x n rule: less_induct)
  case less
  have ih: "utf8_valid (take k r)"
    if "utf8_valid r" "length r < length x" "k \<le> length r" "k = length r \<or> \<not> utf8_cont (r ! k)" for r k
    using less.hyps that by blast
  show ?case
  proof (cases "x = [] \<or> n = 0")
    case True
    then show ?thesis by auto
  next
    case False
    then obtain a r m where x: "x = a # r" and n: "n = Suc m" by (cases x; cases n) auto
    have m: "m \<le> length r" "m = length r \<or> \<not> utf8_cont (r ! m)" using less.prems x n by simp_all
    from less.prems(1) have "utf8_valid (a # r)" unfolding x .
    then show ?thesis
    proof (cases rule: utf8_valid_cases)
      case one
      then have "utf8_valid (take m r)" using ih [of r m] m x by simp
      with one show ?thesis unfolding x n by (simp only: take_Suc_Cons) (rule utf8_valid_intros(1))
    next
      case (two b r1)
      with m obtain k where k: "m = Suc k" "k \<le> length r1" "k = length r1 \<or> \<not> utf8_cont (r1 ! k)"
        by (cases m) auto
      then have "utf8_valid (take k r1)" using ih [of r1 k] two x by simp
      with two show ?thesis unfolding x n two(1) k(1)
        by (simp only: take_Suc_Cons) (rule utf8_valid_intros(2))
    next
      case (three b c r2)
      with m obtain k where k: "m = Suc (Suc k)" "k \<le> length r2" "k = length r2 \<or> \<not> utf8_cont (r2 ! k)"
        by (cases m; cases "m - 1") auto
      then have "utf8_valid (take k r2)" using ih [of r2 k] three x by simp
      with three show ?thesis unfolding x n three(1) k(1)
        by (simp only: take_Suc_Cons) (rule utf8_valid_intros(3))
    next
      case (four b c d r3)
      with m obtain k where k: "m = Suc (Suc (Suc k))" "k \<le> length r3" "k = length r3 \<or> \<not> utf8_cont (r3 ! k)"
        by (cases m; cases "m - 1"; cases "m - 2") auto
      then have "utf8_valid (take k r3)" using ih [of r3 k] four x by simp
      with four show ?thesis unfolding x n four(1) k(1)
        by (simp only: take_Suc_Cons) (rule utf8_valid_intros(4))
    qed
  qed
qed

lemma dropWhile_none: "list_all (\<lambda>c. \<not> P c) s \<Longrightarrow> dropWhile P s = s"
  by (cases s) simp_all

lemma trim_plain: "list_all (\<lambda>c. \<not> is_space c) s \<Longrightarrow> trim s = s"
  by (simp add: trim_def dropWhile_none list_all_rev)

end
