(* ===== verification/Protocol.thy ===== *)
theory Protocol
  imports Std
begin

text \<open>
  crates/common/src/protocol.rs: the messages that travel through the bucket, the checks
  on the fields that end up in object keys, and the acceptance rules for commands and
  responses. The fields carry a prefix per struct because HOL's record selectors are global.
  \<open>uuid_ok\<close> stands for \<open>Uuid::parse_str(..).is_ok()\<close> of the uuid crate; the clock is read
  by the caller and passed as \<open>now\<close>. An \<open>f32\<close> is carried as its 32 bits.
\<close>

section \<open>Messages\<close>

definition PROTOCOL_VERSION :: u32 where
  "PROTOCOL_VERSION = 2"

datatype command_kind =
    Ping
  | Exec (ex_program: string) (ex_args: "string list") (ex_cwd: "string option")
      (ex_stdin_b64: "string option")
  | ReadFile (rf_path: string) (rf_max_bytes: "u64 option")
  | WriteFile (wf_path: string) (wf_contents_b64: string) (wf_append: bool)
  | ListDir (ld_path: string)
  | PushBlob (pb_transfer: string) (pb_dest_path: string) (pb_chunks: u32)
      (pb_total_bytes: u64) (pb_sha256: string)
  | StartJob (sj_job: string) (sj_program: string) (sj_args: "string list")
      (sj_cwd: "string option") (sj_max_runtime_secs: u64) (sj_label: "string option")
  | ListJobs
  | JobOutput (jo_job: string) (jo_tail_bytes: "u64 option")
  | CancelJob (cj_job: string)
  | MakeDir (md_path: string) (md_parents: bool)
  | Remove (rm_path: string) (rm_recursive: bool)
  | Move (mv_from: string) (mv_to: string)
  | SharePut (sp_name: string) (sp_path: string) (sp_key_b64: string) (sp_expires_at: int)
  | ShareGet (sg_name: string) (sg_dest_path: string) (sg_key_b64: string)
  | StandDown
  | PullBlob (pl_transfer: string) (pl_path: string) (pl_max_bytes: u64)

record command =
  cmd_id :: string
  cmd_agent_id :: string
  cmd_protocol :: u32
  cmd_created_at :: int
  cmd_expires_at :: int
  cmd_timeout_secs :: u64
  cmd_instance :: "string option"
  cmd_kind :: command_kind

datatype job_state = Running | Succeeded | Failed | TimedOut | Cancelled | Lost

record job_status =
  js_job :: string
  js_label :: "string option"
  js_program :: string
  js_state :: job_state
  js_started_at :: int
  js_finished_at :: "int option"
  js_exit_code :: "int option"
  js_error :: "string option"
  js_stdout_path :: string
  js_stderr_path :: string

record dir_entry =
  de_name :: string
  de_is_dir :: bool
  de_size :: u64

datatype response_payload =
    Pong string string string
  | ExecResult (er_stdout_b64: string) (er_stderr_b64: string) (er_stdout_truncated: bool)
      (er_stderr_truncated: bool) (er_exit_code: "int option") (er_timed_out: bool)
  | FileContents string bool
  | Written u64
  | DirListing "dir_entry list"
  | JobStarted string "u32 option"
  | JobList "job_status list"
  | JobTail string string bool bool string string
  | BlobWritten u64 string
  | BlobStaged u32 u64 string
  | Shared string u32 u64 string
  | EmptyPayload

record response =
  resp_id :: string
  resp_agent_id :: string
  resp_protocol :: u32
  resp_finished_at :: int
  resp_ok :: bool
  resp_error :: "string option"
  resp_payload :: response_payload

record gpu_metrics =
  gm_index :: u32
  gm_name :: string
  gm_utilization_pct :: "u32 option"
  gm_memory_used_mb :: "u64 option"
  gm_memory_total_mb :: "u64 option"
  gm_temperature_c :: "u32 option"

record metrics =
  mt_load_1m :: "u32 option"
  mt_cpu_count :: "u32 option"
  mt_mem_total_mb :: "u64 option"
  mt_mem_available_mb :: "u64 option"
  mt_disk_total_mb :: "u64 option"
  mt_disk_free_mb :: "u64 option"
  mt_gpus :: "gpu_metrics list"

datatype event_kind =
    Ev_Heartbeat | Ev_Poll | Ev_Doorbell | Ev_Response | Ev_Command | Ev_Transfer | Ev_Update
  | Ev_Collision

record agent_event =
  ev_at :: int
  ev_kind :: event_kind
  ev_message :: string

record heartbeat =
  hb_agent_id :: string
  hb_hostname :: string
  hb_os :: string
  hb_agent_version :: string
  hb_binary_sha256 :: "string option"
  hb_instance :: string
  hb_conflict_with :: "string option"
  hb_suspended :: bool
  hb_at :: int
  hb_ttl_secs :: int
  hb_recent_errors :: "agent_event list"
  hb_jobs_running :: u32
  hb_jobs_finished :: "job_status list"
  hb_metrics :: "metrics option"

record log_chunk =
  lc_agent_id :: string
  lc_source :: string
  lc_offset :: u64
  lc_data_b64 :: string
  lc_at :: int

record share_manifest =
  sm_name :: string
  sm_chunks :: u32
  sm_total_bytes :: u64
  sm_sha256 :: string
  sm_source_agent :: string
  sm_created_at :: int
  sm_expires_at :: int

record update_manifest =
  um_agent_id :: string
  um_version :: string
  um_target :: string
  um_release :: string
  um_chunks :: u32
  um_total_bytes :: u64
  um_sha256 :: string
  um_release_key_b64 :: string
  um_published_at :: int

record doorbell =
  db_agent_id :: string
  db_at :: int

section \<open>Identifiers that become object keys\<close>

definition agent_id_char :: "char \<Rightarrow> bool" where
  "agent_id_char c \<longleftrightarrow> is_ascii_alphanumeric c \<or> c = CHR ''-'' \<or> c = CHR ''_''"

definition share_name_char :: "char \<Rightarrow> bool" where
  "share_name_char c \<longleftrightarrow> is_ascii_alphanumeric c \<or> c = CHR ''-'' \<or> c = CHR ''_'' \<or> c = CHR ''.''"

definition validate_agent_id :: "string \<Rightarrow> unit res" where
  "validate_agent_id value =
     (if value = [] \<or> length value > 64 then bail ''agent id must contain 1..=64 characters''
      else if \<not> list_all agent_id_char value
        then bail (''agent id may contain only ASCII letters, digits, '' @ quoted ''-'' @ '' and ''
          @ quoted ''_'')
      else Inr ())"

definition validate_share_name :: "string \<Rightarrow> unit res" where
  "validate_share_name value =
     (if value = [] \<or> length value > 128 then bail ''share name must contain 1..=128 characters''
      else if \<not> list_all share_name_char value
        then bail (''share name may contain only ASCII letters, digits, '' @ quoted ''-'' @ '', ''
          @ quoted ''_'' @ '' and '' @ quoted ''.'')
      else if starts_with value ''.'' \<or> contains_str value ''..''
        then bail (''share name must not start with '' @ quoted ''.'' @ '' or contain '' @ quoted ''..'')
      else Inr ())"

definition validate_transfer_id :: "(string \<Rightarrow> bool) \<Rightarrow> string \<Rightarrow> unit res" where
  "validate_transfer_id uuid_ok value =
     (if \<not> uuid_ok value then bail ''transfer id must be a UUID'' else Inr ())"

section \<open>Commands and responses\<close>

definition command_new :: "string \<Rightarrow> int \<Rightarrow> string \<Rightarrow> command_kind \<Rightarrow> u64 \<Rightarrow> u64 \<Rightarrow> command" where
  "command_new uuid now agent kind timeout_secs queue_ttl_secs =
     \<lparr>cmd_id = uuid, cmd_agent_id = agent, cmd_protocol = PROTOCOL_VERSION,
      cmd_created_at = now,
      cmd_expires_at = sat_add_i64 now (u64_as_i64 (min queue_ttl_secs (2 ^ 63 - 1))),
      cmd_timeout_secs = timeout_secs, cmd_instance = None, cmd_kind = kind\<rparr>"

definition for_instance :: "string \<Rightarrow> command \<Rightarrow> command" where
  "for_instance inst cmd = cmd\<lparr>cmd_instance := Some inst\<rparr>"

text \<open>The transfer id of the two kinds whose id becomes part of a chunk key.\<close>

definition transfer_of :: "command_kind \<Rightarrow> string option" where
  "transfer_of k = (case k of PushBlob t _ _ _ _ \<Rightarrow> Some t | PullBlob t _ _ \<Rightarrow> Some t | _ \<Rightarrow> None)"

definition validate_routing_for :: "(string \<Rightarrow> bool) \<Rightarrow> command \<Rightarrow> string \<Rightarrow> unit res" where
  "validate_routing_for uuid_ok cmd expected =
     res_then (validate_agent_id (cmd_agent_id cmd)) (\<lambda>_.
     res_then (ensure (cmd_agent_id cmd = expected) ''command targets a different agent'') (\<lambda>_.
     res_then (ensure (uuid_ok (cmd_id cmd)) ''command id is not a UUID'') (\<lambda>_.
     (case transfer_of (cmd_kind cmd) of
        Some t \<Rightarrow> validate_transfer_id uuid_ok t
      | None \<Rightarrow> Inr ()))))"

definition validate_for_agent ::
  "(string \<Rightarrow> bool) \<Rightarrow> int \<Rightarrow> command \<Rightarrow> string \<Rightarrow> u64 \<Rightarrow> unit res" where
  "validate_for_agent uuid_ok now cmd expected max_timeout_secs =
     res_then (validate_routing_for uuid_ok cmd expected) (\<lambda>_.
     res_then (ensure (cmd_protocol cmd = PROTOCOL_VERSION)
       (''protocol mismatch: command='' @ dec (unat (cmd_protocol cmd)) @
        '', agent='' @ dec (unat PROTOCOL_VERSION))) (\<lambda>_.
     res_then (ensure (\<not> cmd_created_at cmd > sat_add_i64 now 60)
       ''command timestamp is too far in the future'') (\<lambda>_.
     res_then (ensure (\<not> cmd_expires_at cmd < now) ''command expired before execution'') (\<lambda>_.
     res_then (ensure (\<not> cmd_expires_at cmd < cmd_created_at cmd)
       ''command expiry precedes creation'') (\<lambda>_.
     ensure (\<not> (cmd_timeout_secs cmd = 0 \<or> cmd_timeout_secs cmd > max_timeout_secs))
       ''command timeout is outside the agent policy'')))))"

definition response_ok :: "int \<Rightarrow> command \<Rightarrow> response_payload \<Rightarrow> response" where
  "response_ok now cmd payload =
     \<lparr>resp_id = cmd_id cmd, resp_agent_id = cmd_agent_id cmd, resp_protocol = PROTOCOL_VERSION,
      resp_finished_at = now, resp_ok = True, resp_error = None, resp_payload = payload\<rparr>"

definition response_err :: "int \<Rightarrow> command \<Rightarrow> string \<Rightarrow> response" where
  "response_err now cmd err =
     \<lparr>resp_id = cmd_id cmd, resp_agent_id = cmd_agent_id cmd, resp_protocol = PROTOCOL_VERSION,
      resp_finished_at = now, resp_ok = False, resp_error = Some err,
      resp_payload = EmptyPayload\<rparr>"

definition validate_response_for :: "int \<Rightarrow> response \<Rightarrow> command \<Rightarrow> unit res" where
  "validate_response_for now resp cmd =
     res_then (ensure (\<not> (resp_id resp \<noteq> cmd_id cmd \<or> resp_agent_id resp \<noteq> cmd_agent_id cmd))
       ''response correlation mismatch'') (\<lambda>_.
     res_then (ensure (resp_protocol resp = PROTOCOL_VERSION) ''response protocol mismatch'') (\<lambda>_.
     ensure (\<not> resp_finished_at resp > sat_add_i64 now 60)
       ''response timestamp is too far in the future''))"

definition is_terminal :: "job_state \<Rightarrow> bool" where
  "is_terminal st \<longleftrightarrow> st \<noteq> Running"

definition is_stale :: "int \<Rightarrow> heartbeat \<Rightarrow> bool" where
  "is_stale now hb \<longleftrightarrow> sat_sub_i64 now (hb_at hb) > hb_ttl_secs hb"

section \<open>Facts about identifiers\<close>

lemma validate_agent_id_iff:
  "validate_agent_id a = Inr () \<longleftrightarrow> a \<noteq> [] \<and> length a \<le> 64 \<and> list_all agent_id_char a"
  by (auto simp: validate_agent_id_def)

lemma validate_share_name_iff:
  "validate_share_name a = Inr () \<longleftrightarrow> a \<noteq> [] \<and> length a \<le> 128 \<and> list_all share_name_char a
     \<and> \<not> starts_with a ''.'' \<and> \<not> contains_str a ''..''"
  by (auto simp: validate_share_name_def)

lemma agent_id_char_plain: "agent_id_char c \<Longrightarrow> c \<noteq> CHR ''/'' \<and> c \<noteq> CHR ''.''"
  by (auto simp: agent_id_char_def is_ascii_alphanumeric_def is_ascii_digit_def
      is_ascii_upper_def is_ascii_lower_def in_range_def)

lemma share_name_char_plain: "share_name_char c \<Longrightarrow> c \<noteq> CHR ''/''"
  by (auto simp: share_name_char_def)

lemma valid_agent_id_no_slash: "validate_agent_id a = Inr () \<Longrightarrow> CHR ''/'' \<notin> set a"
  by (auto simp: validate_agent_id_iff list_all_iff dest: agent_id_char_plain)

lemma valid_agent_id_no_dot: "validate_agent_id a = Inr () \<Longrightarrow> CHR ''.'' \<notin> set a"
  by (auto simp: validate_agent_id_iff list_all_iff dest: agent_id_char_plain)

lemma valid_share_name_no_slash: "validate_share_name a = Inr () \<Longrightarrow> CHR ''/'' \<notin> set a"
  by (auto simp: validate_share_name_iff list_all_iff dest: share_name_char_plain)

section \<open>Facts about commands\<close>

lemma validate_routing_iff:
  "validate_routing_for uuid_ok cmd expected = Inr () \<longleftrightarrow>
     validate_agent_id expected = Inr () \<and> cmd_agent_id cmd = expected \<and> uuid_ok (cmd_id cmd)
     \<and> (\<forall>t. transfer_of (cmd_kind cmd) = Some t \<longrightarrow> uuid_ok t)"
  by (auto simp: validate_routing_for_def res_then_Inr_iff ensure_Inr_iff
      validate_transfer_id_def split: option.splits)

lemma u64_as_i64_small:
  assumes "unat x < 2 ^ 63"
  shows "u64_as_i64 x = int (unat x)"
proof -
  have "uint x < 2 ^ 63" using assms by (simp add: uint_nat del: of_nat_unat)
  moreover have "- (2 ^ 63) \<le> uint x" by (rule order_trans [of _ 0]) simp_all
  ultimately have "signed_take_bit 63 (uint x) = uint x"
    by (metis signed_take_bit_int_eq_self)
  then show ?thesis by (simp add: u64_as_i64_def sint_uint)
qed

lemma ttl_seconds:
  "u64_as_i64 (min ttl (2 ^ 63 - 1)) = int (min (unat ttl) (2 ^ 63 - 1))"
proof -
  have "unat (min ttl (2 ^ 63 - 1 :: u64)) = min (unat ttl) (2 ^ 63 - 1)"
    by (simp add: min_def word_le_nat_alt)
  then show ?thesis by (simp add: u64_as_i64_small)
qed

lemma command_new_expires:
  "is_i64 now \<Longrightarrow> cmd_expires_at (command_new u now a k t ttl) =
     min i64_max (now + int (min (unat ttl) (2 ^ 63 - 1)))"
  using ttl_seconds [of ttl]
  by (simp add: command_new_def sat_add_i64_def clamp_i64_def is_i64_def i64_bounds)

end
