(* ===== verification/Env.thy ===== *)
theory Env
  imports Protocol
begin

text \<open>
  Everything the sources call that is not under src/, as fields of one record that the
  model's definitions take as an argument: the S3 client, the random generator, the clocks,
  and the crates for AEAD encryption, X25519, HKDF, SHA-256, base64, UUIDs and JSON. Nothing
  is assumed here; what the sources rely on is named by the predicates and the locale below,
  and each states documented behaviour of the service or crate.

  The state \<open>'s\<close> is whatever the outside world is (bucket, entropy, time).
\<close>

section \<open>Libraries without effects\<close>

record 'a codec =
  to_vec :: "'a \<Rightarrow> bytes res"
  from_slice :: "bytes \<Rightarrow> 'a res"

record envelope =
  en_version :: u32
  en_key_id :: string
  en_nonce_b64 :: string
  en_ciphertext_b64 :: string

text \<open>
  \<open>aead_encrypt key nonce msg aad\<close> and \<open>aead_decrypt key nonce ciphertext aad\<close> are
  XChaCha20-Poly1305; \<open>diffie_hellman private public\<close> is X25519 and
  \<open>hkdf salt ikm info len\<close> extract-and-expand with SHA-256.
\<close>

record libs =
  uuid_ok :: "string \<Rightarrow> bool"
  b64_encode :: "bytes \<Rightarrow> string"
  b64_decode :: "string \<Rightarrow> bytes res"
  url64_encode :: "bytes \<Rightarrow> string"
  url64_decode :: "string \<Rightarrow> bytes res"
  aead_encrypt :: "bytes \<Rightarrow> bytes \<Rightarrow> bytes \<Rightarrow> bytes \<Rightarrow> bytes option"
  aead_decrypt :: "bytes \<Rightarrow> bytes \<Rightarrow> bytes \<Rightarrow> bytes \<Rightarrow> bytes option"
  sha256 :: "bytes \<Rightarrow> bytes"
  x25519_public :: "bytes \<Rightarrow> bytes"
  diffie_hellman :: "bytes \<Rightarrow> bytes \<Rightarrow> bytes"
  hkdf :: "bytes \<Rightarrow> bytes \<Rightarrow> bytes \<Rightarrow> nat \<Rightarrow> bytes option"
  envelope_json :: "envelope codec"
  command_json :: "command codec"
  response_json :: "response codec"
  heartbeat_json :: "heartbeat codec"
  doorbell_json :: "doorbell codec"
  log_chunk_json :: "log_chunk codec"
  update_manifest_json :: "update_manifest codec"
  share_manifest_json :: "share_manifest codec"

section \<open>Services and the operating system\<close>

text \<open>
  \<open>get_object\<close> answers \<open>None\<close> for NoSuchKey; otherwise the advertised length, if any,
  and the outcome of reading the body to its end. \<open>head_object\<close> answers \<open>None\<close> for
  NotFound and otherwise the ETag, if any. \<open>list_objects_v2 prefix token\<close> is one page.
\<close>

record s3_object =
  so_content_length :: "int option"
  so_body :: "bytes res"

record list_page =
  lp_contents :: "(string option \<times> int option) list"
  lp_is_truncated :: "bool option"
  lp_next_token :: "string option"

record 's env = libs +
  put_object :: "string \<Rightarrow> bytes \<Rightarrow> ('s, unit) io"
  get_object :: "string \<Rightarrow> ('s, s3_object option) io"
  head_object :: "string \<Rightarrow> ('s, string option option) io"
  delete_object :: "string \<Rightarrow> ('s, unit) io"
  list_objects_v2 :: "string \<Rightarrow> string option \<Rightarrow> ('s, list_page) io"
  fill_bytes :: "nat \<Rightarrow> 's \<Rightarrow> bytes \<times> 's"
  new_uuid :: "'s \<Rightarrow> string \<times> 's"
  clock_unix :: "'s \<Rightarrow> int \<times> 's"
  instant_ms :: "'s \<Rightarrow> nat \<times> 's"
  sleep_ms :: "nat \<Rightarrow> 's \<Rightarrow> 's"

definition random :: "'s env \<Rightarrow> nat \<Rightarrow> ('s, bytes) io" where
  "random E n = (\<lambda>s. case fill_bytes E n s of (b, s') \<Rightarrow> (Inr b, s'))"

definition uuid_v4 :: "'s env \<Rightarrow> ('s, string) io" where
  "uuid_v4 E = (\<lambda>s. case new_uuid E s of (u, s') \<Rightarrow> (Inr u, s'))"

definition now_unix :: "'s env \<Rightarrow> ('s, int) io" where
  "now_unix E = (\<lambda>s. case clock_unix E s of (t, s') \<Rightarrow> (Inr t, s'))"

definition now_instant :: "'s env \<Rightarrow> ('s, nat) io" where
  "now_instant E = (\<lambda>s. case instant_ms E s of (t, s') \<Rightarrow> (Inr t, s'))"

definition sleep :: "'s env \<Rightarrow> nat \<Rightarrow> ('s, unit) io" where
  "sleep E ms = (\<lambda>s. (Inr (), sleep_ms E ms s))"

lemmas effect_defs = random_def uuid_v4_def now_unix_def now_instant_def sleep_def

section \<open>Documented behaviour\<close>

text \<open>A codec reads back what it wrote: serde's derived pairs on these types.\<close>

definition codec_ok :: "'a codec \<Rightarrow> bool" where
  "codec_ok c \<longleftrightarrow> (\<forall>v b. to_vec c v = Inr b \<longrightarrow> from_slice c b = Inr v)"

text \<open>
  The contract of the crates: decoding inverts encoding (RFC 4648), AEAD decryption with
  the same key, nonce and associated data inverts encryption and the ciphertext carries a
  16-byte tag (RFC 8439), X25519 is symmetric in the two parties (RFC 7748), the generator
  fills the buffer it is given, each JSON codec reads back what it wrote.
\<close>

locale crates =
  fixes E :: "'s env"
  assumes b64_inv: "b64_decode E (b64_encode E x) = Inr x"
    and url64_inv: "url64_decode E (url64_encode E x) = Inr x"
    and b64_plain: "list_all (\<lambda>c. \<not> is_space c) (b64_encode E x)"
    and url64_plain: "list_all (\<lambda>c. \<not> is_space c) (url64_encode E x)"
    and aead_inv: "aead_encrypt E key nonce msg aad = Some c \<Longrightarrow> aead_decrypt E key nonce c aad = Some msg"
    and aead_len: "aead_encrypt E key nonce msg aad = Some c \<Longrightarrow> length c = length msg + 16"
    and dh_comm: "diffie_hellman E a (x25519_public E b) = diffie_hellman E b (x25519_public E a)"
    and public_len: "length (x25519_public E a) = 32"
    and random_len: "length (fst (fill_bytes E n s)) = n"
    and envelope_ok: "codec_ok (envelope_json E)"
    and command_ok: "codec_ok (command_json E)"
    and response_ok_codec: "codec_ok (response_json E)"
    and heartbeat_ok: "codec_ok (heartbeat_json E)"
    and log_chunk_ok: "codec_ok (log_chunk_json E)"
    and update_manifest_ok: "codec_ok (update_manifest_json E)"
    and share_manifest_ok: "codec_ok (share_manifest_json E)"

text \<open>
  The contract of the bucket, over \<open>view\<close>, the objects it holds. A write that answers
  success is visible to every later read (strong read-after-write consistency); one that
  answers an error may or may not have happened; reads change nothing. \<open>rest\<close> is what a
  listing with a given continuation token still has to deliver: keys come in byte order,
  each once, and a page that says it is truncated carries at least one key and the token
  for what follows it.
\<close>

locale bucket =
  fixes E :: "'s env" and view :: "'s \<Rightarrow> string \<Rightarrow> bytes option"
    and rest :: "(string \<Rightarrow> bytes option) \<Rightarrow> string \<Rightarrow> string option \<Rightarrow> string list"
  assumes put_ok: "put_object E k b s = (Inr u, s') \<Longrightarrow> view s' = (view s)(k \<mapsto> b)"
    and put_err: "put_object E k b s = (Inl e, s') \<Longrightarrow> view s' = view s \<or> view s' = (view s)(k \<mapsto> b)"
    and get_frame: "view (snd (get_object E k s)) = view s"
    and get_none: "get_object E k s = (Inr None, s') \<Longrightarrow> view s k = None"
    and get_some: "get_object E k s = (Inr (Some obj), s') \<Longrightarrow>
      (\<exists>b. view s k = Some b \<and> (so_body obj = Inr b \<or> (\<exists>e. so_body obj = Inl e)))"
    and head_frame: "view (snd (head_object E k s)) = view s"
    and delete_ok: "delete_object E k s = (Inr u, s') \<Longrightarrow> view s' = (view s)(k := None)"
    and delete_err: "delete_object E k s = (Inl e, s') \<Longrightarrow> view s' = view s \<or> view s' = (view s)(k := None)"
    and list_frame: "view (snd (list_objects_v2 E p t s)) = view s"
    and list_page: "list_objects_v2 E p t s = (Inr pg, s') \<Longrightarrow>
      (\<exists>ks. map fst (lp_contents pg) = map Some ks \<and>
        (if lp_is_truncated pg = Some True
         then ks \<noteq> [] \<and> (\<exists>t'. lp_next_token pg = Some t' \<and> rest (view s) p t = ks @ rest (view s) p (Some t'))
         else rest (view s) p t = ks))"
    and list_first: "set (rest (view s) p None) = {k \<in> dom (view s). prefix p k}"
    and list_distinct: "distinct (rest (view s) p None)"
    and random_frame: "view (snd (fill_bytes E n s)) = view s"
    and uuid_frame: "view (snd (new_uuid E s)) = view s"
    and clock_frame: "view (snd (clock_unix E s)) = view s"
    and instant_frame: "view (snd (instant_ms E s)) = view s"

text \<open>
  Nothing is said of what the bucket holds after a sleep: that is when the other parties
  act. The contract of the monotonic clock, over the time that has passed: reading it tells
  that time, no request turns it back, and a sleep takes at least as long as it is asked to.
\<close>

locale monotonic =
  fixes E :: "'s env" and elapsed :: "'s \<Rightarrow> nat"
  assumes instant_reads: "fst (instant_ms E s) = elapsed s"
    and instant_keeps: "elapsed s \<le> elapsed (snd (instant_ms E s))"
    and sleep_passes: "elapsed s + ms \<le> elapsed (sleep_ms E ms s)"
    and get_keeps: "elapsed s \<le> elapsed (snd (get_object E k s))"
    and delete_keeps: "elapsed s \<le> elapsed (snd (delete_object E k s))"

text \<open>What a relay runs on: the crates and the bucket together.\<close>

locale relay = crates E + bucket E view rest
  for E :: "'s env" and view :: "'s \<Rightarrow> string \<Rightarrow> bytes option"
    and rest :: "(string \<Rightarrow> bytes option) \<Rightarrow> string \<Rightarrow> string option \<Rightarrow> string list"

end
