(* ===== verification/Presence.thy ===== *)
theory Presence
  imports Env
begin

text \<open>
  crates/agent/src/main.rs, the state shared by the heartbeat task and the command loop when two
  processes hold one identity, and crates/agent/src/events.rs, the ring of recent problems the
  heartbeat carries. Both live behind a mutex; a poisoned mutex (a panic while it was held) is
  not modelled.
\<close>

section \<open>Presence\<close>

record presence =
  pr_conflict_with :: "string option"
  pr_yielded :: bool
  pr_stood_down :: bool

definition presence_default :: presence where
  "presence_default = \<lparr>pr_conflict_with = None, pr_yielded = False, pr_stood_down = False\<rparr>"

definition presence_snapshot :: "presence \<Rightarrow> string option \<times> bool" where
  "presence_snapshot st = (pr_conflict_with st, pr_yielded st \<or> pr_stood_down st)"

definition suspended :: "presence \<Rightarrow> bool" where
  "suspended st \<longleftrightarrow> pr_yielded st \<or> pr_stood_down st"

definition stand_down :: "presence \<Rightarrow> presence" where
  "stand_down st = st\<lparr>pr_stood_down := True\<rparr>"

text \<open>The flag answers whether this is news.\<close>

definition observed :: "string \<Rightarrow> string option \<Rightarrow> presence \<Rightarrow> bool \<times> presence" where
  "observed mine other st = (case other of
     Some o' \<Rightarrow> (pr_conflict_with st \<noteq> Some o',
       st\<lparr>pr_conflict_with := Some o', pr_yielded := o' < mine\<rparr>)
   | None \<Rightarrow> (False, st\<lparr>pr_conflict_with := None, pr_yielded := False\<rparr>))"

text \<open>What the heartbeat task makes of the heartbeat it reads back before writing its own.\<close>

definition read_back :: "string \<Rightarrow> int \<Rightarrow> heartbeat option \<Rightarrow> presence \<Rightarrow> bool \<times> presence" where
  "read_back instance started_at seen st = (case seen of
     Some hb \<Rightarrow> if hb_instance hb \<noteq> instance \<and> hb_at hb \<ge> started_at
       then observed instance (Some (hb_instance hb)) st
       else observed instance None st
   | None \<Rightarrow> observed instance None st)"

text \<open>Everything that can happen to the state of a process whose instance id is \<open>mine\<close>.\<close>

inductive presence_step :: "string \<Rightarrow> presence \<Rightarrow> presence \<Rightarrow> bool" for mine where
  sees: "presence_step mine st (snd (observed mine other st))"
| told: "presence_step mine st (stand_down st)"

inductive_cases presence_stepE: "presence_step mine st st'"

section \<open>The ring of events\<close>

definition CAPACITY :: nat where "CAPACITY = 20"
definition MAX_MESSAGE_BYTES :: nat where "MAX_MESSAGE_BYTES = 400"

definition ELLIPSIS :: string where "ELLIPSIS = [CHR 0xE2, CHR 0x80, CHR 0xA6]"

definition is_char_boundary :: "string \<Rightarrow> nat \<Rightarrow> bool" where
  "is_char_boundary s n \<longleftrightarrow> n = 0 \<or> n = length s \<or> n < length s \<and> \<not> utf8_cont (as_bytes s ! n)"

fun boundary_below :: "string \<Rightarrow> nat \<Rightarrow> nat" where
  "boundary_below s 0 = 0"
| "boundary_below s (Suc n) = (if is_char_boundary s (Suc n) then Suc n else boundary_below s n)"

definition truncate_message :: "string \<Rightarrow> string" where
  "truncate_message message =
     (if length message \<le> MAX_MESSAGE_BYTES then message
      else take (boundary_below message MAX_MESSAGE_BYTES) message @ ELLIPSIS)"

definition record_event :: "int \<Rightarrow> event_kind \<Rightarrow> string \<Rightarrow> agent_event list \<Rightarrow> agent_event list" where
  "record_event now kind message events =
     (let event = \<lparr>ev_at = now, ev_kind = kind, ev_message = truncate_message message\<rparr> in
      (if length events = CAPACITY then tl events else events) @ [event])"

definition record_all :: "(int \<times> event_kind \<times> string) list \<Rightarrow> agent_event list" where
  "record_all = foldl (\<lambda>events (now, kind, message). record_event now kind message events) []"

section \<open>Facts\<close>

lemma presence_step_stood_down: "presence_step mine st st' \<Longrightarrow> pr_stood_down st \<Longrightarrow> pr_stood_down st'"
  by (erule presence_stepE) (auto simp: observed_def stand_down_def split: option.splits)

lemma boundary_below_props:
  "n \<le> length s \<Longrightarrow> boundary_below s n \<le> n \<and> is_char_boundary s (boundary_below s n)"
  by (induction s n rule: boundary_below.induct) (auto simp: is_char_boundary_def)

lemma utf8_ellipsis: "utf8_valid (as_bytes ELLIPSIS)"
  by (simp add: ELLIPSIS_def as_bytes_def of_char_def utf8_cont_def)

lemma truncate_valid:
  assumes "utf8_valid (as_bytes message)"
  shows "utf8_valid (as_bytes (truncate_message message))"
proof (cases "length message \<le> MAX_MESSAGE_BYTES")
  case True
  with assms show ?thesis by (simp add: truncate_message_def)
next
  case False
  let ?n = "boundary_below message MAX_MESSAGE_BYTES"
  have n: "?n \<le> length message" "?n = 0 \<or> ?n = length message \<or> \<not> utf8_cont (as_bytes message ! ?n)"
    using boundary_below_props [of MAX_MESSAGE_BYTES message] False by (auto simp: is_char_boundary_def)
  have "utf8_valid (take ?n (as_bytes message))"
  proof (cases "?n = 0")
    case False
    with n assms show ?thesis by (intro utf8_take) auto
  qed simp
  then have "utf8_valid (as_bytes (take ?n message))" by (simp add: as_bytes_def take_map)
  with False utf8_ellipsis show ?thesis by (simp add: truncate_message_def utf8_append)
qed

lemma length_truncate: "length (truncate_message message) \<le> MAX_MESSAGE_BYTES + 3"
  using boundary_below_props [of MAX_MESSAGE_BYTES message]
  by (auto simp: truncate_message_def ELLIPSIS_def)

lemma record_all_snoc: "record_all (es @ [(t, k, m)]) = record_event t k m (record_all es)"
  by (simp add: record_all_def)

lemma record_all_recent:
  "record_all es = drop (length es - CAPACITY)
     (map (\<lambda>(t, k, m). \<lparr>ev_at = t, ev_kind = k, ev_message = truncate_message m\<rparr>) es)"
proof (induction es rule: rev_induct)
  case Nil
  then show ?case by (simp add: record_all_def)
next
  case (snoc e es)
  obtain t k m where e: "e = (t, k, m)" by (cases e)
  have "length (record_all es) = min (length es) CAPACITY" using snoc by simp
  show ?case
  proof (cases "length es < CAPACITY")
    case True
    with snoc \<open>length (record_all es) = min (length es) CAPACITY\<close> show ?thesis
      by (simp add: e record_all_snoc record_event_def Let_def)
  next
    case False
    then have "Suc (length es - CAPACITY) = Suc (length es) - CAPACITY" by simp
    with False snoc \<open>length (record_all es) = min (length es) CAPACITY\<close> show ?thesis
      by (simp add: e record_all_snoc record_event_def Let_def tl_drop drop_Suc [symmetric] CAPACITY_def)
  qed
qed

section \<open>Properties\<close>

text \<open>
  C18. When two processes hold one identity and each sees the other, exactly one of them suspends:
  the one with the higher instance id. The other goes on.
\<close>

theorem exactly_one_side_yields:
  assumes "a \<noteq> b" and "\<not> pr_stood_down st" and "\<not> pr_stood_down st'"
  shows "(suspended (snd (observed a (Some b) st)) \<longleftrightarrow> \<not> suspended (snd (observed b (Some a) st')))
    \<and> (suspended (snd (observed a (Some b) st)) \<longleftrightarrow> b < a)"
  using assms by (auto simp: observed_def suspended_def)

theorem exactly_one_side_yields_witness:
  "\<not> suspended (snd (observed ''aaa'' (Some ''zzz'') presence_default))
   \<and> suspended (snd (observed ''zzz'' (Some ''aaa'') presence_default))"
proof -
  have "''aaa'' < ''zzz''" by (simp add: less_char_def)
  then have "\<not> ''zzz'' < ''aaa''" by (rule less_not_sym)
  have "''aaa'' \<noteq> ''zzz''" and "\<not> pr_stood_down presence_default"
    by (simp_all add: presence_default_def)
  from exactly_one_side_yields [OF this(1) this(2) this(2)] \<open>\<not> ''zzz'' < ''aaa''\<close>
  show ?thesis by argo
qed

text \<open>
  An order to stand down is permanent: from the moment it is given, the process stays
  suspended through every later sighting, disappearance or further order.
\<close>

theorem stand_down_is_permanent:
  assumes "(presence_step mine)\<^sup>*\<^sup>* (stand_down st) st'"
  shows "suspended st'"
proof -
  from assms have "pr_stood_down st'"
  proof (induction rule: rtranclp_induct)
    case base
    then show ?case by (simp add: stand_down_def)
  next
    case (step y z)
    from presence_step_stood_down [OF step.hyps(2) step.IH] show ?case .
  qed
  then show ?thesis by (simp add: suspended_def)
qed

theorem stand_down_is_permanent_witness:
  "suspended (snd (observed ''aaa'' None (stand_down presence_default)))"
  by (rule stand_down_is_permanent [of "''aaa''" presence_default]) (rule r_into_rtranclp, rule sees)

text \<open>
  A process that has yielded resumes as soon as it reads back its own heartbeat, even while
  the other process is still alive: reading its own write counts as the conflict being over.
\<close>

theorem own_heartbeat_ends_suspension:
  assumes "hb_instance hb = mine" and "\<not> pr_stood_down st"
  shows "\<not> suspended (snd (read_back mine started (Some hb) (snd (observed mine (Some other) st))))
    \<and> pr_conflict_with (snd (read_back mine started (Some hb) (snd (observed mine (Some other) st)))) = None"
  using assms by (simp add: read_back_def observed_def suspended_def)

definition sample_heartbeat :: heartbeat where
  "sample_heartbeat = \<lparr>hb_agent_id = ''alpha'', hb_hostname = ''h'', hb_os = ''linux'', hb_agent_version = ''1'',
     hb_binary_sha256 = None, hb_instance = ''zzz'', hb_conflict_with = None, hb_suspended = False,
     hb_at = 1000, hb_ttl_secs = 45, hb_recent_errors = [], hb_jobs_running = 0, hb_jobs_finished = [],
     hb_metrics = None\<rparr>"

theorem own_heartbeat_ends_suspension_witness:
  "suspended (snd (observed ''zzz'' (Some ''aaa'') presence_default))
   \<and> \<not> suspended (snd (read_back ''zzz'' 900 (Some sample_heartbeat)
        (snd (observed ''zzz'' (Some ''aaa'') presence_default))))"
proof -
  have "''aaa'' < ''zzz''" by (simp add: less_char_def)
  then show ?thesis
    using own_heartbeat_ends_suspension [of sample_heartbeat "''zzz''" presence_default 900 "''aaa''"]
    by (simp add: sample_heartbeat_def presence_default_def observed_def suspended_def)
qed

text \<open>
  The ring of events holds the most recent twenty, oldest first, each message cut to at most
  four hundred bytes and an ellipsis, on a character boundary: valid UTF-8 stays valid.
\<close>

theorem event_ring_keeps_most_recent:
  "record_all es = drop (length es - CAPACITY)
     (map (\<lambda>(t, k, m). \<lparr>ev_at = t, ev_kind = k, ev_message = truncate_message m\<rparr>) es)
   \<and> length (record_all es) = min (length es) CAPACITY
   \<and> length (truncate_message m) \<le> MAX_MESSAGE_BYTES + 3
   \<and> (utf8_valid (as_bytes m) \<longrightarrow> utf8_valid (as_bytes (truncate_message m)))"
  using record_all_recent [of es] length_truncate [of m] truncate_valid [of m] by simp

theorem event_ring_keeps_most_recent_witness:
  "length (record_all (replicate 25 (0, Ev_Poll, ''x''))) = 20 \<and> utf8_valid (as_bytes (truncate_message ''x''))"
  using event_ring_keeps_most_recent [of "replicate 25 (0, Ev_Poll, ''x'')" "''x''"]
  by (simp add: CAPACITY_def as_bytes_def of_char_def)

end
