(* ===== verification/Config.thy ===== *)
theory Config
  imports Std
begin

text \<open>
  crates/common/src/config.rs: the settings of both ends, from the process environment and an
  optional TOML file. The toml crate's parser is not modelled: a file is the table it parses
  to. \<open>getenv\<close> is \<open>std::env::var(..).ok()\<close> and \<open>file\<close> the table \<open>init_config\<close> stored, if
  any. Paths in messages are the text \<open>display\<close> gives.
\<close>

section \<open>The file\<close>

datatype toml =
    TString string
  | TInteger int
  | TBoolean bool
  | TArray "toml list"
  | TTable "(string \<times> toml) list"
  | TOther

type_synonym table = "(string \<times> toml) list"

definition KNOWN_KEYS :: "string list" where
  "KNOWN_KEYS =
    [''s3.endpoint'', ''s3.region'', ''s3.bucket'', ''s3.prefix'', ''s3.force_path_style'',
     ''s3.allow_insecure_http'', ''s3.access_key_id'', ''s3.secret_access_key'',
     ''relay.key_id'', ''relay.upload_concurrency'', ''relay.shared_key'',
     ''controller.allowed_agents'', ''controller.queue_ttl_secs'', ''controller.max_exec_secs'',
     ''controller.max_wait_secs'', ''controller.max_transfer_secs'', ''controller.poll_ms'',
     ''controller.private_key'', ''controller.public_key'', ''controller.database'',
     ''controller.log_dir'', ''controller.auto_cleanup'', ''controller.cleanup_check_secs'',
     ''controller.update_seen_days'', ''controller.share_retention_days'',
     ''controller.auto_publish_repo'', ''controller.auto_publish_check_secs'',
     ''agent.id'', ''agent.allowed_roots'', ''agent.allowed_programs'', ''agent.allow_any_path'',
     ''agent.allow_any_program'', ''agent.max_blob_bytes'', ''agent.child_env_allowlist'',
     ''agent.max_timeout_secs'', ''agent.max_file_bytes'', ''agent.max_output_bytes'',
     ''agent.poll_ms'', ''agent.poll_max_ms'', ''agent.full_scan_secs'', ''agent.doorbell'',
     ''agent.heartbeat_secs'', ''agent.heartbeat_ttl_secs'', ''agent.private_key'',
     ''agent.public_key'', ''agent.controller_public_key'', ''agent.job_dir'',
     ''agent.job_retention_days'', ''agent.job_max_total_bytes'',
     ''agent.job_cleanup_interval_secs'', ''agent.job_ship_chunk_bytes'', ''agent.auto_update'',
     ''agent.update_check_secs'']"

definition SECRET_KEYS :: "string list" where
  "SECRET_KEYS = [''s3.access_key_id'', ''s3.secret_access_key'', ''relay.shared_key'',
     ''controller.private_key'', ''agent.private_key'']"

definition as_table :: "toml \<Rightarrow> table option" where
  "as_table v = (case v of TTable t \<Rightarrow> Some t | _ \<Rightarrow> None)"

definition as_str :: "toml \<Rightarrow> string option" where
  "as_str v = (case v of TString s \<Rightarrow> Some s | _ \<Rightarrow> None)"

definition dotted :: "string \<Rightarrow> string \<Rightarrow> string" where
  "dotted section field = section @ ''.'' @ field"

fun validate_fields :: "string \<Rightarrow> string \<Rightarrow> table \<Rightarrow> unit res" where
  "validate_fields path section [] = Inr ()"
| "validate_fields path section ((field, v) # rest) =
     (if dotted section field \<notin> set KNOWN_KEYS
      then bail (''unknown setting `'' @ dotted section field @ ''` in '' @ path)
      else validate_fields path section rest)"

fun validate_table :: "string \<Rightarrow> table \<Rightarrow> unit res" where
  "validate_table path [] = Inr ()"
| "validate_table path ((section, v) # rest) =
     (case as_table v of
        None \<Rightarrow> bail (path @ '' may only contain [sections], but `'' @ section @ ''` is a bare value'')
      | Some fields \<Rightarrow> res_then (validate_fields path section fields) (\<lambda>_. validate_table path rest))"

definition lookup_path :: "table \<Rightarrow> string \<Rightarrow> toml option" where
  "lookup_path t key = (case split_once (CHR ''.'') key of None \<Rightarrow> None
     | Some (section, field) \<Rightarrow> (case map_of t section of None \<Rightarrow> None
         | Some v \<Rightarrow> (case as_table v of None \<Rightarrow> None | Some fields \<Rightarrow> map_of fields field)))"

text \<open>The Unix warning: a secret in a file that is readable beyond its owner.\<close>

definition warn_on_loose_permissions :: "table \<Rightarrow> nat option \<Rightarrow> bool" where
  "warn_on_loose_permissions t mode =
     (list_ex (\<lambda>k. lookup_path t k \<noteq> None) SECRET_KEYS
      \<and> (case mode of None \<Rightarrow> False | Some m \<Rightarrow> (m mod 512) mod 64 \<noteq> 0))"

text \<open>
  \<open>init_config\<close>: which file is read and what is stored. \<open>read_text\<close> and \<open>parse\<close> are the
  operating system and the toml crate.
\<close>

definition init_config :: "(string \<Rightarrow> string option) \<Rightarrow> (string \<Rightarrow> bool) \<Rightarrow> (string \<Rightarrow> string res)
    \<Rightarrow> (string \<Rightarrow> table res) \<Rightarrow> table option \<Rightarrow> (string \<times> table) option res" where
  "init_config getenv path_exists read_text parse stored =
     (let explicit = (case getenv ''RELAY_CONFIG'' of None \<Rightarrow> None
            | Some v \<Rightarrow> if v = [] then None else Some v);
          path = (case explicit of None \<Rightarrow> ''relay.toml'' | Some v \<Rightarrow> v) in
      if \<not> path_exists path
      then (if explicit \<noteq> None then bail (''RELAY_CONFIG points at '' @ path @ '', which does not exist'')
            else Inr None)
      else res_then (with_context (''read config file '' @ path) (read_text path)) (\<lambda>text.
        res_then (with_context (''parse config file '' @ path) (parse text)) (\<lambda>t.
        res_then (validate_table path t) (\<lambda>_.
        res_then (ensure (stored = None) ''init_config was called more than once'') (\<lambda>_.
        Inr (Some (path, t)))))))"

section \<open>Reading a setting\<close>

definition toml_path :: "string \<Rightarrow> (string \<times> string) option" where
  "toml_path key =
     (if key = ''RELAY_AGENT_ID'' then Some (''agent'', ''id'')
      else case split_once (CHR ''_'') key of None \<Rightarrow> None
      | Some (pre, rest) \<Rightarrow>
          (if pre = ''S3'' then Some (''s3'', to_ascii_lowercase rest)
           else if pre = ''AGENT'' then Some (''agent'', to_ascii_lowercase rest)
           else if pre = ''CONTROL'' then Some (''controller'', to_ascii_lowercase rest)
           else if pre = ''RELAY'' then Some (''relay'', to_ascii_lowercase rest)
           else None))"

definition dec_int :: "int \<Rightarrow> string" where
  "dec_int n = (if n < 0 then CHR ''-'' # dec (nat (- n)) else dec (nat n))"

fun as_strs :: "toml list \<Rightarrow> string list option" where
  "as_strs [] = Some []"
| "as_strs (v # vs) = (case as_str v of None \<Rightarrow> None
     | Some s \<Rightarrow> (case as_strs vs of None \<Rightarrow> None | Some ss \<Rightarrow> Some (s # ss)))"

definition render :: "string \<Rightarrow> toml \<Rightarrow> string option" where
  "render key value = (case value of
     TString text \<Rightarrow> Some text
   | TInteger number \<Rightarrow> Some (dec_int number)
   | TBoolean flag \<Rightarrow> Some (if flag then ''true'' else ''false'')
   | TArray items \<Rightarrow>
       map_option (join (if key = ''AGENT_ALLOWED_ROOTS'' then '':'' else '','')) (as_strs items)
   | _ \<Rightarrow> None)"

definition from_file :: "table option \<Rightarrow> string \<Rightarrow> string option" where
  "from_file file key = (case toml_path key of None \<Rightarrow> None
     | Some (section, field) \<Rightarrow> (case file of None \<Rightarrow> None
     | Some t \<Rightarrow> (case map_of t section of None \<Rightarrow> None
     | Some v \<Rightarrow> (case as_table v of None \<Rightarrow> None
     | Some fields \<Rightarrow> (case map_of fields field of None \<Rightarrow> None | Some w \<Rightarrow> render key w)))))"

definition optional_env :: "(string \<Rightarrow> string option) \<Rightarrow> table option \<Rightarrow> string \<Rightarrow> string option" where
  "optional_env getenv file key = (case getenv key of
     Some v \<Rightarrow> if v \<noteq> [] then Some v else from_file file key
   | None \<Rightarrow> from_file file key)"

definition required_env :: "(string \<Rightarrow> string option) \<Rightarrow> table option \<Rightarrow> string \<Rightarrow> string res" where
  "required_env getenv file key = (case optional_env getenv file key of Some v \<Rightarrow> Inr v
     | None \<Rightarrow> (case toml_path key of
         Some (section, field) \<Rightarrow> bail (''missing required setting: set '' @ key @ '' in the environment, or `''
           @ field @ ''` under ['' @ section @ ''] in the config file'')
       | None \<Rightarrow> bail (''missing required setting '' @ key)))"

section \<open>The bucket's settings\<close>

record s3_config =
  s3_endpoint :: string
  s3_region :: string
  s3_bucket :: string
  s3_access_key_id :: string
  s3_secret_access_key :: string
  s3_prefix :: string
  s3_force_path_style :: bool
  s3_allow_insecure_http :: bool

definition s3_from_env :: "(string \<Rightarrow> string option) \<Rightarrow> table option \<Rightarrow> s3_config res" where
  "s3_from_env getenv file =
     (let optional = optional_env getenv file; required = required_env getenv file;
          p = (case optional ''S3_PREFIX'' of None \<Rightarrow> ''relay/'' | Some v \<Rightarrow> v);
          pre = (if \<not> ends_with p ''/'' then p @ ''/'' else p) in
      res_then (required ''S3_ENDPOINT'') (\<lambda>endpoint.
      res_then (required ''S3_BUCKET'') (\<lambda>bkt.
      res_then (required ''S3_ACCESS_KEY_ID'') (\<lambda>access.
      res_then (required ''S3_SECRET_ACCESS_KEY'') (\<lambda>secret.
      Inr \<lparr>s3_endpoint = endpoint,
        s3_region = (case optional ''S3_REGION'' of None \<Rightarrow> ''us-east-1'' | Some v \<Rightarrow> v),
        s3_bucket = bkt, s3_access_key_id = access, s3_secret_access_key = secret, s3_prefix = pre,
        s3_force_path_style = (case optional ''S3_FORCE_PATH_STYLE'' of None \<Rightarrow> True
          | Some v \<Rightarrow> to_ascii_lowercase v \<notin> {''0'', ''false'', ''no''}),
        s3_allow_insecure_http = (case optional ''S3_ALLOW_INSECURE_HTTP'' of None \<Rightarrow> False
          | Some v \<Rightarrow> to_ascii_lowercase v \<in> {''1'', ''true'', ''yes''})\<rparr>)))))"

definition s3_validate :: "s3_config \<Rightarrow> unit res" where
  "s3_validate c =
     (let lower = to_ascii_lowercase (s3_endpoint c) in
      if \<not> starts_with lower ''https://'' \<and> \<not> (s3_allow_insecure_http c \<and> starts_with lower ''http://'')
      then bail ''S3_ENDPOINT must use https:// (set S3_ALLOW_INSECURE_HTTP=true only for trusted local development)''
      else if trim (s3_bucket c) = [] then bail ''S3_BUCKET must not be empty''
      else if starts_with (s3_prefix c) ''/'' \<or> contains_str (s3_prefix c) ''..''
      then bail (''S3_PREFIX must be a relative key prefix without '' @ quoted ''..'')
      else Inr ())"

section \<open>Numbers and flags in settings\<close>

text \<open>\<open>str::parse\<close> of an unsigned type: an optional plus sign, then digits within the bound.\<close>

definition all_digits :: "string \<Rightarrow> bool" where
  "all_digits s \<longleftrightarrow> s \<noteq> [] \<and> list_all is_ascii_digit s"

definition digits_value :: "string \<Rightarrow> nat" where
  "digits_value s = foldl (\<lambda>n c. 10 * n + (of_char c - 48)) 0 s"

definition parse_unsigned :: "nat \<Rightarrow> string \<Rightarrow> nat option" where
  "parse_unsigned bound s = (let d = (if starts_with s ''+'' then drop 1 s else s) in
     if all_digits d \<and> digits_value d < bound then Some (digits_value d) else None)"

section \<open>Facts\<close>

text \<open>The environment variable a key of the file answers to.\<close>

definition env_name :: "string \<Rightarrow> string" where
  "env_name key = (case split_once (CHR ''.'') key of None \<Rightarrow> []
     | Some (section, field) \<Rightarrow>
         (if section = ''s3'' then ''S3_'' @ to_ascii_uppercase field
         else if section = ''agent'' then (if field = ''id'' then ''RELAY_AGENT_ID'' else ''AGENT_'' @ to_ascii_uppercase field)
         else if section = ''controller'' then ''CONTROL_'' @ to_ascii_uppercase field
         else ''RELAY_'' @ to_ascii_uppercase field))"

lemma validate_fields_known:
  "validate_fields path sec fs = Inr () \<Longrightarrow> (f, v) \<in> set fs \<Longrightarrow> dotted sec f \<in> set KNOWN_KEYS"
  by (induction path sec fs rule: validate_fields.induct) (auto split: if_splits)

lemma validate_table_known:
  "validate_table path t = Inr () \<Longrightarrow> (sec, w) \<in> set t \<Longrightarrow> as_table w = Some fs \<Longrightarrow>
   (f, v) \<in> set fs \<Longrightarrow> dotted sec f \<in> set KNOWN_KEYS"
  by (induction path t rule: validate_table.induct)
    (auto simp: res_then_Inr_iff dest: validate_fields_known split: option.splits)

lemma from_file_known:
  assumes "validate_table path t = Inr ()" and "from_file (Some t) key = Some v"
  shows "\<exists>section field. toml_path key = Some (section, field) \<and> dotted section field \<in> set KNOWN_KEYS"
  using assms validate_table_known [OF assms(1) map_of_SomeD _ map_of_SomeD]
  by (fastforce simp: from_file_def split: option.splits prod.splits)

lemma lower_upper_char:
  "\<not> is_ascii_upper c \<Longrightarrow> to_ascii_lowercase (to_ascii_uppercase [c]) = [c]"
proof (cases "is_ascii_lower c")
  case True
  then have r: "97 \<le> (of_char c :: nat)" "(of_char c :: nat) \<le> 122"
    by (simp_all add: is_ascii_lower_def in_range_def)
  then have "(of_char (char_of (of_char c - 32 :: nat) :: char) :: nat) = of_char c - 32" by simp
  moreover have "65 \<le> (of_char c :: nat) - 32" "(of_char c :: nat) - 32 \<le> 90" using r by arith+
  ultimately have "is_ascii_upper (char_of (of_char c - 32 :: nat))"
    by (simp add: is_ascii_upper_def in_range_def)
  with r True show ?thesis by (simp add: to_ascii_lowercase_def to_ascii_uppercase_def)
qed (simp add: to_ascii_lowercase_def to_ascii_uppercase_def)

lemma lower_upper:
  "list_all (\<lambda>c. \<not> is_ascii_upper c) s \<Longrightarrow> to_ascii_lowercase (to_ascii_uppercase s) = s"
proof (induction s)
  case Nil
  then show ?case by (simp add: to_ascii_lowercase_def to_ascii_uppercase_def)
next
  case (Cons c s)
  then show ?case
    using lower_upper_char [of c] by (simp add: to_ascii_lowercase_def to_ascii_uppercase_def)
qed

text \<open>The shape every known key has.\<close>

definition plain_key :: "string \<Rightarrow> bool" where
  "plain_key key = (case split_once (CHR ''.'') key of None \<Rightarrow> False
     | Some (section, field) \<Rightarrow> section \<in> {''s3'', ''agent'', ''controller'', ''relay''}
         \<and> list_all (\<lambda>c. \<not> is_ascii_upper c) field \<and> \<not> (section = ''relay'' \<and> field = ''agent_id''))"

lemma known_keys_plain: "list_all plain_key KNOWN_KEYS"
  by code_simp

lemma toml_path_prefixes:
  "toml_path (''S3_'' @ x) = Some (''s3'', to_ascii_lowercase x)"
  "toml_path (''AGENT_'' @ x) = Some (''agent'', to_ascii_lowercase x)"
  "toml_path (''CONTROL_'' @ x) = Some (''controller'', to_ascii_lowercase x)"
  "x \<noteq> ''AGENT_ID'' \<Longrightarrow> toml_path (''RELAY_'' @ x) = Some (''relay'', to_ascii_lowercase x)"
  "toml_path ''RELAY_AGENT_ID'' = Some (''agent'', ''id'')"
  by (simp_all add: toml_path_def)

lemma lower_agent_id: "to_ascii_lowercase ''AGENT_ID'' = ''agent_id''"
  by code_simp

lemma toml_path_env_name:
  assumes "plain_key key"
  shows "toml_path (env_name key) = split_once (CHR ''.'') key"
proof -
  obtain sec f where key: "split_once (CHR ''.'') key = Some (sec, f)"
    and sec: "sec \<in> {''s3'', ''agent'', ''controller'', ''relay''}"
    and f: "list_all (\<lambda>c. \<not> is_ascii_upper c) f" and no: "\<not> (sec = ''relay'' \<and> f = ''agent_id'')"
    using assms by (auto simp: plain_key_def split: option.splits)
  have id: "to_ascii_uppercase f \<noteq> ''AGENT_ID''" if "sec = ''relay''"
  proof
    assume "to_ascii_uppercase f = ''AGENT_ID''"
    then have "to_ascii_lowercase (to_ascii_uppercase f) = to_ascii_lowercase ''AGENT_ID''" by (rule arg_cong)
    then have "f = ''agent_id''" unfolding lower_upper [OF f] lower_agent_id .
    with no that show False by simp
  qed
  consider "sec = ''s3''" | "sec = ''agent''" "f = ''id''" | "sec = ''agent''" "f \<noteq> ''id''"
    | "sec = ''controller''" | "sec = ''relay''"
    using sec by blast
  then show ?thesis
    by cases (simp_all add: env_name_def key toml_path_prefixes [unfolded append.simps] lower_upper [OF f] id)
qed

lemma unlisted_settings:
  "list_all (\<lambda>key. case toml_path key of None \<Rightarrow> True
       | Some (section, field) \<Rightarrow> dotted section field \<notin> set KNOWN_KEYS)
     [''AGENT_MAX_JOB_SECS'', ''AGENT_GPU_METRICS'', ''RELAY_STATUS_INTERVAL_SECS'', ''RELAY_STATUS_FILE'']"
  by code_simp

section \<open>Properties\<close>

text \<open>
  Every setting the file may contain can be read: the variable named after it maps back to
  its section and field.
\<close>

theorem known_keys_are_reachable:
  "list_all (\<lambda>key. toml_path (env_name key) = split_once (CHR ''.'') key) KNOWN_KEYS"
  using known_keys_plain toml_path_env_name by (simp add: list_all_iff)

text \<open>
  Whatever is read from a validated file is the value of a known key, so a misspelt setting
  is never silently ignored or used.
\<close>

theorem file_values_have_known_keys:
  assumes "validate_table path t = Inr ()" and "from_file (Some t) key = Some v"
  shows "\<exists>section field. toml_path key = Some (section, field) \<and> dotted section field \<in> set KNOWN_KEYS"
  using assms by (rule from_file_known)

theorem file_values_have_known_keys_witness:
  "from_file (Some [(''agent'', TTable [(''id'', TString ''alpha'')])]) ''RELAY_AGENT_ID'' = Some ''alpha''
    \<and> (\<exists>section field. toml_path ''RELAY_AGENT_ID'' = Some (section, field)
        \<and> dotted section field \<in> set KNOWN_KEYS)"
proof -
  have "validate_table ''relay.toml'' [(''agent'', TTable [(''id'', TString ''alpha'')])] = Inr ()"
    by (simp add: as_table_def dotted_def KNOWN_KEYS_def)
  moreover have "from_file (Some [(''agent'', TTable [(''id'', TString ''alpha'')])]) ''RELAY_AGENT_ID'' = Some ''alpha''"
    by (simp add: from_file_def toml_path_def as_table_def render_def)
  ultimately show ?thesis using file_values_have_known_keys by blast
qed

text \<open>
  Four settings the program looks up are not among the known keys: no file that passes
  validation can set them, so they are what the environment says, or nothing.
\<close>

theorem unlisted_settings_only_from_environment:
  assumes "validate_table path t = Inr ()"
    and "key \<in> {''AGENT_MAX_JOB_SECS'', ''AGENT_GPU_METRICS'', ''RELAY_STATUS_INTERVAL_SECS'', ''RELAY_STATUS_FILE''}"
  shows "optional_env getenv (Some t) key =
    (case getenv key of Some v \<Rightarrow> if v = [] then None else Some v | None \<Rightarrow> None)"
proof -
  have no: "case toml_path key of None \<Rightarrow> True
       | Some (section, field) \<Rightarrow> dotted section field \<notin> set KNOWN_KEYS"
    using assms(2) unlisted_settings by auto
  have "from_file (Some t) key = None"
  proof (rule ccontr)
    assume "from_file (Some t) key \<noteq> None"
    then obtain v where "from_file (Some t) key = Some v" by blast
    from from_file_known [OF assms(1) this] no show False by auto
  qed
  then show ?thesis by (simp add: optional_env_def split: option.splits)
qed

theorem unlisted_settings_only_from_environment_witness:
  "optional_env (\<lambda>k. None) (Some [(''agent'', TTable [(''id'', TString ''alpha'')])]) ''AGENT_MAX_JOB_SECS'' = None"
proof -
  have "validate_table ''relay.toml'' [(''agent'', TTable [(''id'', TString ''alpha'')])] = Inr ()"
    by (simp add: as_table_def dotted_def KNOWN_KEYS_def)
  from unlisted_settings_only_from_environment [OF this, of "''AGENT_MAX_JOB_SECS''" "\<lambda>k. None"]
  show ?thesis by simp
qed

text \<open>
  Settings that pass validation name an https endpoint unless plaintext was asked for, a
  non-empty bucket, and a key prefix that is relative, holds no \<open>..\<close> and ends in a slash, so
  every object key is the prefix followed by the relay's own name for the object.
\<close>

theorem s3_settings_are_sound:
  assumes "s3_from_env getenv file = Inr c" and "s3_validate c = Inr ()"
  shows "ends_with (s3_prefix c) ''/'' \<and> \<not> starts_with (s3_prefix c) ''/''
    \<and> \<not> contains_str (s3_prefix c) ''..''
    \<and> (starts_with (to_ascii_lowercase (s3_endpoint c)) ''https://''
        \<or> s3_allow_insecure_http c \<and> starts_with (to_ascii_lowercase (s3_endpoint c)) ''http://'')
    \<and> trim (s3_bucket c) \<noteq> []"
proof -
  have "ends_with (s3_prefix c) ''/''"
    using assms(1) by (auto simp: s3_from_env_def Let_def res_then_Inr_iff)
  with assms(2) show ?thesis by (auto simp: s3_validate_def Let_def split: if_splits)
qed

definition sample_getenv :: "string \<Rightarrow> string option" where
  "sample_getenv = [''S3_ENDPOINT'' \<mapsto> ''https://h'', ''S3_BUCKET'' \<mapsto> ''b'', ''S3_ACCESS_KEY_ID'' \<mapsto> ''a'',
     ''S3_SECRET_ACCESS_KEY'' \<mapsto> ''s'', ''S3_PREFIX'' \<mapsto> ''team'']"

theorem s3_settings_are_sound_witness:
  "\<exists>c. s3_from_env sample_getenv None = Inr c \<and> s3_prefix c = ''team/''
    \<and> ends_with (s3_prefix c) ''/'' \<and> \<not> starts_with (s3_prefix c) ''/''"
proof -
  have "s3_from_env sample_getenv None = Inr \<lparr>s3_endpoint = ''https://h'', s3_region = ''us-east-1'',
      s3_bucket = ''b'', s3_access_key_id = ''a'', s3_secret_access_key = ''s'', s3_prefix = ''team/'',
      s3_force_path_style = True, s3_allow_insecure_http = False\<rparr>" (is "_ = Inr ?c")
    by (simp add: s3_from_env_def Let_def optional_env_def required_env_def sample_getenv_def
        from_file_def toml_path_def suffix_def to_ascii_lowercase_def)
  moreover have "s3_validate ?c = Inr ()" by code_simp
  ultimately show ?thesis
    using s3_settings_are_sound [of sample_getenv None ?c] by auto
qed

end
