(* ===== verification/Utf8.thy ===== *)
theory Utf8
  imports Std
begin

text \<open>
  \<open>String::from_utf8_lossy\<close>, which the agent and the controller use wherever the output of a
  program becomes text: its definition, and that it keeps well-formed text and always yields
  well-formed text.
\<close>

text \<open>\<open>String::from_utf8_lossy\<close>: each maximal ill-formed part becomes U+FFFD.\<close>

definition REPLACEMENT :: bytes where "REPLACEMENT = [0xEF, 0xBF, 0xBD]"

definition second_ok :: "u8 \<Rightarrow> u8 \<Rightarrow> bool" where
  "second_ok a b \<longleftrightarrow> utf8_cont b \<and> (a = 0xE0 \<longrightarrow> 0xA0 \<le> b) \<and> (a = 0xED \<longrightarrow> b \<le> 0x9F)
     \<and> (a = 0xF0 \<longrightarrow> 0x90 \<le> b) \<and> (a = 0xF4 \<longrightarrow> b \<le> 0x8F)"

definition lead_length :: "u8 \<Rightarrow> nat" where
  "lead_length a = (if a \<le> 127 then 1 else if 194 \<le> a \<and> a \<le> 223 then 2
     else if 224 \<le> a \<and> a \<le> 239 then 3 else if 240 \<le> a \<and> a \<le> 244 then 4 else 0)"

text \<open>How many bytes at the head belong to one character, and whether it is complete.\<close>

definition utf8_step :: "u8 \<Rightarrow> bytes \<Rightarrow> nat \<times> bool" where
  "utf8_step a r =
     (let n = lead_length a in
      if n = 0 then (1, False)
      else if n = 1 then (1, True)
      else (case r of [] \<Rightarrow> (1, False)
        | b # r1 \<Rightarrow> if \<not> second_ok a b then (1, False) else if n = 2 then (2, True)
          else (case r1 of [] \<Rightarrow> (2, False)
            | c # r2 \<Rightarrow> if \<not> utf8_cont c then (2, False) else if n = 3 then (3, True)
              else (case r2 of [] \<Rightarrow> (3, False)
                | d # r3 \<Rightarrow> if \<not> utf8_cont d then (3, False) else (4, True)))))"

function from_utf8_lossy :: "bytes \<Rightarrow> bytes" where
  "from_utf8_lossy [] = []"
| "from_utf8_lossy (a # r) = (case utf8_step a r of (n, ok) \<Rightarrow>
     (if ok then take n (a # r) else REPLACEMENT) @ from_utf8_lossy (drop (n - 1) r))"
  by pat_completeness auto
termination by (relation "measure length") auto

section \<open>Facts\<close>

lemma lead_lengths:
  "a \<le> 127 \<Longrightarrow> lead_length a = 1"
  "\<not> a \<le> 127 \<Longrightarrow> 194 \<le> a \<and> a \<le> 223 \<Longrightarrow> lead_length a = 2"
  "\<not> a \<le> 127 \<Longrightarrow> \<not> (194 \<le> a \<and> a \<le> 223) \<Longrightarrow> 224 \<le> a \<and> a \<le> 239 \<Longrightarrow> lead_length a = 3"
  "\<not> a \<le> 127 \<Longrightarrow> \<not> (194 \<le> a \<and> a \<le> 223) \<Longrightarrow> \<not> (224 \<le> a \<and> a \<le> 239) \<Longrightarrow> 240 \<le> a \<and> a \<le> 244 \<Longrightarrow>
   lead_length a = 4"
  "lead_length a = 1 \<Longrightarrow> a \<le> 127"
  "lead_length a = 2 \<Longrightarrow> \<not> a \<le> 127 \<and> 194 \<le> a \<and> a \<le> 223"
  "lead_length a = 3 \<Longrightarrow> \<not> a \<le> 127 \<and> \<not> (194 \<le> a \<and> a \<le> 223) \<and> 224 \<le> a \<and> a \<le> 239"
  "lead_length a = 4 \<Longrightarrow> \<not> a \<le> 127 \<and> \<not> (194 \<le> a \<and> a \<le> 223) \<and> \<not> (224 \<le> a \<and> a \<le> 239) \<and> 240 \<le> a \<and> a \<le> 244"
  "lead_length a \<in> {0, 1, 2, 3, 4}"
  unfolding lead_length_def by (simp_all split: if_splits)

lemma second_ok_plain:
  "194 \<le> a \<and> a \<le> 223 \<Longrightarrow> second_ok a b \<longleftrightarrow> utf8_cont b"
  "224 \<le> a \<and> a \<le> 239 \<Longrightarrow> second_ok a b \<longleftrightarrow> utf8_cont b \<and> (a = 224 \<longrightarrow> 160 \<le> b) \<and> (a = 237 \<longrightarrow> b \<le> 159)"
  "240 \<le> a \<and> a \<le> 244 \<Longrightarrow> second_ok a b \<longleftrightarrow> utf8_cont b \<and> (a = 240 \<longrightarrow> 144 \<le> b) \<and> (a = 244 \<longrightarrow> b \<le> 143)"
  by (auto simp: second_ok_def)

lemma utf8_step_valid:
  assumes "utf8_valid (a # r)"
  obtains n where "utf8_step a r = (Suc n, True)" and "n \<le> length r" and "utf8_valid (drop n r)"
  using assms
proof (cases rule: utf8_valid_cases)
  case one
  then have "utf8_step a r = (1, True)" by (simp only: utf8_step_def Let_def lead_lengths(1)) simp
  with one that [of 0] show thesis by simp
next
  case (two b r1)
  have l: "lead_length a = 2" by (rule lead_lengths(2) [OF two(2,3)])
  have "second_ok a b" using two second_ok_plain(1) by blast
  with l two have "utf8_step a r = (2, True)" by (simp add: utf8_step_def)
  with two that [of 1] show thesis by simp
next
  case (three b c r2)
  have l: "lead_length a = 3" by (rule lead_lengths(3) [OF three(2,3,4)])
  have "second_ok a b" using three second_ok_plain(2) by blast
  with l three have "utf8_step a r = (3, True)" by (simp add: utf8_step_def)
  with three that [of 2] show thesis by simp
next
  case (four b c d r3)
  have l: "lead_length a = 4" by (rule lead_lengths(4) [OF four(2,3,4,5)])
  have "second_ok a b" using four second_ok_plain(3) by blast
  with l four have "utf8_step a r = (4, True)" by (simp add: utf8_step_def)
  with four that [of 3] show thesis by simp
qed

lemma utf8_step_whole:
  assumes "utf8_step a r = (n, True)"
  shows "utf8_valid (take n (a # r))"
proof -
  have "lead_length a = 0 \<or> lead_length a = 1 \<or> lead_length a = 2 \<or> lead_length a = 3 \<or> lead_length a = 4"
    using lead_lengths(9) [of a] by simp
  then show ?thesis
  proof (elim disjE)
    assume "lead_length a = 0" with assms show ?thesis by (simp add: utf8_step_def)
  next
    assume l: "lead_length a = 1"
    with assms have "n = 1" by (simp add: utf8_step_def)
    then show ?thesis using utf8_valid_intros(1) [OF lead_lengths(5) [OF l], of "[]"] by simp
  next
    assume l: "lead_length a = 2"
    with assms obtain b r1 where "r = b # r1" "second_ok a b" "n = 2"
      by (auto simp: utf8_step_def split: list.splits if_splits)
    then show ?thesis using utf8_valid_intros(2) [of a b "[]"] lead_lengths(6) [OF l] second_ok_plain(1)
      by (simp only: take_Suc_Cons numeral_2_eq_2 take_0 utf8_valid.simps(1) simp_thms)
  next
    assume l: "lead_length a = 3"
    with assms obtain b c r1 where "r = b # c # r1" "second_ok a b" "utf8_cont c" "n = 3"
      by (auto simp: utf8_step_def split: list.splits if_splits)
    then show ?thesis using utf8_valid_intros(3) [of a b c "[]"] lead_lengths(7) [OF l] second_ok_plain(2)
      by (simp only: take_Suc_Cons numeral_3_eq_3 take_0 utf8_valid.simps(1) simp_thms) blast
  next
    assume l: "lead_length a = 4"
    with assms obtain b c d r1 where "r = b # c # d # r1" "second_ok a b" "utf8_cont c" "utf8_cont d" "n = 4"
      by (auto simp: utf8_step_def split: list.splits if_splits)
    moreover have "take 4 (a # b # c # d # r1) = [a, b, c, d]" by simp
    ultimately show ?thesis using utf8_valid_intros(4) [of a b c d "[]"] lead_lengths(8) [OF l] second_ok_plain(3)
      by (simp only: utf8_valid.simps(1) simp_thms) blast
  qed
qed

lemma lossy_exact: "utf8_valid b \<Longrightarrow> from_utf8_lossy b = b"
proof (induction b rule: from_utf8_lossy.induct)
  case 1
  show ?case by simp
next
  case (2 a r)
  from 2(2) obtain n where n: "utf8_step a r = (Suc n, True)" "utf8_valid (drop n r)"
    by (rule utf8_step_valid)
  with 2(1) [OF n(1) [symmetric]] show ?case by simp
qed

lemma lossy_valid: "utf8_valid (from_utf8_lossy b)"
proof (induction b rule: from_utf8_lossy.induct)
  case 1
  show ?case by simp
next
  case (2 a r)
  obtain n ok where n: "utf8_step a r = (n, ok)" by fastforce
  have "utf8_valid REPLACEMENT" by (simp add: REPLACEMENT_def utf8_cont_def)
  with n utf8_step_whole [of a r n] have "utf8_valid (if ok then take n (a # r) else REPLACEMENT)" by simp
  with 2 [OF n [symmetric]] n show ?case by (simp add: utf8_append)
qed

end
