(* ===== verification/Pairing.thy ===== *)
theory Pairing
  imports Env
begin

text \<open>
  crates/common/src/pairing.rs: X25519 enrolment. The two ends derive one transport key from
  their own private key and the other's public key, and an agent's name and public key travel
  to the controller as a compact code.
\<close>

section \<open>Key derivation\<close>

definition DOMAIN :: bytes where
  "DOMAIN = as_bytes ''s3-relay/x25519/v1''"

definition generate_keypair :: "'s env \<Rightarrow> ('s, string \<times> string) io" where
  "generate_keypair E = io_then (random E 32) (\<lambda>private.
     io_ok (b64_encode E private, b64_encode E (x25519_public E private)))"

definition key_bytes :: "'z libs_scheme \<Rightarrow> string \<Rightarrow> string \<Rightarrow> string \<Rightarrow> bytes res" where
  "key_bytes E not_base64 not_32 text =
     res_then (with_context not_base64 (b64_decode E (trim text))) (\<lambda>raw.
     res_then (ensure (length raw = 32) not_32) (\<lambda>_. Inr raw))"

definition derive_key :: "'z libs_scheme \<Rightarrow> string \<Rightarrow> string \<Rightarrow> string \<Rightarrow> string res" where
  "derive_key E private_b64 peer_public_b64 agent =
     res_then (validate_agent_id agent) (\<lambda>_.
     res_then (key_bytes E ''private key is not base64'' ''private key must contain 32 bytes''
        private_b64) (\<lambda>private.
     res_then (key_bytes E ''public key is not base64'' ''public key must contain 32 bytes''
        peer_public_b64) (\<lambda>public.
     res_then (ok_or ''HKDF expansion failed''
        (hkdf E DOMAIN (diffie_hellman E private public) (as_bytes agent) 32)) (\<lambda>key.
     Inr (b64_encode E key)))))"

section \<open>Pairing codes\<close>

record enrollment =
  enr_agent_id :: string
  enr_public_key :: string
  enr_version :: u8

definition encode_enrollment :: "'z libs_scheme \<Rightarrow> string \<Rightarrow> string \<Rightarrow> string res" where
  "encode_enrollment E agent public_key =
     res_then (validate_agent_id agent) (\<lambda>_.
     res_then (b64_decode E (trim public_key)) (\<lambda>raw.
     res_then (ensure (length raw = 32) ''pairing public key must contain 32 bytes'') (\<lambda>_.
     Inr (''R1-'' @ url64_encode E ([1, of_nat (length agent)] @ as_bytes agent @ raw)))))"

definition decode_enrollment :: "'z libs_scheme \<Rightarrow> string \<Rightarrow> enrollment res" where
  "decode_enrollment E code =
     res_then (ok_or ''pairing code must start with R1-'' (strip_prefix ''R1-'' (trim code))) (\<lambda>encoded.
     res_then (with_context ''pairing code is not valid base64url'' (url64_decode E encoded)) (\<lambda>raw.
     res_then (ensure (\<not> (length raw < 34 \<or> raw ! 0 \<noteq> 1)) ''unsupported or malformed pairing code'') (\<lambda>_.
     let name_len = unat (raw ! 1); name = take name_len (drop 2 raw) in
     res_then (ensure (length raw = 34 + name_len) ''malformed pairing code length'') (\<lambda>_.
     res_then (ensure (utf8_valid name) ''agent name is not UTF-8'') (\<lambda>_.
     res_then (validate_agent_id (of_bytes name)) (\<lambda>_.
     Inr \<lparr>enr_agent_id = of_bytes name,
          enr_public_key = b64_encode E (drop (2 + name_len) raw), enr_version = 1\<rparr>))))))"

section \<open>Facts\<close>

lemma ascii_agent_id:
  assumes "validate_agent_id a = Inr ()"
  shows "list_all (\<lambda>b. b \<le> 127) (as_bytes a)"
proof -
  have "(of_char c :: u8) \<le> 127" if "agent_id_char c" for c
  proof -
    have "(of_char c :: nat) \<le> 127"
      using that by (auto simp: agent_id_char_def is_ascii_alphanumeric_def is_ascii_digit_def
          is_ascii_upper_def is_ascii_lower_def in_range_def)
    moreover have "unat (of_char c :: u8) = of_char c"
      by (cases c) (simp add: of_char_def unat_of_nat)
    ultimately show ?thesis by (simp add: word_le_nat_alt)
  qed
  then show ?thesis
    using assms by (auto simp: validate_agent_id_iff list_all_iff as_bytes_def)
qed

lemma name_length_byte: "validate_agent_id a = Inr () \<Longrightarrow> unat (of_nat (length a) :: u8) = length a"
  by (simp add: validate_agent_id_iff unat_of_nat)

context crates
begin

lemma key_bytes_encoded: "length raw = 32 \<Longrightarrow> key_bytes E m1 m2 (b64_encode E raw) = Inr raw"
  by (simp add: key_bytes_def trim_plain b64_plain b64_inv)

lemma trim_code: "trim (''R1-'' @ url64_encode E x) = ''R1-'' @ url64_encode E x"
proof -
  have "list_all (\<lambda>c. \<not> is_space c) (''R1-'' @ url64_encode E x)"
    using url64_plain [of x] by (simp add: is_space_def in_range_def)
  then show ?thesis by (rule trim_plain)
qed

lemma derive_key_symmetric:
  assumes "length a = 32" and "length b = 32"
  shows "derive_key E (b64_encode E a) (b64_encode E (x25519_public E b)) name =
         derive_key E (b64_encode E b) (b64_encode E (x25519_public E a)) name"
  using assms by (simp add: derive_key_def key_bytes_encoded public_len dh_comm)

lemma enrollment_roundtrip:
  assumes "encode_enrollment E a pk = Inr code"
  shows "\<exists>raw. b64_decode E (trim pk) = Inr raw \<and> length raw = 32 \<and>
    decode_enrollment E code = Inr \<lparr>enr_agent_id = a, enr_public_key = b64_encode E raw, enr_version = 1\<rparr>"
proof -
  obtain raw where va: "validate_agent_id a = Inr ()" and raw: "b64_decode E (trim pk) = Inr raw"
    "length raw = 32"
    and code: "code = ''R1-'' @ url64_encode E ([1, of_nat (length a)] @ as_bytes a @ raw)"
    using assms by (auto simp: encode_enrollment_def res_then_Inr_iff)
  have "decode_enrollment E code =
      Inr \<lparr>enr_agent_id = a, enr_public_key = b64_encode E raw, enr_version = 1\<rparr>"
    unfolding code decode_enrollment_def trim_code
    using va raw by (simp add: strip_prefix_def url64_inv ok_or_def name_length_byte
        utf8_valid_ascii ascii_agent_id)
  with raw show ?thesis by blast
qed

end

end
