(* ===== verification/Crypto.thy ===== *)
theory Crypto
  imports Pairing
begin

text \<open>
  crates/common/src/crypto.rs: the two sealed forms of an object. Small messages are JSON
  inside an encrypted JSON envelope; chunks are \<open>version | nonce | ciphertext\<close>. The object
  key is the associated data of both. A \<open>Crypto\<close> is its 32 key bytes and its key id.
\<close>

section \<open>Keys\<close>

definition ENVELOPE_VERSION :: u32 where "ENVELOPE_VERSION = 1"

definition AAD_DOMAIN :: bytes where
  "AAD_DOMAIN = as_bytes ''s3-mcp-relay/v1'' @ [0]"

definition PAIRED_KEY_ID :: string where "PAIRED_KEY_ID = ''x25519-v1''"
definition SHARED_KEY_ID :: string where "SHARED_KEY_ID = ''primary''"

record crypto =
  cr_key :: bytes
  cr_key_id :: string

definition aad :: "string \<Rightarrow> bytes" where
  "aad object_key = AAD_DOMAIN @ as_bytes object_key"

definition from_base64 :: "'z libs_scheme \<Rightarrow> string \<Rightarrow> string \<Rightarrow> crypto res" where
  "from_base64 E encoded key_id =
     res_then (with_context ''RELAY_SHARED_KEY is not valid base64'' (b64_decode E (trim encoded))) (\<lambda>key.
     res_then (ensure (length key = 32) ''RELAY_SHARED_KEY must decode to exactly 32 bytes'') (\<lambda>_.
     res_then (ensure (\<not> (key_id = [] \<or> length key_id > 64))
       ''RELAY_KEY_ID must contain 1..=64 characters'') (\<lambda>_.
     Inr \<lparr>cr_key = key, cr_key_id = key_id\<rparr>)))"

text \<open>\<open>optional_env\<close> and \<open>required_env\<close> are the settings lookups of config.rs.\<close>

definition crypto_from_env ::
  "'z libs_scheme \<Rightarrow> (string \<Rightarrow> string option) \<Rightarrow> (string \<Rightarrow> string res) \<Rightarrow> crypto res" where
  "crypto_from_env E optional_env required_env =
     res_then (case optional_env ''RELAY_SHARED_KEY'' of
         Some value \<Rightarrow> Inr (value, SHARED_KEY_ID)
       | None \<Rightarrow>
           res_then (required_env ''AGENT_PRIVATE_KEY'') (\<lambda>private.
           res_then (required_env ''AGENT_CONTROLLER_PUBLIC_KEY'') (\<lambda>controller.
           res_then (required_env ''RELAY_AGENT_ID'') (\<lambda>agent.
           res_then (derive_key E private controller agent) (\<lambda>key.
           Inr (key, PAIRED_KEY_ID)))))) (\<lambda>(encoded, default_key_id).
     from_base64 E encoded
       (case optional_env ''RELAY_KEY_ID'' of None \<Rightarrow> default_key_id | Some k \<Rightarrow> k))"

section \<open>Sealing and opening\<close>

definition seal :: "'s env \<Rightarrow> crypto \<Rightarrow> 'a codec \<Rightarrow> string \<Rightarrow> 'a \<Rightarrow> ('s, bytes) io" where
  "seal E cr codec object_key value =
     io_then (io_lift (with_context ''serialize relay message'' (to_vec codec value))) (\<lambda>plaintext.
     io_then (random E 24) (\<lambda>nonce.
     io_then (io_lift (ok_or ''encrypt relay message''
       (aead_encrypt E (cr_key cr) nonce plaintext (aad object_key)))) (\<lambda>ciphertext.
     io_lift (with_context ''serialize encrypted envelope''
       (to_vec (envelope_json E)
         \<lparr>en_version = ENVELOPE_VERSION, en_key_id = cr_key_id cr,
          en_nonce_b64 = b64_encode E nonce, en_ciphertext_b64 = b64_encode E ciphertext\<rparr>)))))"

definition open_envelope :: "'z libs_scheme \<Rightarrow> crypto \<Rightarrow> string \<Rightarrow> envelope \<Rightarrow> bytes res" where
  "open_envelope E cr object_key en =
     res_then (ensure (en_version en = ENVELOPE_VERSION)
       (''unsupported encrypted envelope version '' @ dec (unat (en_version en)))) (\<lambda>_.
     res_then (ensure (en_key_id en = cr_key_id cr)
       (''relay key id mismatch: received '' @ en_key_id en)) (\<lambda>_.
     res_then (with_context ''decode nonce'' (b64_decode E (en_nonce_b64 en))) (\<lambda>nonce.
     res_then (ensure (length nonce = 24) ''invalid XChaCha20 nonce length'') (\<lambda>_.
     res_then (with_context ''decode ciphertext'' (b64_decode E (en_ciphertext_b64 en))) (\<lambda>ciphertext.
     ok_or ''message authentication failed''
       (aead_decrypt E (cr_key cr) nonce ciphertext (aad object_key)))))))"

definition open_sealed :: "'z libs_scheme \<Rightarrow> crypto \<Rightarrow> 'a codec \<Rightarrow> string \<Rightarrow> bytes \<Rightarrow> 'a res" where
  "open_sealed E cr codec object_key raw =
     res_then (with_context ''decode encrypted envelope'' (from_slice (envelope_json E) raw)) (\<lambda>en.
     res_then (open_envelope E cr object_key en) (\<lambda>plaintext.
     with_context ''decode authenticated relay message'' (from_slice codec plaintext)))"

definition seal_bytes :: "'s env \<Rightarrow> crypto \<Rightarrow> string \<Rightarrow> bytes \<Rightarrow> ('s, bytes) io" where
  "seal_bytes E cr object_key plaintext =
     io_then (random E 24) (\<lambda>nonce.
     io_then (io_lift (ok_or ''encrypt relay chunk''
       (aead_encrypt E (cr_key cr) nonce plaintext (aad object_key)))) (\<lambda>ciphertext.
     io_ok (ucast ENVELOPE_VERSION # nonce @ ciphertext)))"

definition open_bytes :: "'z libs_scheme \<Rightarrow> crypto \<Rightarrow> string \<Rightarrow> bytes \<Rightarrow> bytes res" where
  "open_bytes E cr object_key raw =
     res_then (ensure (\<not> length raw < 1 + 24 + 16) ''relay chunk is too short to be valid'') (\<lambda>_.
     res_then (ensure (raw ! 0 = ucast ENVELOPE_VERSION)
       (''unsupported relay chunk version '' @ dec (unat (raw ! 0)))) (\<lambda>_.
     ok_or ''chunk authentication failed''
       (aead_decrypt E (cr_key cr) (take 24 (drop 1 raw)) (drop 25 raw) (aad object_key))))"

section \<open>Facts\<close>

lemma aad_inj: "aad k = aad k' \<longleftrightarrow> k = k'"
  by (simp add: aad_def as_bytes_inj)

lemma random_Inr: "random E n s = (Inr b, s') \<longleftrightarrow> fill_bytes E n s = (b, s')"
  by (auto simp: random_def split: prod.splits)

text \<open>What a successful seal produced.\<close>

lemma seal_InrE:
  assumes "seal E cr codec k v s = (Inr b, s')"
  obtains pt nonce ct where
    "to_vec codec v = Inr pt" "fill_bytes E 24 s = (nonce, s')"
    "aead_encrypt E (cr_key cr) nonce pt (aad k) = Some ct"
    "to_vec (envelope_json E) \<lparr>en_version = ENVELOPE_VERSION, en_key_id = cr_key_id cr,
       en_nonce_b64 = b64_encode E nonce, en_ciphertext_b64 = b64_encode E ct\<rparr> = Inr b"
  using assms
  by (auto simp: seal_def io_then_Inr random_Inr with_context_Inr_iff)

lemma seal_bytes_InrE:
  assumes "seal_bytes E cr k pt s = (Inr b, s')"
  obtains nonce ct where "fill_bytes E 24 s = (nonce, s')"
    "aead_encrypt E (cr_key cr) nonce pt (aad k) = Some ct"
    "b = ucast ENVELOPE_VERSION # nonce @ ct"
  using assms by (auto simp: seal_bytes_def io_then_Inr random_Inr)

context crates
begin

lemma nonce_len: "fill_bytes E n s = (b, s') \<Longrightarrow> length b = n"
  using random_len [of n s] by simp

text \<open>What opening a sealed message comes down to, whoever opens it and at whichever key.\<close>

lemma open_of_sealed:
  assumes "seal E cr codec k v s = (Inr b, s')"
  obtains pt nonce ct en where
    "to_vec codec v = Inr pt"
    "aead_encrypt E (cr_key cr) nonce pt (aad k) = Some ct"
    "from_slice (envelope_json E) b = Inr en"
    "\<And>cr' k'. open_envelope E cr' k' en =
       res_then (ensure (cr_key_id cr = cr_key_id cr')
         (''relay key id mismatch: received '' @ cr_key_id cr)) (\<lambda>_.
       ok_or ''message authentication failed'' (aead_decrypt E (cr_key cr') nonce ct (aad k')))"
  using assms
proof (rule seal_InrE)
  fix pt nonce ct
  let ?en = "\<lparr>en_version = ENVELOPE_VERSION, en_key_id = cr_key_id cr,
     en_nonce_b64 = b64_encode E nonce, en_ciphertext_b64 = b64_encode E ct\<rparr>"
  assume pt: "to_vec codec v = Inr pt" and n: "fill_bytes E 24 s = (nonce, s')"
    and ct: "aead_encrypt E (cr_key cr) nonce pt (aad k) = Some ct"
    and b: "to_vec (envelope_json E) ?en = Inr b"
  have "from_slice (envelope_json E) b = Inr ?en"
    using envelope_ok b by (simp add: codec_ok_def)
  moreover have "length nonce = 24" by (rule nonce_len [OF n])
  then have "open_envelope E cr' k' ?en =
       res_then (ensure (cr_key_id cr = cr_key_id cr')
         (''relay key id mismatch: received '' @ cr_key_id cr)) (\<lambda>_.
       ok_or ''message authentication failed'' (aead_decrypt E (cr_key cr') nonce ct (aad k')))" for cr' k'
    by (cases "cr_key_id cr = cr_key_id cr'") (simp_all add: open_envelope_def b64_inv)
  ultimately show thesis using that pt ct by blast
qed

lemma seal_open:
  assumes "seal E cr codec k v s = (Inr b, s')" and "codec_ok codec"
  shows "open_sealed E cr codec k b = Inr v"
  using assms(1)
proof (rule open_of_sealed)
  fix pt nonce ct en
  assume pt: "to_vec codec v = Inr pt"
    and ct: "aead_encrypt E (cr_key cr) nonce pt (aad k) = Some ct"
    and en: "from_slice (envelope_json E) b = Inr en"
    and op: "\<And>cr' k'. open_envelope E cr' k' en =
       res_then (ensure (cr_key_id cr = cr_key_id cr')
         (''relay key id mismatch: received '' @ cr_key_id cr)) (\<lambda>_.
       ok_or ''message authentication failed'' (aead_decrypt E (cr_key cr') nonce ct (aad k')))"
  have "open_envelope E cr k en = Inr pt"
    using aead_inv [OF ct] by (simp add: op ok_or_def)
  then show ?thesis
    using assms(2) pt by (simp add: open_sealed_def en codec_ok_def)
qed

lemma seal_open_other_key_id:
  assumes "seal E cr codec k v s = (Inr b, s')" and "cr_key_id cr' \<noteq> cr_key_id cr"
  shows "open_sealed E cr' codec' k' b = bail (''relay key id mismatch: received '' @ cr_key_id cr)"
  using assms(1)
proof (rule open_of_sealed)
  fix pt nonce ct en
  assume "from_slice (envelope_json E) b = Inr en"
    and "\<And>cr' k'. open_envelope E cr' k' en =
       res_then (ensure (cr_key_id cr = cr_key_id cr')
         (''relay key id mismatch: received '' @ cr_key_id cr)) (\<lambda>_.
       ok_or ''message authentication failed'' (aead_decrypt E (cr_key cr') nonce ct (aad k')))"
  with assms(2) show ?thesis by (simp add: open_sealed_def)
qed

text \<open>
  Opening at another object key can only succeed through a forgery: the cipher would have to
  accept a ciphertext under associated data other than the data it was made with.
\<close>

lemma open_elsewhere_is_forgery:
  assumes "seal E cr codec k v s = (Inr b, s')" and "k' \<noteq> k"
    and "open_sealed E cr' codec' k' b = Inr w"
  shows "\<exists>nonce pt ct. aead_encrypt E (cr_key cr) nonce pt (aad k) = Some ct \<and> aad k' \<noteq> aad k \<and>
    aead_decrypt E (cr_key cr') nonce ct (aad k') \<noteq> None"
  using assms(1)
proof (rule open_of_sealed)
  fix pt nonce ct en
  assume ct: "aead_encrypt E (cr_key cr) nonce pt (aad k) = Some ct"
    and en: "from_slice (envelope_json E) b = Inr en"
    and op: "\<And>cr' k'. open_envelope E cr' k' en =
       res_then (ensure (cr_key_id cr = cr_key_id cr')
         (''relay key id mismatch: received '' @ cr_key_id cr)) (\<lambda>_.
       ok_or ''message authentication failed'' (aead_decrypt E (cr_key cr') nonce ct (aad k')))"
  have "aead_decrypt E (cr_key cr') nonce ct (aad k') \<noteq> None"
    using assms(3) by (auto simp: open_sealed_def en op res_then_Inr_iff)
  with ct assms(2) show ?thesis by (auto simp: aad_inj)
qed

lemma seal_bytes_open:
  assumes "seal_bytes E cr k pt s = (Inr b, s')"
  shows "open_bytes E cr k b = Inr pt \<and> length b = length pt + 41"
  using assms
proof (rule seal_bytes_InrE)
  fix nonce ct
  assume n: "fill_bytes E 24 s = (nonce, s')"
    and e: "aead_encrypt E (cr_key cr) nonce pt (aad k) = Some ct"
    and b: "b = ucast ENVELOPE_VERSION # nonce @ ct"
  have "length nonce = 24" by (rule nonce_len [OF n])
  then show ?thesis
    using aead_inv [OF e] aead_len [OF e] by (simp add: b open_bytes_def ok_or_def)
qed

end

end
