(* ===== verification/Host.thy ===== *)
theory Host
  imports Env
begin

text \<open>
  The machine an agent or controller runs on: paths as \<open>std::path\<close> compares them, and the
  file system as a record of operations that the definitions take as an argument, with the
  contract the components rely on. Paths are Unix paths; a path is its root flag and its
  components, which is what \<open>Path\<close>'s own equality, \<open>parent\<close>, \<open>file_name\<close>, \<open>join\<close> and
  \<open>starts_with\<close> work on (repeated separators and inner \<open>.\<close> components do not count).
\<close>

section \<open>Paths\<close>

datatype path = Path (is_absolute: bool) (components: "string list")

definition PathBuf :: "string \<Rightarrow> path" where
  "PathBuf s = (let ps = split_on (CHR ''/'') s; abs = starts_with s ''/'' in
     Path abs ((if \<not> abs \<and> hd ps = ''.'' then [''.''] else []) @ filter (\<lambda>c. c \<noteq> [] \<and> c \<noteq> ''.'') ps))"

definition display :: "path \<Rightarrow> string" where
  "display p = (if is_absolute p then ''/'' else []) @ join ''/'' (components p)"

definition parent :: "path \<Rightarrow> path option" where
  "parent p = (if components p = [] then None else Some (Path (is_absolute p) (butlast (components p))))"

definition is_empty_path :: "path \<Rightarrow> bool" where
  "is_empty_path p \<longleftrightarrow> \<not> is_absolute p \<and> components p = []"

definition file_name :: "path \<Rightarrow> string option" where
  "file_name p = (if components p = [] then None
     else let c = last (components p) in if c = ''..'' \<or> c = ''.'' then None else Some c)"

definition path_join :: "path \<Rightarrow> string \<Rightarrow> path" where
  "path_join p name = (let q = PathBuf name in
     if is_absolute q then q else Path (is_absolute p) (components p @ components q))"

text \<open>Joining a name that is one component, as the file name of another path is.\<close>

definition push_name :: "path \<Rightarrow> string \<Rightarrow> path" where
  "push_name p name = Path (is_absolute p) (components p @ [name])"

definition with_file_name :: "path \<Rightarrow> string \<Rightarrow> path" where
  "with_file_name p name = push_name
     (if file_name p = None then p else Path (is_absolute p) (butlast (components p))) name"

definition path_starts_with :: "path \<Rightarrow> path \<Rightarrow> bool" where
  "path_starts_with p root \<longleftrightarrow> is_absolute p = is_absolute root \<and> prefix (components root) (components p)"

definition rsplit_dot :: "string \<Rightarrow> (string \<times> string) option" where
  "rsplit_dot s = (case split_once (CHR ''.'') (rev s) of None \<Rightarrow> None | Some (a, b) \<Rightarrow> Some (rev b, rev a))"

definition extension :: "path \<Rightarrow> string option" where
  "extension p = (case file_name p of None \<Rightarrow> None
     | Some n \<Rightarrow> (case rsplit_dot n of None \<Rightarrow> None | Some (a, b) \<Rightarrow> if a = [] then None else Some b))"

definition file_stem :: "path \<Rightarrow> string option" where
  "file_stem p = (case file_name p of None \<Rightarrow> None
     | Some n \<Rightarrow> (case rsplit_dot n of None \<Rightarrow> Some n | Some (a, b) \<Rightarrow> Some (if a = [] then n else a)))"

lemma push_name_neq: "n \<noteq> m \<Longrightarrow> push_name p n \<noteq> push_name q m"
  by (simp add: push_name_def)

lemma path_starts_with_refl [simp]: "path_starts_with p p"
  by (simp add: path_starts_with_def)

lemma path_starts_with_push [intro]: "path_starts_with p r \<Longrightarrow> path_starts_with (push_name p n) r"
  by (auto simp: path_starts_with_def push_name_def)

lemma path_starts_with_trans:
  "path_starts_with p q \<Longrightarrow> path_starts_with q r \<Longrightarrow> path_starts_with p r"
  by (auto simp: path_starts_with_def intro: prefix_order.trans)

lemma file_name_push [simp]:
  "n \<noteq> ''..'' \<Longrightarrow> n \<noteq> ''.'' \<Longrightarrow> file_name (push_name p n) = Some n"
  by (simp add: file_name_def push_name_def)

lemma with_file_name_push [simp]:
  "n \<noteq> ''..'' \<Longrightarrow> n \<noteq> ''.'' \<Longrightarrow> with_file_name (push_name p n) m = push_name p m"
  by (simp add: with_file_name_def file_name_def push_name_def)

lemma with_file_name_starts:
  "file_name p = Some n \<Longrightarrow> path_starts_with p r \<Longrightarrow> components r \<noteq> components p \<Longrightarrow>
   path_starts_with (with_file_name p m) r"
  by (cases "components p" rule: rev_cases)
    (auto simp: with_file_name_def path_starts_with_def push_name_def file_name_def)

section \<open>The file system\<close>

text \<open>
  \<open>file_read h n\<close> may return fewer than \<open>n\<close> bytes, and none at the end of the file.
  \<open>schedule n\<close> is the scheduler: which of \<open>n\<close> tasks in flight finishes next.
\<close>

record 's host =
  canonicalize :: "path \<Rightarrow> ('s, path) io"
  path_exists :: "path \<Rightarrow> 's \<Rightarrow> bool"
  path_is_dir :: "path \<Rightarrow> 's \<Rightarrow> bool"
  file_len :: "path \<Rightarrow> ('s, u64) io"
  file_open :: "path \<Rightarrow> ('s, nat) io"
  file_read :: "nat \<Rightarrow> nat \<Rightarrow> ('s, bytes) io"
  file_create :: "path \<Rightarrow> ('s, nat) io"
  file_append :: "path \<Rightarrow> ('s, nat) io"
  file_write_all :: "nat \<Rightarrow> bytes \<Rightarrow> ('s, unit) io"
  file_flush :: "nat \<Rightarrow> ('s, unit) io"
  rename_path :: "path \<Rightarrow> path \<Rightarrow> ('s, unit) io"
  remove_file :: "path \<Rightarrow> ('s, unit) io"
  create_dir :: "path \<Rightarrow> ('s, unit) io"
  create_dir_all :: "path \<Rightarrow> ('s, unit) io"
  remove_dir :: "path \<Rightarrow> ('s, unit) io"
  remove_dir_all :: "path \<Rightarrow> ('s, unit) io"
  schedule :: "nat \<Rightarrow> 's \<Rightarrow> nat \<times> 's"

text \<open>
  The contract, over the contents \<open>files\<close> of the regular files, the bytes \<open>unread\<close> that an
  open handle has still to deliver and the file \<open>target\<close> that a handle opened for writing
  writes to. Each states what POSIX says of the call when it succeeds; a rename that fails
  changes nothing, a write that fails may have written a part.
\<close>

locale filesystem =
  fixes H :: "'s host" and files :: "'s \<Rightarrow> path \<Rightarrow> bytes option"
    and unread :: "'s \<Rightarrow> nat \<Rightarrow> bytes" and target :: "'s \<Rightarrow> nat \<Rightarrow> path option"
  assumes open_ok: "file_open H p s = (Inr h, s') \<Longrightarrow> files s p = Some (unread s' h)"
    and open_frame: "file_open H p s = (r, s') \<Longrightarrow> files s' = files s"
    and read_ok: "file_read H h n s = (Inr b, s') \<Longrightarrow>
      unread s h = b @ unread s' h \<and> length b \<le> n \<and> (b = [] \<longrightarrow> n = 0 \<or> unread s h = [])"
    and read_frame: "file_read H h n s = (rb, s') \<Longrightarrow> files s' = files s"
    and create_ok: "file_create H p s = (Inr h, s') \<Longrightarrow>
      files s' = (files s)(p \<mapsto> []) \<and> target s' h = Some p"
    and create_err: "file_create H p s = (Inl e, s') \<Longrightarrow> \<forall>q. q \<noteq> p \<longrightarrow> files s' q = files s q"
    and write_ok: "file_write_all H h b s = (Inr u, s') \<Longrightarrow> target s h = Some p \<Longrightarrow>
      files s p = Some old \<Longrightarrow> files s' = (files s)(p \<mapsto> old @ b) \<and> target s' h = Some p"
    and write_err: "file_write_all H h b s = (Inl e, s') \<Longrightarrow> target s h = Some p \<Longrightarrow>
      \<forall>q. q \<noteq> p \<longrightarrow> files s' q = files s q"
    and flush_ok: "file_flush H h s = (ru, s') \<Longrightarrow> files s' = files s"
    and rename_ok: "rename_path H p q s = (Inr u, s') \<Longrightarrow> files s p = Some b \<Longrightarrow>
      p \<noteq> q \<Longrightarrow> files s' = (files s)(q \<mapsto> b, p := None)"
    and rename_same: "rename_path H p p s = (Inr u, s') \<Longrightarrow> files s' = files s"
    and rename_err: "rename_path H p q s = (Inl e, s') \<Longrightarrow> files s' = files s"
    and remove_file_ok: "remove_file H p s = (Inr u, s') \<Longrightarrow> files s' = (files s)(p := None)"
    and remove_file_err: "remove_file H p s = (Inl e, s') \<Longrightarrow> files s' = files s"
    and schedule_frame: "schedule H n s = (i, s') \<Longrightarrow> files s' = files s \<and> unread s' = unread s"

text \<open>
  A machine of the relay: a bucket it can reach and a file system, neither of which is the
  other's.
\<close>

locale machine = relay E view rest + filesystem H files unread target
  for E :: "'s env" and view :: "'s \<Rightarrow> string \<Rightarrow> bytes option"
    and rest :: "(string \<Rightarrow> bytes option) \<Rightarrow> string \<Rightarrow> string option \<Rightarrow> string list"
    and H :: "'s host" and files :: "'s \<Rightarrow> path \<Rightarrow> bytes option"
    and unread :: "'s \<Rightarrow> nat \<Rightarrow> bytes" and target :: "'s \<Rightarrow> nat \<Rightarrow> path option" +
  assumes put_object_local: "leaves (\<lambda>s. (files s, unread s, target s)) (put_object E k b)"
    and get_object_local: "leaves (\<lambda>s. (files s, unread s, target s)) (get_object E k)"
    and delete_object_local: "leaves (\<lambda>s. (files s, unread s, target s)) (delete_object E k)"
    and list_local: "leaves (\<lambda>s. (files s, unread s, target s)) (list_objects_v2 E p t)"
    and random_local: "leaves (\<lambda>s. (files s, unread s, target s)) (random E n)"
    and uuid_local: "leaves (\<lambda>s. (files s, unread s, target s)) (uuid_v4 E)"
    and now_local: "leaves (\<lambda>s. (files s, unread s, target s)) (now_unix E)"
    and open_remote: "leaves view (file_open H q)"
    and read_remote: "leaves view (file_read H h n)"
    and create_remote: "leaves view (file_create H q)"
    and append_remote: "leaves view (file_append H q)"
    and write_remote: "leaves view (file_write_all H h b)"
    and flush_remote: "leaves view (file_flush H h)"
    and len_remote: "leaves view (file_len H q)"
    and rename_remote: "leaves view (rename_path H q q')"
    and remove_file_remote: "leaves view (remove_file H q)"
    and create_dir_remote: "leaves view (create_dir H q)" "leaves view (create_dir_all H q)"
    and remove_dir_remote: "leaves view (remove_dir H q)" "leaves view (remove_dir_all H q)"
    and canonicalize_remote: "leaves view (canonicalize H q)"
    and schedule_remote: "view (snd (schedule H n s)) = view s"

end
