(* ===== verification/Tables.thy ===== *)
theory Tables
  imports Prelude
begin

text \<open>
  The tables of the controller's database, crates/controller/src/registry.rs: the list of the
  rows of each under their primary key.
\<close>

section \<open>Tables\<close>

record agent_row =
  ar_public_key :: string
  ar_added_at :: int
  ar_updated_at :: int

record enrolled_key =
  ak_id :: string
  ak_public_key :: string

record seen_agent =
  sa_id :: string
  sa_last_seen :: int
  sa_version :: "string option"
  sa_binary_sha256 :: "string option"
  sa_platform :: "string option"

record rollout =
  ro_release :: string
  ro_version :: string
  ro_target :: string
  ro_sha256 :: string
  ro_published_at :: int

text \<open>A rollout row carries \<open>completed_at\<close> beside the columns of \<open>Rollout\<close>.\<close>

record registry =
  rg_agents :: "(string \<times> agent_row) list"
  rg_events :: "(string \<times> int \<times> string \<times> string) list"
  rg_seen :: "(string \<times> seen_agent) list"
  rg_rollouts :: "(string \<times> rollout \<times> int option) list"
  rg_settings :: "(string \<times> string) list"

text \<open>The module's schema, as \<open>CREATE TABLE IF NOT EXISTS\<close> leaves a new file.\<close>

definition registry_empty :: registry where
  "registry_empty = \<lparr>rg_agents = [], rg_events = [], rg_seen = [], rg_rollouts = [], rg_settings = []\<rparr>"

end
