(* ===== verification/MemEnv.thy ===== *)
theory MemEnv
  imports Crypto Host Tables
begin

text \<open>
  One concrete environment, on which the contracts of Env are shown to hold and on which
  the witnesses evaluate: a bucket kept as an association list with a schedule of injected
  faults and two keys to a listing page, a clock and a random generator that count, and
  small stand-ins for the crates (hexadecimal for base64, a checksum tag for the AEAD, a
  table of the messages in play for each JSON codec). Nothing of the program is modelled
  here.
\<close>

section \<open>Stand-ins for the crates\<close>

definition hex_digit :: "nat \<Rightarrow> char" where "hex_digit d = char_of (97 + d)"

definition hex_value :: "char \<Rightarrow> nat" where "hex_value c = of_char c - 97"

fun toy_b64_encode :: "bytes \<Rightarrow> string" where
  "toy_b64_encode [] = []"
| "toy_b64_encode (b # bs) =
     hex_digit (unat b div 16) # hex_digit (unat b mod 16) # toy_b64_encode bs"

fun toy_b64_decode :: "string \<Rightarrow> bytes res" where
  "toy_b64_decode [] = Inr []"
| "toy_b64_decode [c] = bail ''odd length''"
| "toy_b64_decode (c # d # cs) =
     (if in_range 97 112 c \<and> in_range 97 112 d
      then res_then (toy_b64_decode cs) (\<lambda>bs. Inr (of_nat (hex_value c * 16 + hex_value d) # bs))
      else bail ''invalid symbol'')"

definition toy_tag :: "bytes \<Rightarrow> bytes \<Rightarrow> bytes \<Rightarrow> bytes" where
  "toy_tag key nonce ad = replicate 16 (foldl (\<lambda>acc b. 3 * acc + b) 7 (key @ nonce @ ad))"

definition toy_encrypt :: "bytes \<Rightarrow> bytes \<Rightarrow> bytes \<Rightarrow> bytes \<Rightarrow> bytes option" where
  "toy_encrypt key nonce msg ad = Some (msg @ toy_tag key nonce ad)"

definition toy_decrypt :: "bytes \<Rightarrow> bytes \<Rightarrow> bytes \<Rightarrow> bytes \<Rightarrow> bytes option" where
  "toy_decrypt key nonce ct ad =
     (if length ct < 16 then None
      else let n = length ct - 16 in
        if drop n ct = toy_tag key nonce ad then Some (take n ct) else None)"

definition pad32 :: "bytes \<Rightarrow> bytes" where "pad32 b = take 32 (b @ replicate 32 0)"

definition toy_dh :: "bytes \<Rightarrow> bytes \<Rightarrow> bytes" where
  "toy_dh a p = map (\<lambda>(x, y). x + y) (zip (pad32 a) (pad32 p))"

definition toy_sha256 :: "bytes \<Rightarrow> bytes" where
  "toy_sha256 b = replicate 31 (foldl (\<lambda>acc x. 5 * acc + x) 1 b) @ [of_nat (length b)]"

definition toy_hkdf :: "bytes \<Rightarrow> bytes \<Rightarrow> bytes \<Rightarrow> nat \<Rightarrow> bytes option" where
  "toy_hkdf salt ikm info n = Some (take n (toy_sha256 (salt @ ikm @ info) @ replicate n 0))"

definition toy_uuid_ok :: "string \<Rightarrow> bool" where
  "toy_uuid_ok s \<longleftrightarrow> length s = 36 \<and> list_all (\<lambda>c. is_ascii_alphanumeric c \<or> c = CHR ''-'') s"

fun index_of :: "'a \<Rightarrow> 'a list \<Rightarrow> nat option" where
  "index_of v [] = None"
| "index_of v (x # xs) = (if v = x then Some 0 else map_option Suc (index_of v xs))"

definition table_codec :: "'a list \<Rightarrow> 'a codec" where
  "table_codec xs =
     \<lparr>to_vec = (\<lambda>v. case index_of v xs of None \<Rightarrow> bail ''not in the table'' | Some i \<Rightarrow> Inr (replicate i 0)),
      from_slice = (\<lambda>b. if length b < length xs then Inr (xs ! length b) else bail ''unknown'')\<rparr>"

definition put_nat :: "nat \<Rightarrow> bytes" where "put_nat n = replicate n 1 @ [0]"

definition get_nat :: "bytes \<Rightarrow> (nat \<times> bytes) option" where
  "get_nat b = (let r = dropWhile (\<lambda>x. x = 1) b in
     case r of [] \<Rightarrow> None | _ # r' \<Rightarrow> Some (length b - length r, r'))"

definition put_str :: "string \<Rightarrow> bytes" where "put_str s = put_nat (length s) @ as_bytes s"

definition get_str :: "bytes \<Rightarrow> (string \<times> bytes) option" where
  "get_str b = (case get_nat b of None \<Rightarrow> None | Some (n, r) \<Rightarrow> Some (of_bytes (take n r), drop n r))"

definition toy_envelope :: "envelope codec" where
  "toy_envelope =
     \<lparr>to_vec = (\<lambda>en. Inr (put_nat (unat (en_version en)) @ put_str (en_key_id en)
         @ put_str (en_nonce_b64 en) @ put_str (en_ciphertext_b64 en))),
      from_slice = (\<lambda>b. ok_or ''bad envelope''
        (Option.bind (get_nat b) (\<lambda>(v, r1). Option.bind (get_str r1) (\<lambda>(k, r2).
         Option.bind (get_str r2) (\<lambda>(n, r3). Option.bind (get_str r3) (\<lambda>(c, r4).
         Some \<lparr>en_version = of_nat v, en_key_id = k, en_nonce_b64 = n, en_ciphertext_b64 = c\<rparr>))))))\<rparr>"

section \<open>The world\<close>

record mem_object =
  mo_body :: bytes
  mo_etag :: nat
  mo_mtime :: int

record mem =
  mem_objects :: "(string \<times> mem_object) list"
  mem_faults :: "bool list"
  mem_clock :: int
  mem_ms :: nat
  mem_seed :: nat
  mem_writes :: nat
  mem_incoming :: "(string \<times> bytes) list"
  mem_files :: "(path \<times> bytes) list"
  mem_dirs :: "path list"
  mem_reading :: "(nat \<times> bytes) list"
  mem_writing :: "(nat \<times> path) list"
  mem_handles :: nat
  mem_picks :: "nat list"
  mem_cursors :: "(nat \<times> path \<times> nat) list"
  mem_rows :: "((string \<times> string) \<times> int) list"
  mem_registry :: registry

definition mem_view :: "mem \<Rightarrow> string \<Rightarrow> bytes option" where
  "mem_view w = (\<lambda>k. map_option mo_body (map_of (mem_objects w) k))"

text \<open>Each request uses up one entry of the fault schedule; an empty schedule never fails.\<close>

definition request :: "(mem \<Rightarrow> 'a \<times> mem) \<Rightarrow> (mem, 'a) io" where
  "request f w = (case mem_faults w of
     True # fs \<Rightarrow> (bail ''service unavailable'', w\<lparr>mem_faults := fs\<rparr>)
   | False # fs \<Rightarrow> (case f (w\<lparr>mem_faults := fs\<rparr>) of (x, w') \<Rightarrow> (Inr x, w'))
   | [] \<Rightarrow> (case f w of (x, w') \<Rightarrow> (Inr x, w')))"

definition mem_put :: "string \<Rightarrow> bytes \<Rightarrow> (mem, unit) io" where
  "mem_put k b = request (\<lambda>w. ((), w\<lparr>mem_objects :=
     (k, \<lparr>mo_body = b, mo_etag = mem_writes w, mo_mtime = mem_clock w\<rparr>)
       # filter (\<lambda>(k', _). k' \<noteq> k) (mem_objects w),
     mem_writes := Suc (mem_writes w)\<rparr>))"

definition mem_get :: "string \<Rightarrow> (mem, s3_object option) io" where
  "mem_get k = request (\<lambda>w. (map_option (\<lambda>b. \<lparr>so_content_length = Some (int (length b)), so_body = Inr b\<rparr>)
     (mem_view w k), w))"

definition mem_head :: "string \<Rightarrow> (mem, string option option) io" where
  "mem_head k = request (\<lambda>w. (map_option (\<lambda>ob. Some (dec (mo_etag ob))) (map_of (mem_objects w) k), w))"

definition mem_delete :: "string \<Rightarrow> (mem, unit) io" where
  "mem_delete k = request (\<lambda>w. ((), w\<lparr>mem_objects := filter (\<lambda>(k', _). k' \<noteq> k) (mem_objects w)\<rparr>))"

definition mem_keys :: "mem \<Rightarrow> string \<Rightarrow> string list" where
  "mem_keys w p = sort (remdups (filter (prefix p) (map fst (mem_objects w))))"

definition after_token :: "string option \<Rightarrow> string list \<Rightarrow> string list" where
  "after_token t ks = (case t of None \<Rightarrow> ks | Some k \<Rightarrow> filter (\<lambda>x. k < x) ks)"

definition mem_list :: "string \<Rightarrow> string option \<Rightarrow> (mem, list_page) io" where
  "mem_list p t = request (\<lambda>w. let todo = after_token t (mem_keys w p); now = take 2 todo in
     (\<lparr>lp_contents = map (\<lambda>k. (Some k, map_option mo_mtime (map_of (mem_objects w) k))) now,
       lp_is_truncated = Some (2 < length todo),
       lp_next_token = (if 2 < length todo then Some (last now) else None)\<rparr>, w))"

text \<open>While the program sleeps, another party may write the next object due.\<close>

definition mem_sleep :: "nat \<Rightarrow> mem \<Rightarrow> mem" where
  "mem_sleep ms w = (case mem_incoming w of
     [] \<Rightarrow> w\<lparr>mem_ms := mem_ms w + ms\<rparr>
   | (k, b) # rest \<Rightarrow> w\<lparr>mem_ms := mem_ms w + ms, mem_incoming := rest,
       mem_objects := (k, \<lparr>mo_body = b, mo_etag = mem_writes w, mo_mtime = mem_clock w\<rparr>)
         # filter (\<lambda>(k', _). k' \<noteq> k) (mem_objects w),
       mem_writes := Suc (mem_writes w)\<rparr>)"

definition mem_rest :: "(string \<Rightarrow> bytes option) \<Rightarrow> string \<Rightarrow> string option \<Rightarrow> string list" where
  "mem_rest m p t = after_token t (sorted_list_of_set {k \<in> dom m. prefix p k})"

record tables =
  tb_commands :: "command list"
  tb_responses :: "response list"
  tb_heartbeats :: "heartbeat list"
  tb_doorbells :: "doorbell list"
  tb_log_chunks :: "log_chunk list"
  tb_updates :: "update_manifest list"
  tb_shares :: "share_manifest list"

definition no_tables :: tables where
  "no_tables = \<lparr>tb_commands = [], tb_responses = [], tb_heartbeats = [], tb_doorbells = [],
     tb_log_chunks = [], tb_updates = [], tb_shares = []\<rparr>"

definition mem_env :: "tables \<Rightarrow> mem env" where
  "mem_env T = \<lparr>uuid_ok = toy_uuid_ok, b64_encode = toy_b64_encode, b64_decode = toy_b64_decode,
     url64_encode = toy_b64_encode, url64_decode = toy_b64_decode,
     aead_encrypt = toy_encrypt, aead_decrypt = toy_decrypt, sha256 = toy_sha256,
     x25519_public = pad32, diffie_hellman = toy_dh, hkdf = toy_hkdf,
     envelope_json = toy_envelope, command_json = table_codec (tb_commands T),
     response_json = table_codec (tb_responses T), heartbeat_json = table_codec (tb_heartbeats T),
     doorbell_json = table_codec (tb_doorbells T), log_chunk_json = table_codec (tb_log_chunks T),
     update_manifest_json = table_codec (tb_updates T),
     share_manifest_json = table_codec (tb_shares T),
     put_object = mem_put, get_object = mem_get, head_object = mem_head,
     delete_object = mem_delete, list_objects_v2 = mem_list,
     fill_bytes = (\<lambda>n w. (replicate n (of_nat (mem_seed w)), w\<lparr>mem_seed := Suc (mem_seed w)\<rparr>)),
     new_uuid = (\<lambda>w. (dec_fixed 36 (mem_seed w), w\<lparr>mem_seed := Suc (mem_seed w)\<rparr>)),
     clock_unix = (\<lambda>w. (mem_clock w, w)), instant_ms = (\<lambda>w. (mem_ms w, w)),
     sleep_ms = mem_sleep\<rparr>"

definition mem_start :: mem where
  "mem_start = \<lparr>mem_objects = [], mem_faults = [], mem_clock = 1000, mem_ms = 0, mem_seed = 1,
     mem_writes = 0, mem_incoming = [], mem_files = [], mem_dirs = [], mem_reading = [],
     mem_writing = [], mem_handles = 0, mem_picks = [],
     mem_cursors = [], mem_rows = [], mem_registry = registry_empty\<rparr>"

section \<open>The contracts hold\<close>

lemma hex_value_digit: "d < 16 \<Longrightarrow> hex_value (hex_digit d) = d"
  by (simp add: hex_value_def hex_digit_def)

lemma hex_digit_range: "d < 16 \<Longrightarrow> in_range 97 112 (hex_digit d)"
  by (simp add: in_range_def hex_digit_def)

lemma toy_b64_inv: "toy_b64_decode (toy_b64_encode b) = Inr b"
proof (induction b)
  case Nil
  then show ?case by simp
next
  case (Cons x b)
  have "unat x < 256" using unsigned_less [of x] by simp
  then have "unat x div 16 < 16" by simp
  with Cons show ?case
    by (simp add: hex_digit_range hex_value_digit del: of_nat_add of_nat_mult)
qed

lemma toy_b64_plain: "list_all (\<lambda>c. \<not> is_space c) (toy_b64_encode b)"
proof (induction b)
  case Nil
  then show ?case by simp
next
  case (Cons x b)
  have "unat x < 256" using unsigned_less [of x] by simp
  then have "unat x div 16 < 16" by simp
  moreover have "\<not> is_space (hex_digit d)" if "d < 16" for d
    using that by (simp add: is_space_def in_range_def hex_digit_def)
  ultimately show ?case using Cons by simp
qed

lemma length_toy_tag [simp]: "length (toy_tag k n a) = 16"
  by (simp add: toy_tag_def)

lemma toy_aead:
  "toy_encrypt k n m a = Some c \<Longrightarrow> toy_decrypt k n c a = Some m \<and> length c = length m + 16"
  by (auto simp: toy_encrypt_def toy_decrypt_def)

lemma length_pad32 [simp]: "length (pad32 b) = 32"
  by (simp add: pad32_def)

lemma pad32_idem [simp]: "pad32 (pad32 b) = pad32 b"
  by (simp add: pad32_def)

lemma toy_dh_comm: "toy_dh a (pad32 b) = toy_dh b (pad32 a)"
  by (rule nth_equalityI) (simp_all add: toy_dh_def add.commute)

lemma index_of_nth: "index_of v xs = Some i \<Longrightarrow> i < length xs \<and> xs ! i = v"
  by (induction xs arbitrary: i) (auto split: if_splits)

lemma table_codec_ok: "codec_ok (table_codec xs)"
  by (auto simp: codec_ok_def table_codec_def dest: index_of_nth split: option.splits)

lemma get_put_nat [simp]: "get_nat (put_nat n @ r) = Some (n, r)"
proof -
  have "dropWhile (\<lambda>x. x = 1) (replicate n 1 @ (0 :: u8) # r) = 0 # r"
    by (induction n) simp_all
  then show ?thesis by (simp add: get_nat_def put_nat_def)
qed

lemma get_put_str [simp]: "get_str (put_str s @ r) = Some (s, r)"
  by (simp add: get_str_def put_str_def)

lemma get_put_str_Nil [simp]: "get_str (put_str s) = Some (s, [])"
  using get_put_str [of s "[]"] by simp

lemma toy_envelope_ok: "codec_ok toy_envelope"
  by (auto simp: codec_ok_def toy_envelope_def ok_or_def)

interpretation mem_crates: crates "mem_env T" for T
  by unfold_locales
    (simp_all add: mem_env_def toy_b64_inv toy_b64_plain toy_dh_comm table_codec_ok toy_envelope_ok
      toy_aead)

lemma request_InrD:
  assumes "request f w = (Inr x, w')"
  shows "\<exists>fs. f (w\<lparr>mem_faults := fs\<rparr>) = (x, w')"
proof (cases "mem_faults w")
  case Nil
  with assms have "f w = (x, w')"
    by (auto simp: request_def split: prod.splits)
  then have "f (w\<lparr>mem_faults := mem_faults w\<rparr>) = (x, w')" by simp
  then show ?thesis by blast
next
  case (Cons b fs)
  with assms show ?thesis
    by (auto simp: request_def bail_def split: bool.splits prod.splits)
qed

lemma request_InlD: "request f w = (Inl e, w') \<Longrightarrow> \<exists>fs. w' = w\<lparr>mem_faults := fs\<rparr>"
  by (auto simp: request_def bail_def split: list.splits bool.splits prod.splits)

lemma mem_view_faults [simp]: "mem_view (w\<lparr>mem_faults := fs\<rparr>) = mem_view w"
  by (simp add: mem_view_def fun_eq_iff)

lemma request_frame:
  assumes "\<And>w. mem_view (snd (f w)) = mem_view w"
  shows "mem_view (snd (request f w)) = mem_view w"
proof -
  have "mem_view w'' = mem_view w'" if "f w' = (x, w'')" for w' w'' x
    using assms [of w'] that by simp
  then show ?thesis
    by (auto simp: request_def split: list.splits bool.splits prod.splits)
qed

lemma map_of_filter_key: "map_of (filter (\<lambda>(k', _). k' \<noteq> k) xs) = (map_of xs)(k := None)"
  by (induction xs) (auto simp: fun_eq_iff)

lemma mem_view_put: "mem_put k b w = (Inr u, w') \<Longrightarrow> mem_view w' = (mem_view w)(k \<mapsto> b)"
  by (auto simp: mem_put_def mem_view_def fun_eq_iff map_of_filter_key dest!: request_InrD)

lemma mem_view_delete: "mem_delete k w = (Inr u, w') \<Longrightarrow> mem_view w' = (mem_view w)(k := None)"
  by (auto simp: mem_delete_def mem_view_def fun_eq_iff map_of_filter_key dest!: request_InrD)

lemma mem_view_error:
  "mem_put k b w = (Inl e, w') \<Longrightarrow> mem_view w' = mem_view w"
  "mem_delete k w = (Inl e, w') \<Longrightarrow> mem_view w' = mem_view w"
  by (auto simp: mem_put_def mem_delete_def dest!: request_InlD)

lemma mem_get_some:
  assumes "mem_get k w = (Inr (Some ob), w')"
  shows "\<exists>b. mem_view w k = Some b \<and> so_body ob = Inr b"
proof -
  obtain fs where "map_option (\<lambda>b. \<lparr>so_content_length = Some (int (length b)), so_body = Inr b\<rparr>)
      (mem_view w k) = Some ob"
    using request_InrD [OF assms [unfolded mem_get_def]] by auto
  then show ?thesis by auto
qed

lemma mem_get_none: "mem_get k w = (Inr None, w') \<Longrightarrow> mem_view w k = None"
  unfolding mem_get_def by (drule request_InrD) auto

lemma mem_keys_view:
  "mem_keys w p = sorted_list_of_set {k \<in> dom (mem_view w). prefix p k}"
proof -
  have eq: "{k \<in> dom (mem_view w). prefix p k} = set (filter (prefix p) (map fst (mem_objects w)))"
    by (auto simp: mem_view_def dom_map_option dom_map_of_conv_image_fst)
  show ?thesis
    by (simp only: eq mem_keys_def sorted_list_of_set_sort_remdups)
qed

lemma sorted_wrt_last:
  fixes ys :: "'a :: linorder list"
  shows "sorted_wrt (<) ys \<Longrightarrow> x \<in> set ys \<Longrightarrow> x \<le> last ys"
  by (induction ys rule: rev_induct) (auto simp: sorted_wrt_append)

lemma filter_after_take:
  fixes xs :: "string list"
  assumes "sorted_wrt (<) xs" and "0 < n" and "n < length xs"
  shows "filter (\<lambda>x. last (take n xs) < x) xs = drop n xs"
proof -
  have split: "xs = take n xs @ drop n xs" by simp
  have ne: "take n xs \<noteq> []" using assms by (cases xs) auto
  then have l: "last (take n xs) \<in> set (take n xs)" by (rule last_in_set)
  have sw: "sorted_wrt (<) (take n xs @ drop n xs)" using assms(1) by simp
  then have up: "\<forall>x \<in> set (drop n xs). last (take n xs) < x"
    using l unfolding sorted_wrt_append by blast
  have "sorted_wrt (<) (take n xs)" using sw by (simp add: sorted_wrt_append)
  then have "\<forall>x \<in> set (take n xs). \<not> last (take n xs) < x"
    by (auto dest: sorted_wrt_last simp: not_less)
  then have "filter (\<lambda>x. last (take n xs) < x) (take n xs) = []"
    by (simp add: filter_empty_conv)
  moreover have "filter (\<lambda>x. last (take n xs) < x) (drop n xs) = drop n xs"
    using up by (simp add: filter_id_conv)
  ultimately have "filter (\<lambda>x. last (take n xs) < x) (take n xs @ drop n xs) = drop n xs"
    by (simp only: filter_append append_Nil)
  then show ?thesis by simp
qed

lemma sorted_after_token: "sorted_wrt (<) ks \<Longrightarrow> sorted_wrt (<) (after_token t (ks :: string list))"
  by (auto simp: after_token_def sorted_wrt_filter split: option.splits)

lemma after_last_of_page:
  fixes ks :: "string list"
  assumes "sorted_wrt (<) ks" and "2 < length (after_token t ks)"
  shows "after_token t ks = take 2 (after_token t ks) @
    after_token (Some (last (take 2 (after_token t ks)))) ks"
proof -
  let ?todo = "after_token t ks" and ?m = "last (take 2 (after_token t ks))"
  have ne: "take 2 ?todo \<noteq> []" using assms(2) by (cases ?todo) auto
  have "?m \<in> set ?todo" using last_in_set [OF ne] by (rule in_set_takeD)
  then have "filter (\<lambda>x. ?m < x) ks = filter (\<lambda>x. ?m < x) ?todo"
    by (auto simp: after_token_def intro!: filter_cong split: option.splits)
  also have "\<dots> = drop 2 ?todo"
    by (rule filter_after_take) (use assms sorted_after_token in auto)
  finally show ?thesis by (simp add: after_token_def)
qed

lemma mem_list_page:
  assumes "mem_list p t w = (Inr pg, w')"
  shows "\<exists>ks. map fst (lp_contents pg) = map Some ks \<and>
    (if lp_is_truncated pg = Some True
     then ks \<noteq> [] \<and> (\<exists>t'. lp_next_token pg = Some t' \<and>
       mem_rest (mem_view w) p t = ks @ mem_rest (mem_view w) p (Some t'))
     else mem_rest (mem_view w) p t = ks)"
proof -
  let ?keys = "mem_keys w p"
  let ?todo = "after_token t ?keys"
  have keys: "mem_keys (w\<lparr>mem_faults := fs\<rparr>) p = ?keys" for fs
    by (simp add: mem_keys_def)
  obtain pr where pr: "pr = pg" and pg: "lp_contents pg =
        map (\<lambda>k. (Some k, map_option mo_mtime (map_of (mem_objects w) k))) (take 2 ?todo)"
      "lp_is_truncated pg = Some (2 < length ?todo)"
      "lp_next_token pg = (if 2 < length ?todo then Some (last (take 2 ?todo)) else None)"
    using request_InrD [OF assms [unfolded mem_list_def]] by (auto simp: Let_def keys)
  have rest: "mem_rest (mem_view w) p t = after_token t ?keys" for t
    by (simp add: mem_rest_def mem_keys_view)
  have "sorted_wrt (<) ?keys"
    unfolding mem_keys_view by (rule strict_sorted_list_of_set)
  note page = after_last_of_page [OF this, of t]
  show ?thesis
  proof (intro exI conjI)
    show "map fst (lp_contents pg) = map Some (take 2 ?todo)" by (simp add: pg o_def)
    show "if lp_is_truncated pg = Some True
      then take 2 ?todo \<noteq> [] \<and> (\<exists>t'. lp_next_token pg = Some t' \<and>
        mem_rest (mem_view w) p t = take 2 ?todo @ mem_rest (mem_view w) p (Some t'))
      else mem_rest (mem_view w) p t = take 2 ?todo"
      using page by (cases ?todo) (simp_all add: pg rest)
  qed
qed

lemma finite_dom_mem_view: "finite (dom (mem_view w))"
  by (simp add: mem_view_def dom_map_option finite_dom_map_of)

interpretation mem_bucket: bucket "mem_env T" mem_view mem_rest for T
proof
  fix k b u e s s'
  show "put_object (mem_env T) k b s = (Inr u, s') \<Longrightarrow> mem_view s' = (mem_view s)(k \<mapsto> b)"
    by (simp add: mem_env_def mem_view_put)
  show "put_object (mem_env T) k b s = (Inl e, s') \<Longrightarrow>
      mem_view s' = mem_view s \<or> mem_view s' = (mem_view s)(k \<mapsto> b)"
    by (simp add: mem_env_def mem_view_error)
  show "delete_object (mem_env T) k s = (Inr u, s') \<Longrightarrow> mem_view s' = (mem_view s)(k := None)"
    by (simp add: mem_env_def mem_view_delete)
  show "delete_object (mem_env T) k s = (Inl e, s') \<Longrightarrow>
      mem_view s' = mem_view s \<or> mem_view s' = (mem_view s)(k := None)"
    by (simp add: mem_env_def mem_view_error)
next
  fix k s s' obj
  show "mem_view (snd (get_object (mem_env T) k s)) = mem_view s"
    by (simp add: mem_env_def mem_get_def request_frame)
  show "get_object (mem_env T) k s = (Inr None, s') \<Longrightarrow> mem_view s k = None"
    by (simp add: mem_env_def mem_get_none)
  show "get_object (mem_env T) k s = (Inr (Some obj), s') \<Longrightarrow>
      \<exists>b. mem_view s k = Some b \<and> (so_body obj = Inr b \<or> (\<exists>e. so_body obj = Inl e))"
    using mem_get_some by (fastforce simp: mem_env_def)
  show "mem_view (snd (head_object (mem_env T) k s)) = mem_view s"
    by (simp add: mem_env_def mem_head_def request_frame)
next
  fix p t s s' pg
  show "mem_view (snd (list_objects_v2 (mem_env T) p t s)) = mem_view s"
    by (simp add: mem_env_def mem_list_def request_frame Let_def)
  show "list_objects_v2 (mem_env T) p t s = (Inr pg, s') \<Longrightarrow>
      \<exists>ks. map fst (lp_contents pg) = map Some ks \<and>
        (if lp_is_truncated pg = Some True
         then ks \<noteq> [] \<and> (\<exists>t'. lp_next_token pg = Some t' \<and>
           mem_rest (mem_view s) p t = ks @ mem_rest (mem_view s) p (Some t'))
         else mem_rest (mem_view s) p t = ks)"
    by (rule mem_list_page) (simp add: mem_env_def)
  show "set (mem_rest (mem_view s) p None) = {k \<in> dom (mem_view s). prefix p k}"
    by (simp add: mem_rest_def after_token_def finite_dom_mem_view)
  show "distinct (mem_rest (mem_view s) p None)"
    by (simp add: mem_rest_def after_token_def)
next
  fix n s
  show "mem_view (snd (fill_bytes (mem_env T) n s)) = mem_view s"
    by (simp add: mem_env_def mem_view_def)
  show "mem_view (snd (new_uuid (mem_env T) s)) = mem_view s"
    by (simp add: mem_env_def mem_view_def)
  show "mem_view (snd (clock_unix (mem_env T) s)) = mem_view s"
    by (simp add: mem_env_def)
  show "mem_view (snd (instant_ms (mem_env T) s)) = mem_view s"
    by (simp add: mem_env_def)
qed

lemma request_time:
  assumes "\<And>w. mem_ms (snd (f w)) = mem_ms w"
  shows "mem_ms (snd (request f w)) = mem_ms w"
proof -
  have "mem_ms w'' = mem_ms w'" if "f w' = (x, w'')" for w' w'' x
    using assms [of w'] that by simp
  then show ?thesis
    by (auto simp: request_def split: list.splits bool.splits prod.splits)
qed

interpretation mem_time: monotonic "mem_env T" mem_ms for T
  by unfold_locales
    (auto simp: mem_env_def mem_get_def mem_delete_def mem_sleep_def request_time split: list.splits)

interpretation mem: relay "mem_env T" mem_view mem_rest for T
  by unfold_locales

section \<open>The file system\<close>

text \<open>
  Files by path; a read returns at most three bytes at a time; the scheduler follows a list
  of picks. There are no links here, so a path that exists is canonical.
\<close>

definition mem_fs :: "mem \<Rightarrow> path \<Rightarrow> bytes option" where
  "mem_fs w = map_of (mem_files w)"

definition mem_unread :: "mem \<Rightarrow> nat \<Rightarrow> bytes" where
  "mem_unread w h = (case map_of (mem_reading w) h of None \<Rightarrow> [] | Some b \<Rightarrow> b)"

definition mem_target :: "mem \<Rightarrow> nat \<Rightarrow> path option" where
  "mem_target w = map_of (mem_writing w)"

definition mem_open :: "path \<Rightarrow> (mem, nat) io" where
  "mem_open p w = (case mem_fs w p of None \<Rightarrow> (bail ''No such file or directory'', w)
     | Some b \<Rightarrow> (Inr (mem_handles w), w\<lparr>mem_reading := (mem_handles w, b) # mem_reading w,
         mem_cursors := (mem_handles w, p, 0) # mem_cursors w, mem_handles := Suc (mem_handles w)\<rparr>))"

definition mem_read :: "nat \<Rightarrow> nat \<Rightarrow> (mem, bytes) io" where
  "mem_read h n w = (let b = mem_unread w h; m = min n 3 in
     (Inr (take m b), w\<lparr>mem_reading := (h, drop m b) # mem_reading w\<rparr>))"

definition mem_create :: "path \<Rightarrow> (mem, nat) io" where
  "mem_create p w = (Inr (mem_handles w), w\<lparr>mem_files := (p, []) # mem_files w,
     mem_writing := (mem_handles w, p) # mem_writing w, mem_handles := Suc (mem_handles w)\<rparr>)"

definition mem_append :: "path \<Rightarrow> (mem, nat) io" where
  "mem_append p w = (Inr (mem_handles w),
     w\<lparr>mem_files := (p, case mem_fs w p of None \<Rightarrow> [] | Some b \<Rightarrow> b) # mem_files w,
     mem_writing := (mem_handles w, p) # mem_writing w, mem_handles := Suc (mem_handles w)\<rparr>)"

definition mem_write_all :: "nat \<Rightarrow> bytes \<Rightarrow> (mem, unit) io" where
  "mem_write_all h b w = (case mem_target w h of None \<Rightarrow> (bail ''bad handle'', w)
     | Some p \<Rightarrow> (Inr (), w\<lparr>mem_files :=
         (p, (case mem_fs w p of None \<Rightarrow> [] | Some old \<Rightarrow> old) @ b) # mem_files w\<rparr>))"

definition mem_rename :: "path \<Rightarrow> path \<Rightarrow> (mem, unit) io" where
  "mem_rename p q w = (case mem_fs w p of None \<Rightarrow> (bail ''No such file or directory'', w)
     | Some b \<Rightarrow> (Inr (), w\<lparr>mem_files := (q, b) # filter (\<lambda>(r, _). r \<noteq> p) (mem_files w)\<rparr>))"

definition mem_unlink :: "path \<Rightarrow> (mem, unit) io" where
  "mem_unlink p w = (Inr (), w\<lparr>mem_files := filter (\<lambda>(r, _). r \<noteq> p) (mem_files w)\<rparr>)"

definition mem_exists :: "path \<Rightarrow> mem \<Rightarrow> bool" where
  "mem_exists p w \<longleftrightarrow> mem_fs w p \<noteq> None \<or> p \<in> set (mem_dirs w)"

definition mem_host :: "mem host" where
  "mem_host =
     \<lparr>canonicalize = (\<lambda>p w. (if mem_exists p w then Inr p else bail ''No such file or directory'', w)),
      path_exists = mem_exists, path_is_dir = (\<lambda>p w. p \<in> set (mem_dirs w)),
      file_len = (\<lambda>p w. (case mem_fs w p of None \<Rightarrow> bail ''No such file or directory''
        | Some b \<Rightarrow> Inr (of_nat (length b)), w)),
      file_open = mem_open, file_read = mem_read, file_create = mem_create, file_append = mem_append,
      file_write_all = mem_write_all, file_flush = (\<lambda>h w. (Inr (), w)), rename_path = mem_rename,
      remove_file = mem_unlink,
      create_dir = (\<lambda>p w. (Inr (), w\<lparr>mem_dirs := p # mem_dirs w\<rparr>)),
      create_dir_all = (\<lambda>p w. (Inr (), w\<lparr>mem_dirs := p # mem_dirs w\<rparr>)),
      remove_dir = (\<lambda>p w. (Inr (), w\<lparr>mem_dirs := removeAll p (mem_dirs w)\<rparr>)),
      remove_dir_all = (\<lambda>p w. (Inr (), w\<lparr>mem_dirs := removeAll p (mem_dirs w)\<rparr>)),
      schedule = (\<lambda>n w. (case mem_picks w of [] \<Rightarrow> 0 | k # _ \<Rightarrow> k, w\<lparr>mem_picks := drop 1 (mem_picks w)\<rparr>))\<rparr>"

lemma map_of_filter_path: "map_of (filter (\<lambda>(r, _). r \<noteq> p) xs) = (map_of xs)(p := None)"
  by (induction xs) (auto simp: fun_eq_iff)

lemma mem_host_sel [simp]:
  "file_open mem_host = mem_open" "file_read mem_host = mem_read" "file_create mem_host = mem_create"
  "file_append mem_host = mem_append" "file_write_all mem_host = mem_write_all"
  "file_flush mem_host h w = (Inr (), w)" "rename_path mem_host = mem_rename"
  "remove_file mem_host = mem_unlink"
  "schedule mem_host n w = (case mem_picks w of [] \<Rightarrow> 0 | k # _ \<Rightarrow> k, w\<lparr>mem_picks := drop 1 (mem_picks w)\<rparr>)"
  by (simp_all add: mem_host_def)

interpretation mem_disk: filesystem mem_host mem_fs mem_unread mem_target
  by unfold_locales
    (auto simp: mem_open_def mem_read_def mem_create_def mem_write_all_def mem_rename_def mem_unlink_def
      mem_fs_def mem_unread_def mem_target_def map_of_filter_path fun_eq_iff bail_def Let_def
      split: option.splits list.splits)

lemma request_leaves:
  assumes "\<And>w. g (snd (f w)) = g w" and "\<And>w fs. g (w\<lparr>mem_faults := fs\<rparr>) = g w"
  shows "leaves g (request f)"
proof -
  have "g w'' = g w'" if "f w' = (x, w'')" for w' w'' x using assms(1) [of w'] that by simp
  then show ?thesis
    using assms(2) by (auto simp: leaves_def request_def split: list.splits bool.splits prod.splits)
qed

interpretation mem_machine: machine "mem_env T" mem_view mem_rest mem_host mem_fs mem_unread mem_target for T
proof
  let ?g = "\<lambda>w. (mem_fs w, mem_unread w, mem_target w)"
  show "leaves ?g (put_object (mem_env T) k b)" "leaves ?g (get_object (mem_env T) k)"
    "leaves ?g (delete_object (mem_env T) k)" "leaves ?g (list_objects_v2 (mem_env T) p t)" for k b p t
    by (auto simp: mem_env_def mem_put_def mem_get_def mem_delete_def mem_list_def Let_def
        mem_fs_def mem_unread_def mem_target_def intro!: request_leaves)
  show "leaves ?g (random (mem_env T) n)" "leaves ?g (uuid_v4 (mem_env T))" "leaves ?g (now_unix (mem_env T))" for n
    by (simp_all add: leaves_def mem_env_def effect_defs mem_fs_def mem_unread_def mem_target_def fun_eq_iff)
qed (simp_all add: leaves_def mem_host_def mem_open_def mem_read_def mem_create_def mem_append_def
    mem_write_all_def mem_rename_def mem_unlink_def mem_view_def Let_def split: option.splits)

end
