(* ===== verification/Jobs.thy ===== *)
theory Jobs
  imports Config Utf8 MemEnv "HOL-Library.AList" "HOL-Library.Product_Lexorder"
begin

text \<open>
  crates/agent/src/jobs.rs: detached processes. The table is a \<open>HashMap\<close> behind a mutex; here it
  is an association list in the map's iteration order, and every operation is the whole critical
  section. Each running job has one supervisor task, which ends the job exactly once; the
  inductive relation at the end is every interleaving of those tasks with the commands.
\<close>

section \<open>The table\<close>

definition FINISHED_IN_HEARTBEAT :: nat where "FINISHED_IN_HEARTBEAT = 5"
definition FINISHED_RETAINED :: nat where "FINISHED_RETAINED = 50"
definition DEFAULT_TAIL_BYTES :: nat where "DEFAULT_TAIL_BYTES = 8 * 1024"
definition MAX_TAIL_BYTES :: nat where "MAX_TAIL_BYTES = 256 * 1024"

text \<open>\<open>je_cancel\<close> says whether the cancel sender is still there.\<close>

record job_entry =
  je_status :: job_status
  je_cancel :: bool

type_synonym job_table = "(string \<times> job_entry) list"

definition stdout_path :: "path \<Rightarrow> string \<Rightarrow> path" where
  "stdout_path dir job = path_join dir (job @ ''.out'')"

definition stderr_path :: "path \<Rightarrow> string \<Rightarrow> path" where
  "stderr_path dir job = path_join dir (job @ ''.err'')"

abbreviation finished :: "job_entry \<Rightarrow> bool" where
  "finished e \<equiv> is_terminal (js_state (je_status e))"

definition finish_time :: "job_entry \<Rightarrow> int" where
  "finish_time e = (case js_finished_at (je_status e) of None \<Rightarrow> 0 | Some t \<Rightarrow> t)"

definition prune :: "job_table \<Rightarrow> job_table" where
  "prune table =
     (let done = filter (\<lambda>(id, e). finished e) table in
      if length done \<le> FINISHED_RETAINED then table
      else let oldest = take (length done - FINISHED_RETAINED) (sort_key (\<lambda>(id, e). finish_time e) done) in
        filter (\<lambda>(id, e). id \<notin> fst ` set oldest) table)"

definition job_list :: "job_table \<Rightarrow> job_status list" where
  "job_list table = sort_key (\<lambda>st. (is_terminal (js_state st), - js_started_at st))
     (map (\<lambda>(id, e). je_status e) table)"

definition job_get :: "job_table \<Rightarrow> string \<Rightarrow> job_status option" where
  "job_get table job = map_option je_status (map_of table job)"

definition running_count :: "job_table \<Rightarrow> u32" where
  "running_count table = of_nat (length (filter (\<lambda>(id, e). \<not> finished e) table))"

definition recently_finished :: "job_table \<Rightarrow> job_status list" where
  "recently_finished table = take FINISHED_IN_HEARTBEAT
     (map (\<lambda>(id, e). je_status e)
       (sort_key (\<lambda>(id, e). - finish_time e) (filter (\<lambda>(id, e). finished e) table)))"

section \<open>Starting, cancelling, finishing\<close>

definition job_status_new :: "path \<Rightarrow> string \<Rightarrow> path \<Rightarrow> string option \<Rightarrow> int \<Rightarrow> job_status" where
  "job_status_new dir job program label now =
     \<lparr>js_job = job, js_label = label, js_program = display program, js_state = Running,
      js_started_at = now, js_finished_at = None, js_exit_code = None, js_error = None,
      js_stdout_path = display (stdout_path dir job), js_stderr_path = display (stderr_path dir job)\<rparr>"

text \<open>
  What the process table of the operating system does with \<open>spawn\<close> is the parameter: program,
  arguments, working directory and environment in, the process id out.
\<close>

type_synonym 's spawner = "path \<Rightarrow> string list \<Rightarrow> path option \<Rightarrow> (string \<times> string) list \<Rightarrow> ('s, u32 option) io"

definition job_start :: "'s env \<Rightarrow> 's host \<Rightarrow> 's spawner \<Rightarrow> path \<Rightarrow> job_table \<Rightarrow> string \<Rightarrow> path \<Rightarrow> string list
    \<Rightarrow> path option \<Rightarrow> (string \<times> string) list \<Rightarrow> string option \<Rightarrow> ('s, u32 option \<times> job_table) io" where
  "job_start E H spawn dir table job program args cwd environment label =
     io_then (io_lift (ensure (map_of table job = None) (''job '' @ job @ '' already exists''))) (\<lambda>_.
     io_then (io_context (''create '' @ display (stdout_path dir job)) (file_create H (stdout_path dir job))) (\<lambda>_.
     io_then (io_context (''create '' @ display (stderr_path dir job)) (file_create H (stderr_path dir job))) (\<lambda>_.
     io_then (io_context (''spawn '' @ display program) (spawn program args cwd environment)) (\<lambda>pid.
     io_then (now_unix E) (\<lambda>now.
     io_ok (pid, (job, \<lparr>je_status = job_status_new dir job program label now, je_cancel = True\<rparr>)
       # AList.delete job table))))))"

definition job_cancel :: "job_table \<Rightarrow> string \<Rightarrow> unit res \<times> job_table" where
  "job_cancel table job = (case map_of table job of
     None \<Rightarrow> (bail (''no such job '' @ job), table)
   | Some e \<Rightarrow>
       if finished e then (bail (''job '' @ job @ '' already finished''), table)
       else if je_cancel e then (Inr (), AList.update job (e\<lparr>je_cancel := False\<rparr>) table)
       else (bail (''job '' @ job @ '' is already being cancelled''), table))"

text \<open>How a supervisor's wait can end.\<close>

datatype job_outcome =
    Exited "int option" bool
  | Wait_failed string
  | Supervisor_failed string
  | Ran_too_long u64
  | Was_cancelled

definition outcome_state :: "job_outcome \<Rightarrow> job_state \<times> int option \<times> string option" where
  "outcome_state o' = (case o' of
     Exited code success \<Rightarrow> (if success then Succeeded else Failed, code, None)
   | Wait_failed e \<Rightarrow> (Failed, None, Some (''wait failed: '' @ e))
   | Supervisor_failed e \<Rightarrow> (Failed, None, Some (''supervisor failed: '' @ e))
   | Ran_too_long secs \<Rightarrow> (TimedOut, None, Some (''killed after max_runtime_secs ('' @ dec (unat secs) @ ''s)''))
   | Was_cancelled \<Rightarrow> (Cancelled, None, Some ''cancelled''))"

definition job_finish :: "int \<Rightarrow> job_outcome \<Rightarrow> string \<Rightarrow> job_table \<Rightarrow> job_table" where
  "job_finish now o' job table =
     (case outcome_state o' of (state, code, err) \<Rightarrow>
      prune (case map_of table job of None \<Rightarrow> table
        | Some e \<Rightarrow> AList.update job
            (e\<lparr>je_status := (je_status e)\<lparr>js_state := state, js_exit_code := code, js_error := err,
               js_finished_at := Some now\<rparr>, je_cancel := False\<rparr>) table))"

section \<open>The tail of an output file\<close>

definition tail_limit :: "nat option \<Rightarrow> nat" where
  "tail_limit limit = max 1 (min MAX_TAIL_BYTES (case limit of None \<Rightarrow> DEFAULT_TAIL_BYTES | Some n \<Rightarrow> n))"

definition tail_bytes :: "bytes option \<Rightarrow> nat option \<Rightarrow> bytes \<times> bool" where
  "tail_bytes data limit = (case data of None \<Rightarrow> ([], False)
     | Some b \<Rightarrow> let n = tail_limit limit; truncated = length b > n in
         (take n (if truncated then drop (length b - n) b else b), truncated))"

text \<open>
  Opening, seeking and reading are one operation here: \<open>read\<close> answers \<open>None\<close> where the open
  fails with \<open>NotFound\<close>, and the bytes of the file, or the error of the call that failed.
\<close>

definition job_tail :: "(path \<Rightarrow> ('s, bytes option) io) \<Rightarrow> path \<Rightarrow> nat option \<Rightarrow> ('s, string \<times> bool) io" where
  "job_tail read p limit = io_then (read p) (\<lambda>data.
     case tail_bytes data limit of (b, truncated) \<Rightarrow> io_ok (of_bytes (from_utf8_lossy b), truncated))"

section \<open>Removing old output\<close>

text \<open>
  One entry of the job directory: its path, length and time of modification (nanoseconds since
  the epoch), and the text of the marker beside it, if that could be read. The listing, the clock
  and the two limits of the policy are arguments; durations are nanoseconds too.
\<close>

record log_file =
  lf_path :: path
  lf_len :: u64
  lf_modified :: int
  lf_marker_text :: "string option"

definition ACTIVE_LOG_NANOS :: int where "ACTIVE_LOG_NANOS = 3600 * 1000000000"

definition lf_name :: "log_file \<Rightarrow> string" where
  "lf_name f = (case file_name (lf_path f) of None \<Rightarrow> [] | Some n \<Rightarrow> n)"

definition lf_stem :: "log_file \<Rightarrow> string" where
  "lf_stem f = (case file_stem (lf_path f) of None \<Rightarrow> [] | Some n \<Rightarrow> n)"

definition lf_marker :: "log_file \<Rightarrow> path" where
  "lf_marker f = PathBuf (display (lf_path f) @ ''.shipped'')"

definition job_log :: "log_file \<Rightarrow> bool" where
  "job_log f \<longleftrightarrow> extension (lf_path f) = Some ''out'' \<or> extension (lf_path f) = Some ''err''"

definition agent_log :: "log_file \<Rightarrow> bool" where
  "agent_log f \<longleftrightarrow> starts_with (lf_name f) ''agent.log.''"

definition uploaded :: "log_file \<Rightarrow> bool" where
  "uploaded f \<longleftrightarrow> (case Option.bind (lf_marker_text f) (\<lambda>t. parse_unsigned (2 ^ 64) (trim t)) of
     None \<Rightarrow> 0 | Some n \<Rightarrow> n) \<ge> unat (lf_len f)"

definition lf_age :: "int \<Rightarrow> log_file \<Rightarrow> int" where
  "lf_age now f = max 0 (now - lf_modified f)"

definition active_agent_log :: "int \<Rightarrow> log_file \<Rightarrow> bool" where
  "active_agent_log now f \<longleftrightarrow> agent_log f \<and> lf_age now f < ACTIVE_LOG_NANOS"

definition removable :: "string set \<Rightarrow> int \<Rightarrow> log_file \<Rightarrow> bool" where
  "removable running now f \<longleftrightarrow> uploaded f \<and> lf_stem f \<notin> running \<and> \<not> active_agent_log now f"

fun cleanup_retention :: "'s host \<Rightarrow> string set \<Rightarrow> int \<Rightarrow> int \<Rightarrow> log_file list \<Rightarrow> u64 \<times> u64 \<Rightarrow> ('s, u64 \<times> u64) io" where
  "cleanup_retention H running now retention [] removed = io_ok removed"
| "cleanup_retention H running now retention (f # fs) removed =
     (if removable running now f \<and> retention \<le> lf_age now f
      then io_then (io_attempt (remove_file H (lf_path f))) (\<lambda>r.
        case r of
          Inl _ \<Rightarrow> cleanup_retention H running now retention fs removed
        | Inr _ \<Rightarrow> io_then (io_ignore (remove_file H (lf_marker f))) (\<lambda>_.
            cleanup_retention H running now retention fs (fst removed + 1, snd removed + lf_len f)))
      else cleanup_retention H running now retention fs removed)"

definition sat_sub_u64 :: "u64 \<Rightarrow> u64 \<Rightarrow> u64" where
  "sat_sub_u64 a b = (if b \<le> a then a - b else 0)"

fun cleanup_total :: "'s host \<Rightarrow> string set \<Rightarrow> int \<Rightarrow> u64 \<Rightarrow> log_file list \<Rightarrow> u64 \<Rightarrow> u64 \<times> u64 \<Rightarrow> ('s, u64 \<times> u64) io" where
  "cleanup_total H running now limit [] total_bytes removed = io_ok removed"
| "cleanup_total H running now limit (f # fs) total_bytes removed =
     (if total_bytes \<le> limit then io_ok removed
      else if \<not> removable running now f then cleanup_total H running now limit fs total_bytes removed
      else io_then (io_attempt (remove_file H (lf_path f))) (\<lambda>r.
        case r of
          Inl _ \<Rightarrow> cleanup_total H running now limit fs total_bytes removed
        | Inr _ \<Rightarrow> io_then (io_ignore (remove_file H (lf_marker f))) (\<lambda>_.
            cleanup_total H running now limit fs (sat_sub_u64 total_bytes (lf_len f))
              (fst removed + 1, snd removed + lf_len f))))"

definition running_jobs :: "job_table \<Rightarrow> string set" where
  "running_jobs table = set (map (\<lambda>(id, e). js_job (je_status e)) (filter (\<lambda>(id, e). \<not> finished e) table))"

definition job_cleanup :: "'s host \<Rightarrow> (path \<Rightarrow> ('s, log_file list) io) \<Rightarrow> path \<Rightarrow> job_table \<Rightarrow> int \<Rightarrow> int \<Rightarrow> u64
    \<Rightarrow> ('s, u64 \<times> u64) io" where
  "job_cleanup H read_dir dir table now retention max_total_bytes =
     (let running = running_jobs table in
      io_then (read_dir dir) (\<lambda>listing.
      let logs = filter (\<lambda>f. job_log f \<or> agent_log f) listing in
      io_then (cleanup_retention H running now retention logs (0, 0)) (\<lambda>removed. \<lambda>s.
      let remaining = filter (\<lambda>f. path_exists H (lf_path f) s) logs in
      cleanup_total H running now max_total_bytes (sort_key lf_modified remaining)
        (sum_list (map lf_len remaining)) removed s)))"

section \<open>The table and its supervisors\<close>

text \<open>
  The state of the manager: the table, and the jobs whose supervisor task is still there. The
  command loop is the only task that starts jobs, so between its check and its insertion no
  other job of that name can appear.
\<close>

inductive job_step :: "job_table \<times> string set \<Rightarrow> job_table \<times> string set \<Rightarrow> bool" where
  starts: "map_of table job = None \<Longrightarrow>
    e = \<lparr>je_status = job_status_new dir job program label now, je_cancel = True\<rparr> \<Longrightarrow>
    job_step (table, alive) ((job, e) # AList.delete job table, insert job alive)"
| cancels: "job_step (table, alive) (snd (job_cancel table job), alive)"
| finishes: "job \<in> alive \<Longrightarrow> job_step (table, alive) (job_finish now o' job table, alive - {job})"

inductive_cases job_stepE: "job_step st st'"

definition entry_ok :: "string \<Rightarrow> job_entry \<Rightarrow> bool" where
  "entry_ok job e \<longleftrightarrow> js_job (je_status e) = job
     \<and> (finished e \<longleftrightarrow> js_finished_at (je_status e) \<noteq> None) \<and> (finished e \<longrightarrow> \<not> je_cancel e)"

definition jobs_ok :: "job_table \<times> string set \<Rightarrow> bool" where
  "jobs_ok st = (case st of (table, alive) \<Rightarrow> distinct (map fst table)
     \<and> (\<forall>(job, e) \<in> set table. entry_ok job e \<and> (job \<in> alive \<longleftrightarrow> \<not> finished e))
     \<and> alive \<subseteq> fst ` set table
     \<and> length (filter (\<lambda>(job, e). finished e) table) \<le> FINISHED_RETAINED)"

section \<open>Facts\<close>

lemma take_drop_sort_key:
  "x \<in> set (take n (sort_key f xs)) \<Longrightarrow> y \<in> set (drop n (sort_key f xs)) \<Longrightarrow> f x \<le> f y"
proof -
  assume x: "x \<in> set (take n (sort_key f xs))" and y: "y \<in> set (drop n (sort_key f xs))"
  have "sorted (map f (take n (sort_key f xs)) @ map f (drop n (sort_key f xs)))"
    by (simp flip: map_append)
  with x y show ?thesis by (auto simp: sorted_append)
qed

lemma same_key:
  assumes "distinct (map fst xs)" and "set ys \<subseteq> set xs" and "p \<in> set xs"
  shows "fst p \<in> fst ` set ys \<longleftrightarrow> p \<in> set ys"
proof
  assume "fst p \<in> fst ` set ys"
  then obtain q where q: "q \<in> set ys" "fst q = fst p" by auto
  have "(fst p, snd q) \<in> set xs" using q assms(2) by (metis prod.collapse subsetD)
  moreover have "(fst p, snd p) \<in> set xs" using assms(3) by simp
  ultimately have "snd q = snd p" by (rule eq_key_imp_eq_value [OF assms(1)])
  with q have "q = p" by (simp add: prod_eq_iff)
  with q show "p \<in> set ys" by simp
qed simp

lemma length_filter_out:
  assumes "distinct (map fst xs)" and "set ys \<subseteq> set xs" and "distinct (map fst ys)"
  shows "length (filter (\<lambda>p. fst p \<notin> fst ` set ys) xs) = length xs - length ys"
proof -
  have d: "distinct xs" "distinct ys" using assms by (simp_all add: distinct_map)
  have "filter (\<lambda>p. fst p \<notin> fst ` set ys) xs = filter (\<lambda>p. p \<notin> set ys) xs"
    using same_key [OF assms(1,2)] by (intro filter_cong) simp_all
  then have "length (filter (\<lambda>p. fst p \<notin> fst ` set ys) xs) = card (set (filter (\<lambda>p. p \<notin> set ys) xs))"
    using distinct_card [OF distinct_filter [OF d(1)], of "\<lambda>p. p \<notin> set ys"] by simp
  also have "set (filter (\<lambda>p. p \<notin> set ys) xs) = set xs - set ys" by (simp add: set_diff_eq)
  also have "card \<dots> = card (set xs) - card (set ys)" using assms(2) by (simp add: card_Diff_subset)
  finally show ?thesis using d by (simp add: distinct_card)
qed

lemma map_of_filter_fst:
  "map_of (filter (\<lambda>p. P (fst p)) xs) k = (if P k then map_of xs k else None)"
  by (induction xs) auto

abbreviation done_jobs :: "job_table \<Rightarrow> job_table" where
  "done_jobs table \<equiv> filter (\<lambda>(job, e). finished e) table"

definition oldest :: "job_table \<Rightarrow> job_table" where
  "oldest table = take (length (done_jobs table) - FINISHED_RETAINED)
     (sort_key (\<lambda>(id, e). finish_time e) (done_jobs table))"

lemma prune_alt: "prune table = filter (\<lambda>p. fst p \<notin> fst ` set (oldest table)) table"
  by (simp add: prune_def oldest_def Let_def case_prod_unfold)

lemma oldest_done: "set (oldest table) \<subseteq> set (done_jobs table)"
  using set_take_subset [of "length (done_jobs table) - FINISHED_RETAINED"]
  unfolding oldest_def by (metis set_sort)

lemma map_of_prune:
  "map_of (prune table) job = (if job \<in> fst ` set (oldest table) then None else map_of table job)"
  by (simp add: prune_alt map_of_filter_fst [of "\<lambda>k. k \<notin> fst ` set (oldest table)"])

lemma distinct_oldest:
  assumes "distinct (map fst table)"
  shows "distinct (map fst (oldest table))"
proof -
  have "distinct (map fst (done_jobs table))" using assms by (rule distinct_map_filter)
  then have "distinct (map fst (sort_key (\<lambda>(id, e). finish_time e) (done_jobs table)))"
    by (simp add: distinct_map)
  then show ?thesis unfolding oldest_def by (metis distinct_take take_map)
qed

lemma prune_done:
  assumes "distinct (map fst table)"
  shows "length (done_jobs (prune table)) = min FINISHED_RETAINED (length (done_jobs table))"
proof -
  have "done_jobs (prune table) = filter (\<lambda>p. fst p \<notin> fst ` set (oldest table)) (done_jobs table)"
    by (simp add: prune_alt conj_commute)
  also have "length \<dots> = length (done_jobs table) - length (oldest table)"
    using assms by (intro length_filter_out oldest_done distinct_oldest distinct_map_filter)
  also have "\<dots> = min FINISHED_RETAINED (length (done_jobs table))"
    by (simp add: oldest_def)
  finally show ?thesis .
qed

section \<open>The invariant\<close>

lemma jobs_ok_iff: "jobs_ok (table, alive) \<longleftrightarrow> distinct (map fst table)
   \<and> (\<forall>job e. map_of table job = Some e \<longrightarrow> entry_ok job e \<and> (job \<in> alive \<longleftrightarrow> \<not> finished e))
   \<and> (\<forall>job \<in> alive. map_of table job \<noteq> None)
   \<and> length (done_jobs table) \<le> FINISHED_RETAINED"
proof -
  have "(\<forall>(job, e) \<in> set table. entry_ok job e \<and> (job \<in> alive \<longleftrightarrow> \<not> finished e)) \<longleftrightarrow>
      (\<forall>job e. map_of table job = Some e \<longrightarrow> entry_ok job e \<and> (job \<in> alive \<longleftrightarrow> \<not> finished e))"
    if "distinct (map fst table)"
    using that by (auto simp: map_of_eq_Some_iff)
  moreover have "alive \<subseteq> fst ` set table \<longleftrightarrow> (\<forall>job \<in> alive. map_of table job \<noteq> None)"
    by (auto simp: map_of_eq_None_iff)
  ultimately show ?thesis unfolding jobs_ok_def prod.case by blast
qed

lemma running_not_oldest:
  assumes "distinct (map fst table)" and "map_of table job = Some e" and "\<not> finished e"
  shows "job \<notin> fst ` set (oldest table)"
proof
  assume "job \<in> fst ` set (oldest table)"
  then obtain e' where e': "(job, e') \<in> set table" "finished e'"
    using oldest_done [of table] by auto
  with assms show False by (simp add: map_of_is_SomeI)
qed

lemma done_jobs_update:
  "length (done_jobs (AList.update job e table)) \<le> Suc (length (done_jobs table))"
  by (induction table) auto

lemma done_jobs_delete: "length (done_jobs (AList.delete job table)) \<le> length (done_jobs table)"
  by (induction table) (auto simp: AList.delete_eq)

lemma job_finish_alt:
  assumes "map_of table job = Some e"
  obtains e' where "job_finish now o' job table = prune (AList.update job e' table)"
    and "finished e'" and "entry_ok job e \<longrightarrow> entry_ok job e'"
proof -
  obtain state code err where o': "outcome_state o' = (state, code, err)" by (cases "outcome_state o'")
  then have "is_terminal state"
    by (auto simp: outcome_state_def is_terminal_def split: job_outcome.splits if_splits)
  then show thesis using that o' assms unfolding job_finish_def
    by (simp add: entry_ok_def)
qed

lemma jobs_ok_step:
  assumes "job_step st st'" and "jobs_ok st"
  shows "jobs_ok st'"
  using assms(1)
proof cases
  case (starts table job e dir program label now alive)
  then have "\<not> finished e" "entry_ok job e"
    by (simp_all add: entry_ok_def job_status_new_def is_terminal_def)
  with starts assms(2) done_jobs_delete [of job table]
  have "distinct (map fst ((job, e) # AList.delete job table))"
    "length (done_jobs ((job, e) # AList.delete job table)) \<le> FINISHED_RETAINED"
    by (auto simp: jobs_ok_iff AList.delete_keys distinct_removeAll)
  with starts assms(2) \<open>\<not> finished e\<close> \<open>entry_ok job e\<close> show ?thesis
    by (auto simp: jobs_ok_iff AList.delete_conv')
next
  case (cancels table alive job)
  show ?thesis
  proof (cases "snd (job_cancel table job) = table")
    case True
    with cancels assms(2) show ?thesis by simp
  next
    case False
    then obtain e where e: "map_of table job = Some e" "\<not> finished e"
      "snd (job_cancel table job) = AList.update job (e\<lparr>je_cancel := False\<rparr>) table"
      by (auto simp: job_cancel_def split: option.splits if_splits)
    have "length (done_jobs (AList.update job (e\<lparr>je_cancel := False\<rparr>) table)) = length (done_jobs table)"
      if "map_of table job = Some e"
      using that e(2) by (induction table) auto
    with e cancels assms(2) show ?thesis
      by (auto simp: jobs_ok_iff update_conv' distinct_update entry_ok_def)
  qed
next
  case (finishes job alive table now o')
  with assms(2) obtain e where e: "map_of table job = Some e"
    by (auto simp: jobs_ok_iff)
  then obtain e' where e': "job_finish now o' job table = prune (AList.update job e' table)"
    "finished e'" "entry_ok job e \<longrightarrow> entry_ok job e'"
    by (rule job_finish_alt [where now = now and o' = o'])
  let ?t = "AList.update job e' table"
  have d: "distinct (map fst ?t)" using finishes assms(2) by (simp add: jobs_ok_iff distinct_update)
  have "distinct (map fst (prune ?t))" unfolding prune_alt by (rule distinct_map_filter [OF d])
  moreover have "length (done_jobs (prune ?t)) \<le> FINISHED_RETAINED" using prune_done [OF d] by simp
  moreover have "entry_ok k x \<and> (k \<in> alive - {job} \<longleftrightarrow> \<not> finished x)" if "map_of (prune ?t) k = Some x" for k x
    using that finishes assms(2) e e' by (auto simp: map_of_prune jobs_ok_iff update_conv' split: if_splits)
  moreover have "map_of (prune ?t) k \<noteq> None" if "k \<in> alive - {job}" for k
  proof -
    from that finishes assms(2) obtain x where x: "map_of table k = Some x" "\<not> finished x"
      by (fastforce simp: jobs_ok_iff)
    with that have "map_of ?t k = Some x" by (simp add: update_conv')
    with running_not_oldest [OF d this x(2)] show ?thesis by (simp add: map_of_prune)
  qed
  ultimately show ?thesis using finishes e'(1) by (simp add: jobs_ok_iff)
qed

lemma job_lifecycle_step:
  assumes "job_step st st'" and "jobs_ok st" and "map_of (fst st) job = Some e"
  shows "if finished e then map_of (fst st') job \<in> {None, Some e}
    else (case map_of (fst st') job of
        Some e' \<Rightarrow> je_status e' = je_status e \<or> finished e' \<and> job \<notin> snd st'
      | None \<Rightarrow> job \<notin> snd st')"
  using assms(1)
proof cases
  case (starts table job' e' dir program label now alive)
  with assms(3) show ?thesis by (auto simp: AList.delete_conv')
next
  case (cancels table alive job')
  with assms(3) show ?thesis
    by (auto simp: job_cancel_def update_conv' split: option.splits)
next
  case (finishes job' alive table now o')
  with assms(2) obtain x where x: "map_of table job' = Some x" "\<not> finished x"
    by (fastforce simp: jobs_ok_iff)
  then obtain x' where x': "job_finish now o' job' table = prune (AList.update job' x' table)"
    "finished x'" "entry_ok job' x \<longrightarrow> entry_ok job' x'"
    using job_finish_alt [where now = now and o' = o'] by metis
  let ?t = "AList.update job' x' table"
  have d: "distinct (map fst ?t)" using finishes assms(2) by (simp add: jobs_ok_iff distinct_update)
  show ?thesis
  proof (cases "job = job'")
    case True
    with finishes assms(3) x x'(1,2) show ?thesis
      by (auto simp: map_of_prune update_conv' split: option.splits)
  next
    case False
    with finishes assms(3) have "map_of ?t job = Some e" by (simp add: update_conv')
    with finishes x'(1) running_not_oldest [OF d this] show ?thesis by (auto simp: map_of_prune)
  qed
qed

lemma jobs_ok_empty: "jobs_ok ([], {})"
  by (simp add: jobs_ok_iff)

lemma jobs_reachable:
  assumes "job_step\<^sup>*\<^sup>* ([], {}) st"
  shows "jobs_ok st"
  using assms by (induction rule: rtranclp_induct) (auto intro: jobs_ok_empty jobs_ok_step)

context filesystem begin

lemma attempt_remove:
  assumes "remove_file H p s = (r, s')"
  shows "files s' q = files s q \<or> q = p \<and> files s' q = None"
  using assms remove_file_ok [of p s "()" s'] remove_file_err [of p s _ s'] by (cases r) auto

lemma removes_pair:
  assumes "remove_file H p s = (r, s1)" and "remove_file H p' s1 = (r', s2)"
  shows "files s2 q = files s q \<or> (q = p \<or> q = p') \<and> files s2 q = None"
  using attempt_remove [OF assms(1), of q] attempt_remove [OF assms(2), of q] by auto

definition cleaned :: "(log_file \<Rightarrow> bool) \<Rightarrow> log_file list \<Rightarrow> 's \<Rightarrow> 's \<Rightarrow> path \<Rightarrow> bool" where
  "cleaned P fs s s' q \<longleftrightarrow> files s' q = files s q \<or>
     (\<exists>f \<in> set fs. P f \<and> (q = lf_path f \<or> q = lf_marker f) \<and> files s' q = None)"

lemma cleaned_next: "cleaned P fs s s' q \<Longrightarrow> cleaned P (f # fs) s s' q"
  by (auto simp: cleaned_def)

lemma cleaned_first:
  assumes "remove_file H (lf_path f) s = (r, s1)" and "s2 = s1 \<or> s2 = snd (remove_file H (lf_marker f) s1)"
    and "P f" and "cleaned P fs s2 s' q"
  shows "cleaned P (f # fs) s s' q"
proof -
  obtain r' s3 where m: "remove_file H (lf_marker f) s1 = (r', s3)" by fastforce
  then have "s2 = s1 \<or> s2 = s3" using assms(2) by simp
  then have "files s2 q = files s q \<or> (q = lf_path f \<or> q = lf_marker f) \<and> files s2 q = None"
    using attempt_remove [OF assms(1), of q] attempt_remove [OF m, of q] by auto
  with assms(3,4) show ?thesis by (auto simp: cleaned_def)
qed

lemma cleanup_retention_cleaned:
  "cleanup_retention H running now retention fs removed s = (r, s') \<Longrightarrow>
   cleaned (removable running now) fs s s' q"
proof (induction fs arbitrary: removed s)
  case Nil
  then show ?case by (simp add: cleaned_def)
next
  case (Cons f fs)
  obtain x s1 where x: "remove_file H (lf_path f) s = (x, s1)" by fastforce
  show ?case
  proof (cases "removable running now f \<and> retention \<le> lf_age now f")
    case True
    with Cons.prems x show ?thesis
      by (cases x) (auto simp: io_simps intro: Cons.IH cleaned_first [OF x])
  next
    case False
    then have "cleanup_retention H running now retention fs removed s = (r, s')"
      using Cons.prems by (simp only: cleanup_retention.simps if_False)
    from Cons.IH [OF this] show ?thesis by (rule cleaned_next)
  qed
qed

lemma cleanup_total_cleaned:
  "cleanup_total H running now limit fs total_bytes removed s = (r, s') \<Longrightarrow>
   cleaned (removable running now) fs s s' q"
proof (induction fs arbitrary: total_bytes removed s)
  case Nil
  then show ?case by (simp add: cleaned_def)
next
  case (Cons f fs)
  obtain x s1 where x: "remove_file H (lf_path f) s = (x, s1)" by fastforce
  show ?case
  proof (cases "total_bytes \<le> limit \<or> \<not> removable running now f")
    case True
    with Cons show ?thesis by (auto simp: cleaned_def split: if_splits)
  next
    case False
    with Cons.prems x show ?thesis
      by (cases x) (auto simp: io_simps intro: Cons.IH cleaned_first [OF x])
  qed
qed

lemma job_cleanup_cleaned:
  assumes "read_dir dir s = (Inr listing, s0)"
    and "job_cleanup H read_dir dir table now retention max_total_bytes s = (r, s')"
  shows "cleaned (\<lambda>f. (job_log f \<or> agent_log f) \<and> removable (running_jobs table) now f) listing s0 s' q"
proof -
  let ?logs = "filter (\<lambda>f. job_log f \<or> agent_log f) listing"
  obtain x s1 where x: "cleanup_retention H (running_jobs table) now retention ?logs (0, 0) s0 = (x, s1)"
    by fastforce
  have one: "cleaned (removable (running_jobs table) now) ?logs s0 s1 q"
    by (rule cleanup_retention_cleaned [OF x])
  show ?thesis
  proof (cases x)
    case (Inl e)
    with assms x one show ?thesis by (auto simp: job_cleanup_def Let_def io_simps cleaned_def)
  next
    case (Inr removed)
    let ?rest = "filter (\<lambda>f. path_exists H (lf_path f) s1) ?logs"
    from Inr assms x have "cleanup_total H (running_jobs table) now max_total_bytes (sort_key lf_modified ?rest)
        (sum_list (map lf_len ?rest)) removed s1 = (r, s')"
      by (simp add: job_cleanup_def Let_def io_simps)
    from cleanup_total_cleaned [OF this, of q] one show ?thesis
      by (auto simp: cleaned_def)
  qed
qed

end

lemma as_bytes_of_bytes [simp]: "as_bytes (of_bytes b) = b"
proof -
  have "of_char (char_of (unat x) :: char) = x" for x :: u8
  proof -
    have "unat x < 256" using unsigned_less [of x] by simp
    then have "of_nat (of_char (char_of (unat x))) = x" by simp
    then show ?thesis by (metis of_nat_of_char)
  qed
  then show ?thesis by (simp add: as_bytes_def of_bytes_def o_def)
qed

lemma of_bytes_Nil [simp]: "of_bytes [] = []"
  by (simp add: of_bytes_def)

section \<open>Properties\<close>


definition sample_entry :: "string \<Rightarrow> job_entry" where
  "sample_entry job = \<lparr>je_status = job_status_new (PathBuf ''jobs'') job (PathBuf ''train'') None 7, je_cancel = True\<rparr>"

lemma sample_started: "job_step ([], {}) ([(''j1'', sample_entry ''j1'')], {''j1''})"
  using job_step.starts [of "[]" "''j1''"] by (simp add: sample_entry_def)


text \<open>
  C21. The life of a job: once its status is terminal no later step changes it, it can only be
  dropped from the table; and a job that is running stays in the table with the same status
  until its own supervisor has ended it.
\<close>

theorem job_lifecycle:
  assumes "job_step\<^sup>*\<^sup>* ([], {}) st" and "job_step st st'" and "map_of (fst st) job = Some e"
  shows "if finished e then map_of (fst st') job \<in> {None, Some e}
    else (case map_of (fst st') job of
        Some e' \<Rightarrow> je_status e' = je_status e \<or> finished e' \<and> job \<notin> snd st'
      | None \<Rightarrow> job \<notin> snd st')"
  using job_lifecycle_step [OF assms(2) jobs_reachable [OF assms(1)] assms(3)] .

theorem job_lifecycle_witness:
  "case map_of (fst (job_finish 9 Was_cancelled ''j1'' [(''j1'', sample_entry ''j1'')], {})) ''j1'' of
     Some e' \<Rightarrow> je_status e' = je_status (sample_entry ''j1'') \<or> finished e' | None \<Rightarrow> True"
proof -
  have "job_step ([(''j1'', sample_entry ''j1'')], {''j1''})
      (job_finish 9 Was_cancelled ''j1'' [(''j1'', sample_entry ''j1'')], {''j1''} - {''j1''})"
    by (rule job_step.finishes) simp
  from job_lifecycle [OF r_into_rtranclp [where r = job_step, OF sample_started] this, of "''j1''" "sample_entry ''j1''"]
  show ?thesis
    by (simp add: sample_entry_def job_status_new_def is_terminal_def split: option.splits)
qed

text \<open>
  Pruning forgets the oldest finished jobs and nothing else: every running job keeps its
  entry, the number of finished ones is cut to fifty, and no job that was dropped ended later
  than one that was kept.
\<close>

theorem prune_drops_the_oldest:
  assumes "distinct (map fst table)"
  shows "(\<forall>job e. map_of table job = Some e \<longrightarrow> \<not> finished e \<longrightarrow> map_of (prune table) job = Some e)
    \<and> length (done_jobs (prune table)) = min 50 (length (done_jobs table))
    \<and> (\<forall>(job, e) \<in> set table. (job, e) \<notin> set (prune table) \<longrightarrow>
        finished e \<and> (\<forall>(job', e') \<in> set (done_jobs (prune table)). finish_time e \<le> finish_time e'))"
proof (intro conjI allI impI)
  fix job e assume "map_of table job = Some e" "\<not> finished e"
  then show "map_of (prune table) job = Some e"
    using running_not_oldest [OF assms] by (simp add: map_of_prune)
next
  show "length (done_jobs (prune table)) = min 50 (length (done_jobs table))"
    using prune_done [OF assms] by (simp add: FINISHED_RETAINED_def)
next
  have sub: "set (oldest table) \<subseteq> set table" using oldest_done [of table] by auto
  note key = same_key [OF assms sub]
  let ?n = "length (done_jobs table) - FINISHED_RETAINED" and ?f = "\<lambda>(id, e). finish_time e"
  have "finish_time e \<le> finish_time e'"
    if "(job, e) \<in> set (oldest table)" "(job', e') \<in> set (done_jobs (prune table))" for job e job' e'
  proof -
    from that(2) key [of "(job', e')"] have "(job', e') \<in> set (done_jobs table) - set (oldest table)"
      by (auto simp: prune_alt)
    then have "(job', e') \<in> set (sort_key ?f (done_jobs table)) - set (take ?n (sort_key ?f (done_jobs table)))"
      by (simp add: oldest_def)
    then have "(job', e') \<in> set (drop ?n (sort_key ?f (done_jobs table)))"
      by (metis DiffD1 DiffD2 UnE append_take_drop_id set_append)
    with that(1) have "?f (job, e) \<le> ?f (job', e')"
      unfolding oldest_def by (rule take_drop_sort_key)
    then show ?thesis by simp
  qed
  moreover have "(job, e) \<in> set (oldest table)" if "(job, e) \<in> set table" "(job, e) \<notin> set (prune table)" for job e
    using that key [of "(job, e)"] by (auto simp: prune_alt)
  ultimately show "\<forall>(job, e) \<in> set table. (job, e) \<notin> set (prune table) \<longrightarrow>
      finished e \<and> (\<forall>(job', e') \<in> set (done_jobs (prune table)). finish_time e \<le> finish_time e')"
    using oldest_done [of table] by fastforce
qed

theorem prune_drops_the_oldest_witness:
  "map_of (prune [(''j1'', sample_entry ''j1'')]) ''j1'' = Some (sample_entry ''j1'')"
  using prune_drops_the_oldest [of "[(''j1'', sample_entry ''j1'')]"]
  by (auto simp: sample_entry_def job_status_new_def is_terminal_def)

text \<open>
  C22. Removing old output never removes what is still wanted: whatever the policy, a file that
  is gone afterwards was an output file or agent log that had been uploaded in full, belongs to
  no running job and is not the active agent log, or is the marker of such a file.
\<close>

theorem cleanup_spares_live_output:
  assumes "filesystem H files unread target"
    and "read_dir dir s = (Inr listing, s0)"
    and "job_cleanup H read_dir dir table now retention max_total_bytes s = (r, s')"
  shows "files s' q = files s0 q \<or>
    (\<exists>f \<in> set listing. (job_log f \<or> agent_log f) \<and> uploaded f \<and> lf_stem f \<notin> running_jobs table
      \<and> \<not> active_agent_log now f \<and> (q = lf_path f \<or> q = lf_marker f) \<and> files s' q = None)"
  using filesystem.job_cleanup_cleaned [OF assms, of q]
  unfolding filesystem.cleaned_def [OF assms(1)] removable_def by blast

definition sample_log :: log_file where
  "sample_log = \<lparr>lf_path = PathBuf ''/jobs/j1.out'', lf_len = 4, lf_modified = 0, lf_marker_text = Some ''4''\<rparr>"

theorem cleanup_spares_live_output_witness:
  "mem_fs (snd (job_cleanup mem_host (\<lambda>dir. io_ok [sample_log]) (PathBuf ''/jobs'')
       [(''j1'', sample_entry ''j1'')] 0 0 0 mem_start)) (PathBuf ''/jobs/j1.out'') = mem_fs mem_start (PathBuf ''/jobs/j1.out'')"
proof -
  have "running_jobs [(''j1'', sample_entry ''j1'')] = {''j1''}"
    by (simp add: running_jobs_def sample_entry_def job_status_new_def is_terminal_def)
  moreover have "lf_stem sample_log = ''j1''" by (simp add: sample_log_def) code_simp
  ultimately show ?thesis
    using cleanup_spares_live_output [OF mem_disk.filesystem_axioms,
        of "\<lambda>dir. io_ok [sample_log]" "PathBuf ''/jobs''" mem_start "[sample_log]" mem_start
          "[(''j1'', sample_entry ''j1'')]" 0 0 0 _ _ "PathBuf ''/jobs/j1.out''", OF _ prod.collapse [symmetric]]
    by (simp add: io_simps)
qed

text \<open>
  C23. Reading a job's output gives its end: at most the limit asked for (between one byte and
  256 KiB, 8 KiB by default), flagged as cut exactly when something was left out, always
  well-formed text, byte for byte the file's where the part is well-formed; a job that has not
  written yet reads as empty.
\<close>

theorem job_tail_is_the_end:
  assumes "read p s = (Inr data, s')"
    and "n = max 1 (min (256 * 1024) (case limit of None \<Rightarrow> 8 * 1024 | Some l \<Rightarrow> l))"
  shows "\<exists>tail truncated. job_tail read p limit s = (Inr (tail, truncated), s')
    \<and> utf8_valid (as_bytes tail)
    \<and> (case data of None \<Rightarrow> tail = [] \<and> \<not> truncated
       | Some b \<Rightarrow> (truncated \<longleftrightarrow> n < length b)
           \<and> (utf8_valid (drop (length b - n) b) \<longrightarrow> as_bytes tail = drop (length b - n) b))"
proof -
  obtain b t where bt: "tail_bytes data limit = (b, t)" by fastforce
  have n: "tail_limit limit = n"
    using assms(2) by (simp add: tail_limit_def MAX_TAIL_BYTES_def DEFAULT_TAIL_BYTES_def cong: option.case_cong)
  have "case data of None \<Rightarrow> b = [] \<and> \<not> t | Some c \<Rightarrow> b = drop (length c - n) c \<and> (t \<longleftrightarrow> n < length c)"
    using bt n by (auto simp: tail_bytes_def Let_def split: option.splits if_splits)
  moreover have "job_tail read p limit s = (Inr (of_bytes (from_utf8_lossy b), t), s')"
    using assms(1) bt by (simp add: job_tail_def io_simps)
  ultimately show ?thesis
    using lossy_valid [of b] lossy_exact [of b] by (auto split: option.splits)
qed

theorem job_tail_is_the_end_witness:
  "\<exists>tail truncated. job_tail (\<lambda>p. io_ok (Some [0x61, 0x62, 0x63])) (PathBuf ''x'') (Some 2) () = (Inr (tail, truncated), ())
    \<and> as_bytes tail = [0x62, 0x63] \<and> truncated"
  using job_tail_is_the_end [of "\<lambda>p. io_ok (Some [0x61, 0x62, 0x63])" "PathBuf ''x''" "()" "Some [0x61, 0x62, 0x63]" "()" 2 "Some 2"]
  by auto

end
