(* ===== verification/Transport.thy ===== *)
theory Transport
  imports Crypto
begin

text \<open>
  crates/common/src/transport.rs: the encrypted mailbox over the bucket. A transport is its key
  prefix and its credentials; the client and the bucket name are in the environment \<open>E\<close>.
  Every operation is a computation over the outside world that fails as the code's \<open>?\<close> does;
  what the code does with \<open>let _ =\<close> or logs and continues is \<open>io_ignore\<close>.
\<close>

section \<open>Limits and keys\<close>

definition MAX_RELAY_OBJECT_BYTES :: nat where "MAX_RELAY_OBJECT_BYTES = 4 * 1024 * 1024"
definition MAX_LISTED_OBJECTS :: nat where "MAX_LISTED_OBJECTS = 10000"
definition RESPONSE_POLL_CEILING :: nat where "RESPONSE_POLL_CEILING = 2000"
definition BLOB_CHUNK_BYTES :: nat where "BLOB_CHUNK_BYTES = 8 * 1024 * 1024"
definition MAX_BLOB_CHUNK_BYTES :: nat where "MAX_BLOB_CHUNK_BYTES = 64 * 1024 * 1024"

record transport =
  tp_prefix :: string
  tp_crypto :: crypto

definition cmd_prefix :: "transport \<Rightarrow> string \<Rightarrow> string" where
  "cmd_prefix T agent = tp_prefix T @ ''cmd/'' @ agent @ ''/''"

definition cmd_key :: "transport \<Rightarrow> string \<Rightarrow> string \<Rightarrow> string" where
  "cmd_key T agent msg = tp_prefix T @ ''cmd/'' @ agent @ ''/'' @ msg @ ''.json''"

definition resp_key :: "transport \<Rightarrow> string \<Rightarrow> string \<Rightarrow> string" where
  "resp_key T agent msg = tp_prefix T @ ''resp/'' @ agent @ ''/'' @ msg @ ''.json''"

definition agents_prefix :: "transport \<Rightarrow> string" where
  "agents_prefix T = tp_prefix T @ ''agents/''"

definition agent_key :: "transport \<Rightarrow> string \<Rightarrow> string" where
  "agent_key T agent = tp_prefix T @ ''agents/'' @ agent @ ''.json''"

definition doorbell_key :: "transport \<Rightarrow> string \<Rightarrow> string" where
  "doorbell_key T agent = tp_prefix T @ ''doorbell/'' @ agent @ ''.json''"

definition log_prefix :: "transport \<Rightarrow> string \<Rightarrow> string" where
  "log_prefix T agent = tp_prefix T @ ''logs/'' @ agent @ ''/''"

definition log_key :: "transport \<Rightarrow> log_chunk \<Rightarrow> string" where
  "log_key T chunk = log_prefix T (lc_agent_id chunk) @ lc_source chunk @ ''-''
     @ dec_padded 20 (unat (lc_offset chunk)) @ ''.json''"

definition blob_prefix :: "transport \<Rightarrow> string \<Rightarrow> string \<Rightarrow> string" where
  "blob_prefix T agent transfer = tp_prefix T @ ''blob/'' @ agent @ ''/'' @ transfer @ ''/''"

definition blob_chunk_key :: "transport \<Rightarrow> string \<Rightarrow> string \<Rightarrow> u32 \<Rightarrow> string" where
  "blob_chunk_key T agent transfer index = blob_prefix T agent transfer @ dec_padded 8 (unat index)"

definition update_manifest_key :: "transport \<Rightarrow> string \<Rightarrow> string" where
  "update_manifest_key T agent = tp_prefix T @ ''updates/manifest/'' @ agent @ ''.json''"

definition release_prefix :: "transport \<Rightarrow> string \<Rightarrow> string" where
  "release_prefix T release = tp_prefix T @ ''updates/blob/'' @ release @ ''/''"

definition release_chunk_key :: "transport \<Rightarrow> string \<Rightarrow> u32 \<Rightarrow> string" where
  "release_chunk_key T release index = release_prefix T release @ dec_padded 8 (unat index)"

definition share_prefix :: "transport \<Rightarrow> string \<Rightarrow> string" where
  "share_prefix T name = tp_prefix T @ ''share/'' @ name @ ''/''"

definition share_manifest_key :: "transport \<Rightarrow> string \<Rightarrow> string" where
  "share_manifest_key T name = share_prefix T name @ ''manifest''"

definition share_chunk_key :: "transport \<Rightarrow> string \<Rightarrow> u32 \<Rightarrow> string" where
  "share_chunk_key T name index = share_prefix T name @ dec_padded 8 (unat index)"

section \<open>Objects\<close>

definition delete_key :: "'s env \<Rightarrow> string \<Rightarrow> ('s, unit) io" where
  "delete_key E key = io_context (''delete_object '' @ key) (delete_object E key)"

definition put_raw :: "'s env \<Rightarrow> string \<Rightarrow> bytes \<Rightarrow> ('s, unit) io" where
  "put_raw E key body = io_context (''put_object '' @ key) (put_object E key body)"

definition put_encrypted :: "'s env \<Rightarrow> transport \<Rightarrow> 'a codec \<Rightarrow> string \<Rightarrow> 'a \<Rightarrow> ('s, unit) io" where
  "put_encrypted E T codec key value =
     io_then (seal E (tp_crypto T) codec key value) (\<lambda>body.
     io_then (io_lift (ensure (\<not> length body > MAX_RELAY_OBJECT_BYTES)
       (''encrypted relay object exceeds '' @ dec MAX_RELAY_OBJECT_BYTES @ '' bytes''))) (\<lambda>_.
     put_raw E key body))"

definition get_raw :: "'s env \<Rightarrow> string \<Rightarrow> nat \<Rightarrow> ('s, bytes option) io" where
  "get_raw E key max_bytes =
     io_then (io_context (''get_object '' @ key) (get_object E key)) (\<lambda>out.
     case out of
       None \<Rightarrow> io_ok None
     | Some obj \<Rightarrow>
         let too_big = ''S3 relay object '' @ key @ '' exceeds '' @ dec max_bytes @ '' bytes'' in
         io_then (io_lift (ensure (case so_content_length obj of None \<Rightarrow> True
             | Some len \<Rightarrow> \<not> (len < 0 \<or> len > int max_bytes)) too_big)) (\<lambda>_.
         io_then (io_lift (with_context ''read S3 object body'' (so_body obj))) (\<lambda>body.
         let kept = take (max_bytes + 1) body in
         io_then (io_lift (ensure (\<not> length kept > max_bytes) too_big)) (\<lambda>_.
         io_ok (Some kept)))))"

definition get_encrypted :: "'s env \<Rightarrow> transport \<Rightarrow> 'a codec \<Rightarrow> string \<Rightarrow> ('s, 'a option) io" where
  "get_encrypted E T codec key =
     io_then (get_raw E key MAX_RELAY_OBJECT_BYTES) (\<lambda>r.
     case r of
       None \<Rightarrow> io_ok None
     | Some raw \<Rightarrow> io_then (io_lift (open_sealed E (tp_crypto T) codec key raw)) (\<lambda>v. io_ok (Some v)))"

definition take_encrypted :: "'s env \<Rightarrow> transport \<Rightarrow> 'a codec \<Rightarrow> string \<Rightarrow> ('s, 'a option) io" where
  "take_encrypted E T codec key =
     io_then (get_raw E key MAX_RELAY_OBJECT_BYTES) (\<lambda>r.
     case r of
       None \<Rightarrow> io_ok None
     | Some raw \<Rightarrow>
         io_then (delete_key E key) (\<lambda>_.
         io_then (io_lift (open_sealed E (tp_crypto T) codec key raw)) (\<lambda>v. io_ok (Some v))))"

section \<open>Listing\<close>

fun collect_keys :: "string list \<Rightarrow> (string option \<times> int option) list \<Rightarrow> string list res" where
  "collect_keys keys [] = Inr keys"
| "collect_keys keys ((None, t) # rest) = collect_keys keys rest"
| "collect_keys keys ((Some k, t) # rest) =
     (if length keys \<ge> MAX_LISTED_OBJECTS
      then bail (''relay prefix contains more than '' @ dec MAX_LISTED_OBJECTS @ '' objects'')
      else collect_keys (keys @ [k]) rest)"

text \<open>
  The paging loop. The code bounds the keys, not the pages, so the model carries fuel; the
  error of running out is the empty chain, which no error of the code is, and
  \<open>list_keys_returns\<close> below shows that it never appears.
\<close>

fun list_loop :: "'s env \<Rightarrow> string \<Rightarrow> nat \<Rightarrow> string option \<Rightarrow> string list \<Rightarrow> ('s, string list) io" where
  "list_loop E p 0 token keys = io_lift (Inl [])"
| "list_loop E p (Suc fuel) token keys =
     io_then (io_context (''list_objects_v2 '' @ p) (list_objects_v2 E p token)) (\<lambda>page.
     io_then (io_lift (collect_keys keys (lp_contents page))) (\<lambda>keys'.
     if lp_is_truncated page = Some True
     then list_loop E p fuel (lp_next_token page) keys'
     else io_ok keys'))"

definition list_keys :: "'s env \<Rightarrow> string \<Rightarrow> ('s, string list) io" where
  "list_keys E p = list_loop E p (MAX_LISTED_OBJECTS + 2) None []"

text \<open>Deleting every listed key, going on after a failure.\<close>

fun delete_each :: "'s env \<Rightarrow> string list \<Rightarrow> ('s, unit) io" where
  "delete_each E [] = io_ok ()"
| "delete_each E (k # ks) = io_then (io_ignore (delete_key E k)) (\<lambda>_. delete_each E ks)"

section \<open>Commands and responses\<close>

definition ring_doorbell :: "'s env \<Rightarrow> transport \<Rightarrow> string \<Rightarrow> ('s, unit) io" where
  "ring_doorbell E T agent =
     io_then (io_lift (validate_agent_id agent)) (\<lambda>_.
     io_then (now_unix E) (\<lambda>now.
     put_encrypted E T (doorbell_json E) (doorbell_key T agent) \<lparr>db_agent_id = agent, db_at = now\<rparr>))"

definition send_command :: "'s env \<Rightarrow> transport \<Rightarrow> command \<Rightarrow> ('s, unit) io" where
  "send_command E T cmd =
     io_then (io_lift (validate_agent_id (cmd_agent_id cmd))) (\<lambda>_.
     io_then (put_encrypted E T (command_json E) (cmd_key T (cmd_agent_id cmd) (cmd_id cmd)) cmd) (\<lambda>_.
     io_ignore (ring_doorbell E T (cmd_agent_id cmd))))"

definition head_tag :: "'s env \<Rightarrow> string \<Rightarrow> ('s, string option) io" where
  "head_tag E key =
     io_then (io_context (''head_object '' @ key) (head_object E key)) (\<lambda>out.
     io_ok (case out of None \<Rightarrow> None | Some tag \<Rightarrow> tag))"

definition doorbell_tag :: "'s env \<Rightarrow> transport \<Rightarrow> string \<Rightarrow> ('s, string option) io" where
  "doorbell_tag E T agent =
     io_then (io_lift (validate_agent_id agent)) (\<lambda>_. head_tag E (doorbell_key T agent))"

definition delete_command :: "'s env \<Rightarrow> transport \<Rightarrow> command \<Rightarrow> ('s, unit) io" where
  "delete_command E T cmd =
     io_then (io_lift (validate_agent_id (cmd_agent_id cmd))) (\<lambda>_.
     delete_key E (cmd_key T (cmd_agent_id cmd) (cmd_id cmd)))"

text \<open>
  The response poll: \<open>None\<close> of the outer option is a poll that never ends, which
  \<open>await_response_returns\<close> excludes.
\<close>

partial_function (option) await_loop ::
  "'s env \<Rightarrow> transport \<Rightarrow> command \<Rightarrow> nat \<Rightarrow> nat \<Rightarrow> nat \<Rightarrow> 's \<Rightarrow> (response option res \<times> 's) option"
where
  "await_loop E T cmd deadline ceiling interval s =
     (case take_encrypted E T (response_json E) (resp_key T (cmd_agent_id cmd) (cmd_id cmd)) s of
        (Inl e, s1) \<Rightarrow> Some (Inl e, s1)
      | (Inr (Some r), s1) \<Rightarrow>
          Some (io_then (now_unix E) (\<lambda>now.
            io_then (io_lift (validate_response_for now r cmd)) (\<lambda>_. io_ok (Some r))) s1)
      | (Inr None, s1) \<Rightarrow>
          (case instant_ms E s1 of (now, s2) \<Rightarrow>
            if deadline \<le> now then Some (Inr None, s2)
            else await_loop E T cmd deadline ceiling (min (interval * 2) ceiling)
              (sleep_ms E (min interval (deadline - now)) s2)))"

definition await_response ::
  "'s env \<Rightarrow> transport \<Rightarrow> command \<Rightarrow> nat \<Rightarrow> nat \<Rightarrow> 's \<Rightarrow> (response option res \<times> 's) option" where
  "await_response E T cmd timeout initial_interval s =
     (case instant_ms E s of (start, s1) \<Rightarrow>
       await_loop E T cmd (start + timeout) (max initial_interval RESPONSE_POLL_CEILING)
         initial_interval s1)"

definition for_other_instance :: "string \<Rightarrow> command \<Rightarrow> bool" where
  "for_other_instance inst cmd = (case cmd_instance cmd of None \<Rightarrow> False | Some target \<Rightarrow> target \<noteq> inst)"

fun drain_loop :: "'s env \<Rightarrow> transport \<Rightarrow> string \<Rightarrow> string list \<Rightarrow> command list \<Rightarrow> ('s, command list) io" where
  "drain_loop E T inst [] acc = io_ok acc"
| "drain_loop E T inst (key # keys) acc =
     io_then (get_raw E key MAX_RELAY_OBJECT_BYTES) (\<lambda>r.
     case r of
       None \<Rightarrow> drain_loop E T inst keys acc
     | Some raw \<Rightarrow>
         (case open_sealed E (tp_crypto T) (command_json E) key raw of
            Inl e \<Rightarrow> io_then (io_ignore (delete_key E key)) (\<lambda>_. drain_loop E T inst keys acc)
          | Inr cmd \<Rightarrow>
              if for_other_instance inst cmd then drain_loop E T inst keys acc
              else io_then (delete_key E key) (\<lambda>_. drain_loop E T inst keys (acc @ [cmd]))))"

definition drain_commands :: "'s env \<Rightarrow> transport \<Rightarrow> string \<Rightarrow> string \<Rightarrow> ('s, command list) io" where
  "drain_commands E T agent inst =
     io_then (io_lift (validate_agent_id agent)) (\<lambda>_.
     io_then (list_keys E (cmd_prefix T agent)) (\<lambda>keys.
     io_then (drain_loop E T inst keys []) (\<lambda>cmds.
     io_ok (sort_key cmd_created_at cmds))))"

definition send_response :: "'s env \<Rightarrow> transport \<Rightarrow> response \<Rightarrow> ('s, unit) io" where
  "send_response E T resp =
     io_then (io_lift (validate_agent_id (resp_agent_id resp))) (\<lambda>_.
     put_encrypted E T (response_json E) (resp_key T (resp_agent_id resp) (resp_id resp)) resp)"

section \<open>Chunks: bulk transfers, releases, shared files\<close>

definition put_chunk :: "'s env \<Rightarrow> crypto \<Rightarrow> string \<Rightarrow> string \<Rightarrow> bytes \<Rightarrow> ('s, unit) io" where
  "put_chunk E cr what key data =
     io_then (io_lift (ensure (\<not> length data > MAX_BLOB_CHUNK_BYTES)
       (what @ '' chunk exceeds '' @ dec MAX_BLOB_CHUNK_BYTES @ '' bytes''))) (\<lambda>_.
     io_then (seal_bytes E cr key data) (\<lambda>body. put_raw E key body))"

definition get_chunk :: "'s env \<Rightarrow> crypto \<Rightarrow> string \<Rightarrow> ('s, bytes option) io" where
  "get_chunk E cr key =
     io_then (get_raw E key MAX_BLOB_CHUNK_BYTES) (\<lambda>r.
     case r of
       None \<Rightarrow> io_ok None
     | Some raw \<Rightarrow> io_then (io_lift (open_bytes E cr key raw)) (\<lambda>pt. io_ok (Some pt)))"

definition put_blob_chunk :: "'s env \<Rightarrow> transport \<Rightarrow> string \<Rightarrow> string \<Rightarrow> u32 \<Rightarrow> bytes \<Rightarrow> ('s, unit) io" where
  "put_blob_chunk E T agent transfer index data =
     io_then (io_lift (validate_agent_id agent)) (\<lambda>_.
     io_then (io_lift (validate_transfer_id (uuid_ok E) transfer)) (\<lambda>_.
     put_chunk E (tp_crypto T) ''blob'' (blob_chunk_key T agent transfer index) data))"

definition get_blob_chunk :: "'s env \<Rightarrow> transport \<Rightarrow> string \<Rightarrow> string \<Rightarrow> u32 \<Rightarrow> ('s, bytes option) io" where
  "get_blob_chunk E T agent transfer index =
     io_then (io_lift (validate_agent_id agent)) (\<lambda>_.
     io_then (io_lift (validate_transfer_id (uuid_ok E) transfer)) (\<lambda>_.
     get_chunk E (tp_crypto T) (blob_chunk_key T agent transfer index)))"

definition delete_blob :: "'s env \<Rightarrow> transport \<Rightarrow> string \<Rightarrow> string \<Rightarrow> ('s, unit) io" where
  "delete_blob E T agent transfer =
     io_then (io_lift (validate_agent_id agent)) (\<lambda>_.
     io_then (io_lift (validate_transfer_id (uuid_ok E) transfer)) (\<lambda>_.
     io_then (list_keys E (blob_prefix T agent transfer)) (\<lambda>keys. delete_each E keys)))"

definition put_update_manifest :: "'s env \<Rightarrow> transport \<Rightarrow> update_manifest \<Rightarrow> ('s, unit) io" where
  "put_update_manifest E T m =
     io_then (io_lift (validate_agent_id (um_agent_id m))) (\<lambda>_.
     io_then (io_lift (validate_transfer_id (uuid_ok E) (um_release m))) (\<lambda>_.
     put_encrypted E T (update_manifest_json E) (update_manifest_key T (um_agent_id m)) m))"

definition read_update_manifest :: "'s env \<Rightarrow> transport \<Rightarrow> string \<Rightarrow> ('s, update_manifest option) io" where
  "read_update_manifest E T agent =
     io_then (io_lift (validate_agent_id agent)) (\<lambda>_.
     let key = update_manifest_key T agent in
     io_then (get_encrypted E T (update_manifest_json E) key) (\<lambda>r.
     case r of
       None \<Rightarrow> io_ok None
     | Some m \<Rightarrow>
         io_then (io_lift (ensure (um_agent_id m = agent)
           (''update manifest at '' @ key @ '' names a different agent''))) (\<lambda>_.
         io_then (io_lift (validate_transfer_id (uuid_ok E) (um_release m))) (\<lambda>_.
         io_ok (Some m)))))"

definition update_manifest_tag :: "'s env \<Rightarrow> transport \<Rightarrow> string \<Rightarrow> ('s, string option) io" where
  "update_manifest_tag E T agent =
     io_then (io_lift (validate_agent_id agent)) (\<lambda>_. head_tag E (update_manifest_key T agent))"

definition delete_update_manifest :: "'s env \<Rightarrow> transport \<Rightarrow> string \<Rightarrow> ('s, unit) io" where
  "delete_update_manifest E T agent =
     io_then (io_lift (validate_agent_id agent)) (\<lambda>_. delete_key E (update_manifest_key T agent))"

definition put_release_chunk :: "'s env \<Rightarrow> transport \<Rightarrow> string \<Rightarrow> u32 \<Rightarrow> bytes \<Rightarrow> crypto \<Rightarrow> ('s, unit) io" where
  "put_release_chunk E T release index data cr =
     io_then (io_lift (validate_transfer_id (uuid_ok E) release)) (\<lambda>_.
     put_chunk E cr ''release'' (release_chunk_key T release index) data)"

definition get_release_chunk :: "'s env \<Rightarrow> transport \<Rightarrow> string \<Rightarrow> u32 \<Rightarrow> crypto \<Rightarrow> ('s, bytes option) io" where
  "get_release_chunk E T release index cr =
     io_then (io_lift (validate_transfer_id (uuid_ok E) release)) (\<lambda>_.
     get_chunk E cr (release_chunk_key T release index))"

definition delete_release :: "'s env \<Rightarrow> transport \<Rightarrow> string \<Rightarrow> ('s, unit) io" where
  "delete_release E T release =
     io_then (io_lift (validate_transfer_id (uuid_ok E) release)) (\<lambda>_.
     io_then (list_keys E (release_prefix T release)) (\<lambda>keys. delete_each E keys))"

definition put_share_chunk :: "'s env \<Rightarrow> transport \<Rightarrow> string \<Rightarrow> u32 \<Rightarrow> bytes \<Rightarrow> crypto \<Rightarrow> ('s, unit) io" where
  "put_share_chunk E T name index data cr =
     io_then (io_lift (validate_share_name name)) (\<lambda>_.
     put_chunk E cr ''share'' (share_chunk_key T name index) data)"

definition get_share_chunk :: "'s env \<Rightarrow> transport \<Rightarrow> string \<Rightarrow> u32 \<Rightarrow> crypto \<Rightarrow> ('s, bytes option) io" where
  "get_share_chunk E T name index cr =
     io_then (io_lift (validate_share_name name)) (\<lambda>_.
     get_chunk E cr (share_chunk_key T name index))"

definition put_share_manifest :: "'s env \<Rightarrow> transport \<Rightarrow> share_manifest \<Rightarrow> crypto \<Rightarrow> ('s, unit) io" where
  "put_share_manifest E T m cr =
     io_then (io_lift (validate_share_name (sm_name m))) (\<lambda>_.
     let key = share_manifest_key T (sm_name m) in
     io_then (seal E cr (share_manifest_json E) key m) (\<lambda>body. put_raw E key body))"

definition read_share_manifest :: "'s env \<Rightarrow> transport \<Rightarrow> string \<Rightarrow> crypto \<Rightarrow> ('s, share_manifest option) io" where
  "read_share_manifest E T name cr =
     io_then (io_lift (validate_share_name name)) (\<lambda>_.
     let key = share_manifest_key T name in
     io_then (get_raw E key MAX_RELAY_OBJECT_BYTES) (\<lambda>r.
     case r of
       None \<Rightarrow> io_ok None
     | Some raw \<Rightarrow>
         io_then (io_lift (open_sealed E cr (share_manifest_json E) key raw)) (\<lambda>m.
         io_then (io_lift (ensure (sm_name m = name)
           (''share manifest at '' @ key @ '' names a different file''))) (\<lambda>_.
         io_ok (Some m)))))"

text \<open>The shared-area name a manifest key stands for, if it stands for one.\<close>

definition share_name_of :: "string \<Rightarrow> string \<Rightarrow> string option" where
  "share_name_of p key =
     Option.bind (strip_prefix p key) (\<lambda>rest.
     Option.bind (strip_suffix ''/manifest'' rest) (\<lambda>name.
     if is_ok (validate_share_name name) then Some name else None))"

definition list_shares :: "'s env \<Rightarrow> transport \<Rightarrow> ('s, string list) io" where
  "list_shares E T =
     (let p = tp_prefix T @ ''share/'' in
      io_then (list_keys E p) (\<lambda>keys. io_ok (sort (List.map_filter (share_name_of p) keys))))"

definition delete_share :: "'s env \<Rightarrow> transport \<Rightarrow> string \<Rightarrow> ('s, unit) io" where
  "delete_share E T name =
     io_then (io_lift (validate_share_name name)) (\<lambda>_.
     io_then (io_ignore (delete_key E (share_manifest_key T name))) (\<lambda>_.
     io_then (list_keys E (share_prefix T name)) (\<lambda>keys. delete_each E keys)))"

section \<open>Heartbeats and logs\<close>

definition write_heartbeat :: "'s env \<Rightarrow> transport \<Rightarrow> heartbeat \<Rightarrow> ('s, unit) io" where
  "write_heartbeat E T hb =
     io_then (io_lift (validate_agent_id (hb_agent_id hb))) (\<lambda>_.
     put_encrypted E T (heartbeat_json E) (agent_key T (hb_agent_id hb)) hb)"

definition delete_heartbeat :: "'s env \<Rightarrow> transport \<Rightarrow> string \<Rightarrow> ('s, unit) io" where
  "delete_heartbeat E T agent =
     io_then (io_lift (validate_agent_id agent)) (\<lambda>_. delete_key E (agent_key T agent))"

definition read_heartbeat :: "'s env \<Rightarrow> transport \<Rightarrow> string \<Rightarrow> ('s, heartbeat option) io" where
  "read_heartbeat E T agent =
     io_then (io_lift (validate_agent_id agent)) (\<lambda>_.
     io_then (get_encrypted E T (heartbeat_json E) (agent_key T agent)) (\<lambda>r.
     case r of
       None \<Rightarrow> io_ok None
     | Some hb \<Rightarrow> io_then (now_unix E) (\<lambda>now. io_ok (if is_stale now hb then None else Some hb))))"

definition log_source_char :: "char \<Rightarrow> bool" where
  "log_source_char c \<longleftrightarrow> is_ascii_alphanumeric c \<or> c = CHR ''.'' \<or> c = CHR ''-'' \<or> c = CHR ''_''"

definition publish_log_chunk :: "'s env \<Rightarrow> transport \<Rightarrow> log_chunk \<Rightarrow> ('s, unit) io" where
  "publish_log_chunk E T chunk =
     io_then (io_lift (validate_agent_id (lc_agent_id chunk))) (\<lambda>_.
     io_then (io_lift (ensure (\<not> (lc_source chunk = [] \<or> length (lc_source chunk) > 96
         \<or> \<not> list_all log_source_char (lc_source chunk))) ''unsafe log source name'')) (\<lambda>_.
     put_encrypted E T (log_chunk_json E) (log_key T chunk) chunk))"

fun fetch_log_chunks :: "'s env \<Rightarrow> transport \<Rightarrow> string list \<Rightarrow> (string \<times> log_chunk) list
    \<Rightarrow> ('s, (string \<times> log_chunk) list) io" where
  "fetch_log_chunks E T [] acc = io_ok acc"
| "fetch_log_chunks E T (k # ks) acc =
     io_then (get_encrypted E T (log_chunk_json E) k) (\<lambda>r.
     fetch_log_chunks E T ks (case r of None \<Rightarrow> acc | Some c \<Rightarrow> acc @ [(k, c)]))"

definition pending_log_chunks :: "'s env \<Rightarrow> transport \<Rightarrow> string \<Rightarrow> ('s, (string \<times> log_chunk) list) io" where
  "pending_log_chunks E T agent =
     io_then (io_lift (validate_agent_id agent)) (\<lambda>_.
     io_then (list_keys E (log_prefix T agent)) (\<lambda>keys.
     fetch_log_chunks E T (sort keys) []))"

definition acknowledge_log_chunk :: "'s env \<Rightarrow> transport \<Rightarrow> string \<Rightarrow> ('s, unit) io" where
  "acknowledge_log_chunk E T key =
     io_then (io_lift (ensure (starts_with key (tp_prefix T @ ''logs/'')) ''invalid log object key'')) (\<lambda>_.
     delete_key E key)"

definition misrouted :: "transport \<Rightarrow> string \<Rightarrow> heartbeat \<Rightarrow> bool" where
  "misrouted T key hb \<longleftrightarrow> \<not> is_ok (validate_agent_id (hb_agent_id hb))
     \<or> agent_key T (hb_agent_id hb) \<noteq> key \<or> hb_ttl_secs hb \<le> 0 \<or> hb_ttl_secs hb > 3600"

fun heartbeat_loop_list :: "'s env \<Rightarrow> transport \<Rightarrow> string list \<Rightarrow> heartbeat list \<Rightarrow> ('s, heartbeat list) io" where
  "heartbeat_loop_list E T [] live = io_ok live"
| "heartbeat_loop_list E T (key # keys) live =
     io_then (io_attempt (get_encrypted E T (heartbeat_json E) key)) (\<lambda>r.
     case r of
       Inr (Some hb) \<Rightarrow>
         if misrouted T key hb
         then io_then (io_ignore (delete_key E key)) (\<lambda>_. heartbeat_loop_list E T keys live)
         else io_then (now_unix E) (\<lambda>now.
           if is_stale now hb
           then io_then (io_ignore (delete_key E key)) (\<lambda>_. heartbeat_loop_list E T keys live)
           else heartbeat_loop_list E T keys (live @ [hb]))
     | Inr None \<Rightarrow> heartbeat_loop_list E T keys live
     | Inl e \<Rightarrow> io_then (io_ignore (delete_key E key)) (\<lambda>_. heartbeat_loop_list E T keys live))"

definition list_heartbeats :: "'s env \<Rightarrow> transport \<Rightarrow> ('s, heartbeat list) io" where
  "list_heartbeats E T =
     io_then (list_keys E (agents_prefix T)) (\<lambda>keys.
     io_then (heartbeat_loop_list E T keys []) (\<lambda>live.
     io_ok (sort_key hb_agent_id live)))"

end
