(* ===== verification/Blob.thy ===== *)
theory Blob
  imports Transport Config Host
begin

text \<open>
  crates/common/src/blob.rs: the two halves of a bulk transfer. A source file is read in
  chunks that are uploaded a few at a time; a staged transfer is assembled into a temporary
  sibling, checked against its manifest and renamed into place. \<open>Hasher\<close> is the bytes fed to
  it so far, since SHA-256 is a function of their concatenation.

  A task in flight is its chunk; it runs, whole, when the scheduler picks it. The ones still
  in flight when an upload fails are dropped without running.
\<close>

section \<open>Manifest, hash, sizes\<close>

record manifest =
  mf_chunks :: u32
  mf_total_bytes :: u64
  mf_sha256 :: string

definition hex_digits :: string where "hex_digits = ''0123456789abcdef''"

definition hex :: "bytes \<Rightarrow> string" where
  "hex bs = concat (map (\<lambda>b. [hex_digits ! (unat b div 16), hex_digits ! (unat b mod 16)]) bs)"

type_synonym hasher = bytes

definition hasher_new :: hasher where "hasher_new = []"

definition hasher_update :: "hasher \<Rightarrow> bytes \<Rightarrow> hasher" where "hasher_update h d = h @ d"

definition finish_hex :: "'z libs_scheme \<Rightarrow> hasher \<Rightarrow> string" where
  "finish_hex E h = hex (sha256 E h)"

definition sha256_hex :: "'z libs_scheme \<Rightarrow> bytes \<Rightarrow> string" where
  "sha256_hex E d = finish_hex E (hasher_update hasher_new d)"

definition DEFAULT_UPLOAD_CONCURRENCY :: nat where "DEFAULT_UPLOAD_CONCURRENCY = 8"
definition MAX_UPLOAD_CONCURRENCY :: nat where "MAX_UPLOAD_CONCURRENCY = 64"
definition UPLOAD_MEMORY_BUDGET :: nat where "UPLOAD_MEMORY_BUDGET = 256 * 1024 * 1024"
definition USIZE_MAX :: nat where "USIZE_MAX = 2 ^ 64 - 1"

definition upload_concurrency :: "nat \<Rightarrow> nat \<Rightarrow> nat" where
  "upload_concurrency requested chunk_size =
     (let requested = max 1 (min MAX_UPLOAD_CONCURRENCY requested);
          per_chunk = max 1 (min USIZE_MAX (chunk_size * 2));
          affordable = max 1 (UPLOAD_MEMORY_BUDGET div per_chunk) in
      min requested affordable)"

definition configured_upload_concurrency :: "(string \<Rightarrow> string option) \<Rightarrow> nat" where
  "configured_upload_concurrency setting =
     (case Option.bind (setting ''RELAY_UPLOAD_CONCURRENCY'') (parse_unsigned (2 ^ 64)) of
        None \<Rightarrow> DEFAULT_UPLOAD_CONCURRENCY | Some n \<Rightarrow> n)"

definition chunk_count :: "u64 \<Rightarrow> nat \<Rightarrow> u32" where
  "chunk_count n chunk_size =
     (let size = max 1 chunk_size; count = max 1 ((unat n + size - 1) div size) in
      of_nat (min count (2 ^ 32 - 1)))"

section \<open>Uploading\<close>

function fill :: "'s host \<Rightarrow> nat \<Rightarrow> nat \<Rightarrow> bytes \<Rightarrow> ('s, bytes) io" where
  "fill H h room acc s =
     (if room = 0 then (Inr acc, s)
      else case file_read H h room s of
        (Inl e, s') \<Rightarrow> (Inl (''read source file'' # e), s')
      | (Inr b, s') \<Rightarrow> if b = [] then (Inr acc, s') else fill H h (room - length b) (acc @ b) s')"
  by pat_completeness auto
termination by (relation "measure (\<lambda>(H, h, room, acc, s). room)") auto

declare fill.simps [simp del]

type_synonym task = "u32 \<times> bytes"

definition join_next ::
  "'s host \<Rightarrow> (u32 \<Rightarrow> bytes \<Rightarrow> ('s, unit) io) \<Rightarrow> task list \<Rightarrow> ('s, task list) io" where
  "join_next H put inflight s =
     (case schedule H (length inflight) s of (n, s1) \<Rightarrow>
        let i = n mod length inflight in
        io_then (put (fst (inflight ! i)) (snd (inflight ! i)))
          (\<lambda>_. io_ok (take i inflight @ drop (Suc i) inflight)) s1)"

lemma join_next_Inr:
  assumes "inflight \<noteq> []" and "join_next H put inflight s = (Inr rest, s')"
  shows "\<exists>i s1. i < length inflight \<and> rest = take i inflight @ drop (Suc i) inflight
    \<and> fst (schedule H (length inflight) s) mod length inflight = i
    \<and> s1 = snd (schedule H (length inflight) s)
    \<and> put (fst (inflight ! i)) (snd (inflight ! i)) s1 = (Inr (), s')"
proof -
  obtain n s1 where n: "schedule H (length inflight) s = (n, s1)" by fastforce
  have "n mod length inflight < length inflight" using assms(1) by simp
  with n assms(2) show ?thesis by (auto simp: join_next_def Let_def io_then_Inr)
qed

lemma join_next_shorter:
  assumes "(Inr rest, s') = join_next H put inflight s" and "inflight \<noteq> []"
  shows "length rest < length inflight"
proof -
  obtain i where "i < length inflight" and "rest = take i inflight @ drop (Suc i) inflight"
    using join_next_Inr [OF assms(2) assms(1) [symmetric]] by blast
  then show ?thesis by simp
qed

text \<open>\<open>while inflight.len() >= limit\<close>; with the limit 1 it is the wait for all of them.\<close>

function join_while ::
  "'s host \<Rightarrow> (u32 \<Rightarrow> bytes \<Rightarrow> ('s, unit) io) \<Rightarrow> nat \<Rightarrow> task list \<Rightarrow> ('s, task list) io" where
  "join_while H put limit inflight s =
     (if inflight = [] \<or> length inflight < limit then (Inr inflight, s)
      else case join_next H put inflight s of
        (Inl e, s') \<Rightarrow> (Inl e, s')
      | (Inr rest, s') \<Rightarrow> join_while H put limit rest s')"
  by pat_completeness auto
termination
  by (relation "measure (\<lambda>(H, put, limit, inflight, s). length inflight)") (auto intro: join_next_shorter)

declare join_while.simps [simp del]

function upload_loop ::
  "'s host \<Rightarrow> nat \<Rightarrow> nat \<Rightarrow> nat \<Rightarrow> (u32 \<Rightarrow> bytes \<Rightarrow> ('s, unit) io)
   \<Rightarrow> hasher \<Rightarrow> u32 \<Rightarrow> u64 \<Rightarrow> task list \<Rightarrow> ('s, hasher \<times> u32 \<times> u64 \<times> task list) io" where
  "upload_loop H h chunk_size concurrency put hasher chunks total_bytes inflight s =
     (case fill H h chunk_size [] s of
        (Inl e, s1) \<Rightarrow> (Inl e, s1)
      | (Inr buf, s1) \<Rightarrow>
          if buf = [] \<and> chunks > 0 then (Inr (hasher, chunks, total_bytes, inflight), s1)
          else
            let hasher' = hasher_update hasher buf;
                total' = sat_add_u64 total_bytes (of_nat (length buf));
                inflight' = inflight @ [(chunks, buf)] in
            (case checked_add_u32 chunks 1 of
               None \<Rightarrow> (bail ''file has too many chunks'', s1)
             | Some chunks' \<Rightarrow>
                 (case join_while H put concurrency inflight' s1 of
                    (Inl e, s2) \<Rightarrow> (Inl e, s2)
                  | (Inr rest, s2) \<Rightarrow>
                      if length buf < chunk_size then (Inr (hasher', chunks', total', rest), s2)
                      else upload_loop H h chunk_size concurrency put hasher' chunks' total' rest s2)))"
  by pat_completeness auto
termination
  by (relation "measure (\<lambda>(H, h, chunk_size, concurrency, put, hasher, chunks, total, inflight, s).
      2 ^ 32 - unat chunks)")
    (auto dest!: unat_checked_add_u32 simp: less_diff_conv2 intro!: diff_less_mono2
      simp: unat_u32_less [simplified])

declare upload_loop.simps [simp del]

definition upload_chunks ::
  "'z libs_scheme \<Rightarrow> 's host \<Rightarrow> path \<Rightarrow> nat \<Rightarrow> nat \<Rightarrow> (u32 \<Rightarrow> bytes \<Rightarrow> ('s, unit) io)
   \<Rightarrow> ('s, u32 \<times> u64 \<times> string) io" where
  "upload_chunks E H source chunk_size concurrency put =
     (let concurrency = upload_concurrency concurrency chunk_size in
      io_then (io_context (''open '' @ display source) (file_open H source)) (\<lambda>h.
      io_then (upload_loop H h chunk_size concurrency put hasher_new 0 0 []) (\<lambda>(hasher, chunks, total_bytes, inflight).
      io_then (join_while H put 1 inflight) (\<lambda>_.
      io_ok (chunks, total_bytes, finish_hex E hasher)))))"

definition stage_file :: "'s env \<Rightarrow> 's host \<Rightarrow> nat \<Rightarrow> transport \<Rightarrow> string \<Rightarrow> string \<Rightarrow> path \<Rightarrow> ('s, manifest) io" where
  "stage_file E H concurrency T agent transfer source =
     io_then (upload_chunks E H source BLOB_CHUNK_BYTES concurrency (put_blob_chunk E T agent transfer))
       (\<lambda>(chunks, total_bytes, sha). io_ok \<lparr>mf_chunks = chunks, mf_total_bytes = total_bytes, mf_sha256 = sha\<rparr>)"

section \<open>Assembling\<close>

text \<open>
  The verified copy. The code has this loop three times, for a transfer, a shared file and a
  release, with different messages; \<open>copy_texts\<close> holds them.
\<close>

record copy_texts =
  ct_missing :: "u32 \<Rightarrow> string"
  ct_too_many :: string
  ct_write :: string
  ct_flush :: "string option"
  ct_short :: "u64 \<Rightarrow> u64 \<Rightarrow> string"
  ct_hash :: "string \<Rightarrow> string \<Rightarrow> string"

fun copy_chunks :: "'s host \<Rightarrow> (u32 \<Rightarrow> ('s, bytes option) io) \<Rightarrow> copy_texts \<Rightarrow> u64 \<Rightarrow> nat
    \<Rightarrow> u32 list \<Rightarrow> u64 \<Rightarrow> hasher \<Rightarrow> ('s, u64 \<times> hasher) io" where
  "copy_chunks H get X declared h [] written hasher = io_ok (written, hasher)"
| "copy_chunks H get X declared h (index # rest) written hasher =
     io_then (get index) (\<lambda>r.
     io_then (io_lift (ok_or (ct_missing X index) r)) (\<lambda>data.
     let written' = sat_add_u64 written (of_nat (length data)) in
     io_then (io_lift (ensure (\<not> written' > declared) (ct_too_many X))) (\<lambda>_.
     io_then (io_context (ct_write X) (file_write_all H h data)) (\<lambda>_.
     copy_chunks H get X declared h rest written' (hasher_update hasher data)))))"

definition chunk_indices :: "u32 \<Rightarrow> u32 list" where
  "chunk_indices n = map of_nat [0..<unat n]"

definition verified_copy :: "'z libs_scheme \<Rightarrow> 's host \<Rightarrow> (u32 \<Rightarrow> ('s, bytes option) io) \<Rightarrow> copy_texts
    \<Rightarrow> manifest \<Rightarrow> path \<Rightarrow> ('s, u64) io" where
  "verified_copy E H get X m temp =
     io_then (io_context (''create '' @ display temp) (file_create H temp)) (\<lambda>h.
     io_then (copy_chunks H get X (mf_total_bytes m) h (chunk_indices (mf_chunks m)) 0 hasher_new) (\<lambda>(written, hasher).
     io_then (case ct_flush X of None \<Rightarrow> file_flush H h | Some c \<Rightarrow> io_context c (file_flush H h)) (\<lambda>_.
     io_then (io_lift (ensure (written = mf_total_bytes m) (ct_short X written (mf_total_bytes m)))) (\<lambda>_.
     let sha = finish_hex E hasher in
     io_then (io_lift (ensure (sha = mf_sha256 m) (ct_hash X (mf_sha256 m) sha))) (\<lambda>_.
     io_ok written)))))"

definition transfer_texts :: copy_texts where
  "transfer_texts = \<lparr>ct_missing = (\<lambda>i. ''transfer chunk '' @ dec (unat i) @ '' is missing from the bucket''),
     ct_too_many = ''transfer carries more bytes than its manifest declares'',
     ct_write = ''write transfer chunk'', ct_flush = Some ''flush assembled file'',
     ct_short = (\<lambda>w t. ''transfer assembled '' @ dec (unat w) @ '' bytes but the manifest declares '' @ dec (unat t)),
     ct_hash = (\<lambda>m a. ''transfer hash mismatch: manifest says '' @ m @ '', assembled '' @ a)\<rparr>"

definition assemble_into :: "'s env \<Rightarrow> 's host \<Rightarrow> transport \<Rightarrow> string \<Rightarrow> string \<Rightarrow> manifest \<Rightarrow> path \<Rightarrow> ('s, u64) io" where
  "assemble_into E H T agent transfer m temp =
     verified_copy E H (get_blob_chunk E T agent transfer) transfer_texts m temp"

definition temp_sibling :: "path \<Rightarrow> path" where
  "temp_sibling dest = with_file_name dest
     ((case file_name dest of None \<Rightarrow> [] | Some n \<Rightarrow> n) @ ''.relay-partial'')"

definition assemble_file :: "'s env \<Rightarrow> 's host \<Rightarrow> transport \<Rightarrow> string \<Rightarrow> string \<Rightarrow> manifest \<Rightarrow> path \<Rightarrow> ('s, u64) io" where
  "assemble_file E H T agent transfer m dest =
     (let temp = temp_sibling dest in
      io_then (io_attempt (assemble_into E H T agent transfer m temp)) (\<lambda>r.
      case r of
        Inr n \<Rightarrow> io_then (io_context (''move assembled file into '' @ display dest) (rename_path H temp dest))
          (\<lambda>_. io_ok n)
      | Inl e \<Rightarrow> io_then (io_ignore (remove_file H temp)) (\<lambda>_. io_lift (Inl e))))"

definition new_transfer_id :: "'s env \<Rightarrow> ('s, string) io" where
  "new_transfer_id E = uuid_v4 E"

end
