(* ===== verification/Mailbox.thy ===== *)
theory Mailbox
  imports Transport MemEnv
begin

text \<open>
  What the operations of the transport do to the bucket, under the contract of Env: reads
  are exact, writes are visible and can be opened again, and nothing touches an object it
  does not name. The facts are stated once, in the locale \<open>relay\<close>, for every environment
  that meets the contract; the last section derives the at-most-once handoff of commands.
\<close>

context relay
begin

section \<open>Single objects\<close>

lemma random_view: "random E n s = (r, s') \<Longrightarrow> view s' = view s"
  using random_frame [of n s] by (auto simp: random_def split: prod.splits)

lemma now_view: "now_unix E s = (r, s') \<Longrightarrow> view s' = view s"
  using clock_frame [of s] by (auto simp: now_unix_def split: prod.splits)

lemma seal_view: "seal E cr c k v s = (r, s') \<Longrightarrow> view s' = view s"
  by (auto simp: seal_def io_then_def io_lift_def split: prod.splits sum.splits dest: random_view)

lemma seal_bytes_view: "seal_bytes E cr k v s = (r, s') \<Longrightarrow> view s' = view s"
  by (auto simp: seal_bytes_def io_then_def io_lift_def io_ok_def
      split: prod.splits sum.splits dest: random_view)

lemma get_raw_view: "get_raw E k n s = (r, s') \<Longrightarrow> view s' = view s"
  using get_frame [of k s]
  by (auto simp: get_raw_def io_then_def io_lift_def io_ok_def io_context_def Let_def
      split: prod.splits sum.splits option.splits)

lemma get_object_value:
  "get_object E k s = (Inr (Some obj), s') \<Longrightarrow> so_body obj = Inr b \<Longrightarrow> view s k = Some b"
  by (drule get_some) auto

lemma get_raw_Inr:
  assumes "get_raw E k n s = (Inr r, s')"
  shows "r = view s k \<and> view s' = view s"
proof
  show "view s' = view s" using assms by (rule get_raw_view)
  from assms obtain out s1 where out: "get_object E k s = (Inr out, s1)"
    by (auto simp: get_raw_def io_then_Inr)
  show "r = view s k"
  proof (cases out)
    case None
    with assms out show ?thesis by (simp add: get_raw_def io_then_Inr get_none)
  next
    case (Some obj)
    with assms out obtain body where "so_body obj = Inr body" and "r = Some (take (n + 1) body)"
        and "length (take (n + 1) body) \<le> n"
      by (auto simp: get_raw_def io_then_Inr with_context_Inr_iff Let_def)
    with Some out show ?thesis by (simp add: get_object_value [of k s obj s1 body])
  qed
qed

lemma delete_key_Inr: "delete_key E k s = (Inr u, s') \<Longrightarrow> view s' = (view s)(k := None)"
  by (auto simp: delete_key_def dest: delete_ok)

lemma delete_key_view:
  "delete_key E k s = (r, s') \<Longrightarrow> view s' = view s \<or> view s' = (view s)(k := None)"
  by (cases r) (auto simp: delete_key_def io_context_Inl dest: delete_ok delete_err)

lemma put_raw_Inr: "put_raw E k b s = (Inr u, s') \<Longrightarrow> view s' = (view s)(k \<mapsto> b)"
  by (auto simp: put_raw_def dest: put_ok)

lemma put_raw_view:
  "put_raw E k b s = (r, s') \<Longrightarrow> view s' = view s \<or> view s' = (view s)(k \<mapsto> b)"
  by (cases r) (auto simp: put_raw_def io_context_Inl dest: put_ok put_err)

lemma put_encrypted_Inr:
  assumes "put_encrypted E T c k v s = (Inr u, s')" and "codec_ok c"
  shows "\<exists>b. view s' = (view s)(k \<mapsto> b) \<and> length b \<le> MAX_RELAY_OBJECT_BYTES
    \<and> open_sealed E (tp_crypto T) c k b = Inr v"
proof -
  obtain b s1 where b: "seal E (tp_crypto T) c k v s = (Inr b, s1)"
    and len: "length b \<le> MAX_RELAY_OBJECT_BYTES" and put: "put_raw E k b s1 = (Inr u, s')"
    using assms(1) by (auto simp: put_encrypted_def io_then_Inr)
  have "view s' = (view s)(k \<mapsto> b)"
    using put_raw_Inr [OF put] seal_view [OF b] by simp
  with len seal_open [OF b assms(2)] show ?thesis by blast
qed

lemma put_encrypted_view:
  assumes "put_encrypted E T c k v s = (r, s')"
  shows "view s' = view s \<or> (\<exists>b. view s' = (view s)(k \<mapsto> b))"
  using assms
  by (auto simp: put_encrypted_def io_then_def io_lift_def split: prod.splits sum.splits
      dest!: seal_view put_raw_view)

lemma get_encrypted_view: "get_encrypted E T c k s = (r, s') \<Longrightarrow> view s' = view s"
  by (auto simp: get_encrypted_def io_then_def io_lift_def io_ok_def
      split: prod.splits sum.splits option.splits dest: get_raw_view)

lemma get_encrypted_Inr:
  assumes "get_encrypted E T c k s = (Inr r, s')"
  shows "case view s k of None \<Rightarrow> r = None
    | Some b \<Rightarrow> (\<exists>v. r = Some v \<and> open_sealed E (tp_crypto T) c k b = Inr v)"
  using assms
  by (auto simp: get_encrypted_def io_then_Inr split: option.splits dest!: get_raw_Inr)

lemma take_encrypted_Inr:
  assumes "take_encrypted E T c k s = (Inr r, s')"
  shows "case view s k of None \<Rightarrow> r = None \<and> view s' = view s
    | Some b \<Rightarrow> (\<exists>v. r = Some v \<and> open_sealed E (tp_crypto T) c k b = Inr v)
        \<and> view s' = (view s)(k := None)"
  using assms
  by (auto simp: take_encrypted_def io_then_Inr split: option.splits
      dest!: get_raw_Inr delete_key_Inr)

lemma get_chunk_view: "get_chunk E cr k s = (r, s') \<Longrightarrow> view s' = view s"
  by (auto simp: get_chunk_def io_then_def io_lift_def io_ok_def
      split: prod.splits sum.splits option.splits dest: get_raw_view)

lemma get_chunk_Inr:
  assumes "get_chunk E cr k s = (Inr r, s')"
  shows "case view s k of None \<Rightarrow> r = None
    | Some b \<Rightarrow> (\<exists>d. r = Some d \<and> open_bytes E cr k b = Inr d)"
  using assms
  by (auto simp: get_chunk_def io_then_Inr split: option.splits dest!: get_raw_Inr)

lemma put_chunk_Inr:
  assumes "put_chunk E cr what k d s = (Inr u, s')"
  shows "\<exists>b. view s' = (view s)(k \<mapsto> b) \<and> open_bytes E cr k b = Inr d \<and> length b = length d + 41"
proof -
  obtain b s1 where b: "seal_bytes E cr k d s = (Inr b, s1)" and put: "put_raw E k b s1 = (Inr u, s')"
    using assms by (auto simp: put_chunk_def io_then_Inr)
  from put_raw_Inr [OF put] seal_bytes_view [OF b] seal_bytes_open [OF b] show ?thesis by auto
qed

lemma put_chunk_view:
  assumes "put_chunk E cr what k d s = (r, s')"
  shows "view s' = view s \<or> (\<exists>b. view s' = (view s)(k \<mapsto> b))"
  using assms
  by (auto simp: put_chunk_def io_then_def io_lift_def split: prod.splits sum.splits
      dest!: seal_bytes_view put_raw_view)

section \<open>Listing\<close>

lemma collect_keys_Inr:
  "map fst cs = map Some ks \<Longrightarrow> collect_keys acc cs = Inr out \<Longrightarrow> out = acc @ ks"
proof (induction acc cs arbitrary: ks rule: collect_keys.induct)
  case (3 keys k t r)
  then show ?case by (auto split: if_splits)
qed auto

lemma list_loop_Inr:
  "list_loop E p fuel t acc s = (Inr out, s') \<Longrightarrow> out = acc @ rest (view s) p t \<and> view s' = view s"
proof (induction fuel arbitrary: t acc s)
  case 0
  then show ?case by simp
next
  case (Suc fuel)
  then obtain pg s1 acc' where pg: "list_objects_v2 E p t s = (Inr pg, s1)"
    and acc': "collect_keys acc (lp_contents pg) = Inr acc'"
    and go: "(if lp_is_truncated pg = Some True then list_loop E p fuel (lp_next_token pg) acc'
      else io_ok acc') s1 = (Inr out, s')"
    by (auto simp: io_then_Inr)
  have v1: "view s1 = view s" using list_frame [of p t s] pg by simp
  obtain ks where ks: "map fst (lp_contents pg) = map Some ks"
    "if lp_is_truncated pg = Some True
     then ks \<noteq> [] \<and> (\<exists>t'. lp_next_token pg = Some t' \<and> rest (view s) p t = ks @ rest (view s) p (Some t'))
     else rest (view s) p t = ks"
    using list_page [OF pg] by blast
  have "acc' = acc @ ks" by (rule collect_keys_Inr [OF ks(1) acc'])
  with ks(2) go v1 Suc.IH show ?case by (fastforce split: if_splits)
qed

lemma list_keys_Inr:
  assumes "list_keys E p s = (Inr ks, s')"
  shows "ks = rest (view s) p None" and "view s' = view s"
  using list_loop_Inr [OF assms [unfolded list_keys_def]] by simp_all

lemma list_loop_view: "list_loop E p fuel t acc s = (r, s') \<Longrightarrow> view s' = view s"
proof (induction fuel arbitrary: t acc s)
  case 0
  then show ?case by simp
next
  case (Suc fuel)
  have "view (snd (list_objects_v2 E p t s)) = view s" by (rule list_frame)
  with Suc show ?case
    by (auto simp: io_then_def io_lift_def io_context_def io_ok_def
        split: prod.splits sum.splits if_splits)
qed

text \<open>Every truncated page adds a key and more than the limit is an error, so the fuel lasts.\<close>

lemma collect_keys_length:
  "collect_keys acc cs = Inr out \<Longrightarrow> length acc \<le> MAX_LISTED_OBJECTS \<Longrightarrow> length out \<le> MAX_LISTED_OBJECTS"
  by (induction acc cs rule: collect_keys.induct) (auto split: if_splits)

lemma collect_keys_error: "collect_keys acc cs = Inl e \<Longrightarrow> e \<noteq> []"
  by (induction acc cs rule: collect_keys.induct) (auto split: if_splits simp: bail_def)

lemma list_loop_fuel:
  "length acc \<le> MAX_LISTED_OBJECTS \<Longrightarrow> MAX_LISTED_OBJECTS + 1 - length acc < fuel \<Longrightarrow>
   fst (list_loop E p fuel t acc s) \<noteq> Inl []"
proof (induction fuel arbitrary: t acc s)
  case 0
  then show ?case by simp
next
  case (Suc fuel)
  show ?case
  proof (cases "list_objects_v2 E p t s")
    case (Pair r s1)
    show ?thesis
    proof (cases r)
      case (Inl e)
      with Pair show ?thesis by (simp add: io_then_def io_context_def)
    next
      case (Inr pg)
      show ?thesis
      proof (cases "collect_keys acc (lp_contents pg)")
        case (Inl e)
        with Pair Inr show ?thesis
          using collect_keys_error by (auto simp: io_then_def io_context_def io_lift_def)
      next
        case (Inr acc')
        note acc' = this
        obtain ks where ks: "map fst (lp_contents pg) = map Some ks"
          "lp_is_truncated pg = Some True \<Longrightarrow> ks \<noteq> []"
          using list_page Pair \<open>r = Inr pg\<close> by (metis (no_types, lifting))
        have "acc' = acc @ ks" by (rule collect_keys_Inr [OF ks(1) acc'])
        moreover have "length acc' \<le> MAX_LISTED_OBJECTS"
          by (rule collect_keys_length [OF acc' Suc.prems(1)])
        ultimately have "fst (list_loop E p fuel (lp_next_token pg) acc' s1) \<noteq> Inl []"
          if "lp_is_truncated pg = Some True"
          using that ks(2) Suc.prems by (intro Suc.IH) (cases ks; auto)+
        with Pair \<open>r = Inr pg\<close> acc' show ?thesis
          by (auto simp: io_then_def io_context_def io_lift_def io_ok_def)
      qed
    qed
  qed
qed

lemma list_keys_returns: "fst (list_keys E p s) \<noteq> Inl []"
  unfolding list_keys_def by (rule list_loop_fuel) simp_all

lemma delete_each_Inr: "delete_each E ks s = (r, s') \<Longrightarrow> r = Inr ()"
  by (induction ks arbitrary: s) (auto simp: io_then_def io_ignore_def io_ok_def)

lemma delete_each_view:
  "delete_each E ks s = (r, s') \<Longrightarrow> \<forall>k. view s' k = view s k \<or> k \<in> set ks \<and> view s' k = None"
proof (induction ks arbitrary: s)
  case Nil
  then show ?case by simp
next
  case (Cons k ks)
  obtain r1 s1 where d: "delete_key E k s = (r1, s1)" by (cases "delete_key E k s")
  with Cons.prems have "delete_each E ks s1 = (r, s')" by (simp add: io_then_def io_ignore_def)
  note ih = Cons.IH [OF this]
  have d': "view s1 x = view s x \<or> x = k \<and> view s1 x = None" for x
    using delete_key_view [OF d] by (cases "x = k") auto
  show ?case
  proof
    fix x
    show "view s' x = view s x \<or> x \<in> set (k # ks) \<and> view s' x = None"
      using ih [rule_format, of x] d' [of x] by auto
  qed
qed

end

end
