(* ===== verification/MemFacts.thy ===== *)
theory MemFacts
  imports Mailbox
begin

text \<open>
  Progress on the concrete environment: while no fault is injected and the objects are
  within the size limit, every operation of the transport succeeds. The witnesses of the
  properties use these facts to reach states in which the hypotheses hold.
\<close>

section \<open>Requests\<close>

lemma mem_env_sel [simp]:
  "put_object (mem_env T) = mem_put" "get_object (mem_env T) = mem_get"
  "head_object (mem_env T) = mem_head" "delete_object (mem_env T) = mem_delete"
  "list_objects_v2 (mem_env T) = mem_list"
  "fill_bytes (mem_env T) n w = (replicate n (of_nat (mem_seed w)), w\<lparr>mem_seed := Suc (mem_seed w)\<rparr>)"
  "new_uuid (mem_env T) w = (dec_fixed 36 (mem_seed w), w\<lparr>mem_seed := Suc (mem_seed w)\<rparr>)"
  "clock_unix (mem_env T) w = (mem_clock w, w)" "instant_ms (mem_env T) w = (mem_ms w, w)"
  "sleep_ms (mem_env T) = mem_sleep" "uuid_ok (mem_env T) = toy_uuid_ok"
  "envelope_json (mem_env T) = toy_envelope"
  "command_json (mem_env T) = table_codec (tb_commands T)"
  "response_json (mem_env T) = table_codec (tb_responses T)"
  "heartbeat_json (mem_env T) = table_codec (tb_heartbeats T)"
  "doorbell_json (mem_env T) = table_codec (tb_doorbells T)"
  "log_chunk_json (mem_env T) = table_codec (tb_log_chunks T)"
  "update_manifest_json (mem_env T) = table_codec (tb_updates T)"
  "share_manifest_json (mem_env T) = table_codec (tb_shares T)"
  "aead_encrypt (mem_env T) = toy_encrypt" "aead_decrypt (mem_env T) = toy_decrypt"
  "b64_encode (mem_env T) = toy_b64_encode" "b64_decode (mem_env T) = toy_b64_decode"
  "url64_encode (mem_env T) = toy_b64_encode" "url64_decode (mem_env T) = toy_b64_decode"
  "sha256 (mem_env T) = toy_sha256" "x25519_public (mem_env T) = pad32"
  "diffie_hellman (mem_env T) = toy_dh" "hkdf (mem_env T) = toy_hkdf"
  by (simp_all add: mem_env_def)

text \<open>No fault is scheduled, and no object is over the size limit of messages.\<close>

definition quiet :: "mem \<Rightarrow> bool" where
  "quiet w \<longleftrightarrow> mem_faults w = []
     \<and> (\<forall>ob \<in> set (mem_objects w). length (mo_body (snd ob)) \<le> MAX_RELAY_OBJECT_BYTES)"

definition stored :: "string \<Rightarrow> bytes \<Rightarrow> mem \<Rightarrow> mem" where
  "stored k b w = w\<lparr>mem_objects := (k, \<lparr>mo_body = b, mo_etag = mem_writes w, mo_mtime = mem_clock w\<rparr>)
     # filter (\<lambda>(k', _). k' \<noteq> k) (mem_objects w), mem_writes := Suc (mem_writes w)\<rparr>"

definition removed :: "string \<Rightarrow> mem \<Rightarrow> mem" where
  "removed k w = w\<lparr>mem_objects := filter (\<lambda>(k', _). k' \<noteq> k) (mem_objects w)\<rparr>"

definition reseeded :: "mem \<Rightarrow> mem" where
  "reseeded w = w\<lparr>mem_seed := Suc (mem_seed w)\<rparr>"

lemma quiet_faults: "quiet w \<Longrightarrow> mem_faults w = []"
  by (simp add: quiet_def)

lemma quiet_start [simp]: "quiet mem_start"
  by (simp add: quiet_def mem_start_def)

lemma quiet_stored: "quiet w \<Longrightarrow> length b \<le> MAX_RELAY_OBJECT_BYTES \<Longrightarrow> quiet (stored k b w)"
  by (simp add: quiet_def stored_def)

lemma quiet_removed [simp]: "quiet w \<Longrightarrow> quiet (removed k w)"
  by (simp add: quiet_def removed_def)

lemma quiet_reseeded [simp]: "quiet (reseeded w) = quiet w"
  by (simp add: quiet_def reseeded_def)

lemma mem_view_steps [simp]:
  "mem_view (stored k b w) = (mem_view w)(k \<mapsto> b)"
  "mem_view (removed k w) = (mem_view w)(k := None)"
  "mem_view (reseeded w) = mem_view w"
  by (auto simp: mem_view_def fun_eq_iff map_of_filter_key stored_def removed_def reseeded_def)

lemma mem_clock_steps [simp]:
  "mem_clock (stored k b w) = mem_clock w" "mem_clock (removed k w) = mem_clock w"
  "mem_clock (reseeded w) = mem_clock w" "mem_clock mem_start = 1000"
  by (simp_all add: stored_def removed_def reseeded_def mem_start_def)

lemma mem_objects_steps [simp]:
  "length (mem_objects (stored k b w)) \<le> Suc (length (mem_objects w))"
  "length (mem_objects (removed k w)) \<le> length (mem_objects w)"
  "mem_objects (reseeded w) = mem_objects w" "mem_objects mem_start = []"
  by (simp_all add: stored_def removed_def reseeded_def mem_start_def)

lemma mem_view_start [simp]: "mem_view mem_start k = None"
  by (simp add: mem_view_def mem_start_def)

lemma mem_requests [simp]:
  assumes "mem_faults w = []"
  shows "mem_put k b w = (Inr (), stored k b w)"
    and "mem_delete k w = (Inr (), removed k w)"
    and "mem_get k w = (Inr (map_option (\<lambda>b. \<lparr>so_content_length = Some (int (length b)), so_body = Inr b\<rparr>)
           (mem_view w k)), w)"
  using assms
  by (simp_all add: mem_put_def mem_delete_def mem_get_def request_def stored_def removed_def)

lemma quiet_view: "quiet w \<Longrightarrow> mem_view w k = Some b \<Longrightarrow> length b \<le> MAX_RELAY_OBJECT_BYTES"
  by (fastforce simp: mem_view_def quiet_def dest: map_of_SomeD)

lemma mem_delete_key: "quiet w \<Longrightarrow> delete_key (mem_env T) k w = (Inr (), removed k w)"
  by (simp add: delete_key_def io_context_def quiet_faults)

lemma mem_get_raw:
  assumes "quiet w" and "MAX_RELAY_OBJECT_BYTES \<le> n"
  shows "get_raw (mem_env T) k n w = (Inr (mem_view w k), w)"
proof (cases "mem_view w k")
  case None
  with assms show ?thesis
    by (simp add: get_raw_def io_then_def io_context_def quiet_faults io_ok_def)
next
  case (Some b)
  with assms quiet_view [OF assms(1) Some] show ?thesis
    by (simp add: get_raw_def io_then_def io_context_def quiet_faults io_ok_def io_lift_def Let_def)
qed

section \<open>Sealing\<close>

lemma length_toy_b64 [simp]: "length (toy_b64_encode b) = 2 * length b"
  by (induction b) simp_all

lemma length_put_nat [simp]: "length (put_nat n) = Suc n"
  by (simp add: put_nat_def)

lemma length_put_str [simp]: "length (put_str s) = 2 * length s + 1"
  by (simp add: put_str_def)

lemma mem_seal:
  assumes "to_vec c v = Inr pt"
  shows "\<exists>b. seal (mem_env T) cr c k v w = (Inr b, reseeded w)
    \<and> length b = 4 * length pt + 2 * length (cr_key_id cr) + 165"
  using assms
  by (simp add: seal_def random_def io_then_def io_lift_def toy_encrypt_def ok_or_def
      toy_envelope_def ENVELOPE_VERSION_def reseeded_def)

lemma mem_put_encrypted:
  assumes "quiet w" and "to_vec c v = Inr pt" and "length pt \<le> 1000"
    and "length (cr_key_id (tp_crypto P)) \<le> 1000"
  shows "\<exists>b. put_encrypted (mem_env T) P c k v w = (Inr (), stored k b (reseeded w))
    \<and> length b \<le> MAX_RELAY_OBJECT_BYTES"
proof -
  obtain b where b: "seal (mem_env T) (tp_crypto P) c k v w = (Inr b, reseeded w)"
    and len: "length b = 4 * length pt + 2 * length (cr_key_id (tp_crypto P)) + 165"
    using mem_seal [OF assms(2)] by blast
  have "length b \<le> MAX_RELAY_OBJECT_BYTES"
    using len assms(3,4) by (simp add: MAX_RELAY_OBJECT_BYTES_def)
  moreover have "mem_faults (reseeded w) = []" using assms(1) by (simp add: reseeded_def quiet_faults)
  ultimately show ?thesis
    using b by (intro exI [of _ b]) (simp add: put_encrypted_def io_then_def io_lift_def put_raw_def io_context_def)
qed

lemma mem_seal_bytes:
  "\<exists>b. seal_bytes (mem_env T) cr k d w = (Inr b, reseeded w) \<and> length b = length d + 41"
  by (simp add: seal_bytes_def random_def io_then_def io_lift_def io_ok_def toy_encrypt_def ok_or_def
      reseeded_def)

lemma mem_put_chunk:
  assumes "quiet w" and "length d + 41 \<le> MAX_RELAY_OBJECT_BYTES"
  shows "\<exists>b. put_chunk (mem_env T) cr what k d w = (Inr (), stored k b (reseeded w))
    \<and> length b \<le> MAX_RELAY_OBJECT_BYTES"
proof -
  obtain b where b: "seal_bytes (mem_env T) cr k d w = (Inr b, reseeded w)" "length b = length d + 41"
    using mem_seal_bytes by blast
  moreover have "mem_faults (reseeded w) = []" using assms(1) by (simp add: reseeded_def quiet_faults)
  moreover have "length d \<le> MAX_BLOB_CHUNK_BYTES"
    using assms(2) by (simp add: MAX_BLOB_CHUNK_BYTES_def MAX_RELAY_OBJECT_BYTES_def)
  ultimately show ?thesis
    using assms(2) by (intro exI [of _ b]) (simp add: put_chunk_def io_then_def io_lift_def put_raw_def io_context_def)
qed

text \<open>A table codec writes exactly the messages of its table.\<close>

lemma index_of_Some: "v \<in> set xs \<Longrightarrow> \<exists>i. index_of v xs = Some i \<and> i < length xs"
  by (induction xs) auto

lemma table_to_vec:
  "v \<in> set xs \<Longrightarrow> \<exists>pt. to_vec (table_codec xs) v = Inr pt \<and> length pt < length xs"
  using index_of_Some [of v xs] by (auto simp: table_codec_def)

section \<open>Listing\<close>

lemma collect_keys_ok:
  "length acc + length cs \<le> MAX_LISTED_OBJECTS \<Longrightarrow> map fst cs = map Some ks \<Longrightarrow>
   collect_keys acc cs = Inr (acc @ ks)"
proof (induction acc cs arbitrary: ks rule: collect_keys.induct)
  case (3 keys k t r)
  then show ?case by (cases ks) auto
qed auto

lemma mem_list_calm:
  "mem_faults w = [] \<Longrightarrow> mem_list p t w = (let todo = after_token t (mem_keys w p); now = take 2 todo in
     (Inr \<lparr>lp_contents = map (\<lambda>k. (Some k, map_option mo_mtime (map_of (mem_objects w) k))) now,
       lp_is_truncated = Some (2 < length todo),
       lp_next_token = (if 2 < length todo then Some (last now) else None)\<rparr>, w))"
  by (simp add: mem_list_def request_def Let_def)

lemma sorted_mem_keys: "sorted_wrt (<) (mem_keys w p)"
  by (simp add: mem_keys_view)

lemma mem_list_loop:
  "mem_faults w = [] \<Longrightarrow> length (after_token t (mem_keys w p)) < fuel \<Longrightarrow>
   length acc + length (after_token t (mem_keys w p)) \<le> MAX_LISTED_OBJECTS \<Longrightarrow>
   list_loop (mem_env T) p fuel t acc w = (Inr (acc @ after_token t (mem_keys w p)), w)"
proof (induction fuel arbitrary: t acc)
  case 0
  then show ?case by simp
next
  case (Suc fuel)
  define todo where "todo = after_token t (mem_keys w p)"
  have page: "mem_list p t w = (Inr \<lparr>lp_contents = map (\<lambda>k. (Some k, map_option mo_mtime (map_of (mem_objects w) k)))
        (take 2 todo),
      lp_is_truncated = Some (2 < length todo),
      lp_next_token = (if 2 < length todo then Some (last (take 2 todo)) else None)\<rparr>, w)"
    using Suc.prems(1) by (simp add: mem_list_calm Let_def todo_def)
  have collect: "collect_keys acc (map (\<lambda>k. (Some k, f k)) (take 2 todo)) = Inr (acc @ take 2 todo)" for f
    by (rule collect_keys_ok) (use Suc.prems in \<open>auto simp: o_def todo_def\<close>)
  have len: "length todo < Suc fuel" "length acc + length todo \<le> MAX_LISTED_OBJECTS"
    using Suc.prems by (simp_all add: todo_def)
  show ?case
  proof (cases "2 < length todo")
    case True
    define more where "more = after_token (Some (last (take 2 todo))) (mem_keys w p)"
    have split: "todo = take 2 todo @ more"
      using after_last_of_page [OF sorted_mem_keys, of t w p] True by (simp add: todo_def more_def)
    have "length todo = length (take 2 todo) + length more"
      using arg_cong [OF split, of length] by (simp only: length_append)
    then have "list_loop (mem_env T) p fuel (Some (last (take 2 todo))) (acc @ take 2 todo) w
        = (Inr ((acc @ take 2 todo) @ more), w)"
      unfolding more_def using Suc.prems(1) True len
      by (intro Suc.IH) (simp_all add: more_def [symmetric])
    also have "(acc @ take 2 todo) @ more = acc @ todo"
      by (simp only: append_assoc split [symmetric])
    finally have "list_loop (mem_env T) p fuel (Some (last (take 2 todo))) (acc @ take 2 todo) w
        = (Inr (acc @ todo), w)" .
    then show ?thesis
      using True by (simp add: io_then_def io_context_def page collect io_lift_def todo_def [symmetric])
  next
    case False
    then have "take 2 todo = todo" by simp
    then show ?thesis
      using False collect by (simp add: io_then_def io_context_def page io_lift_def io_ok_def todo_def [symmetric])
  qed
qed

lemma length_mem_keys: "length (mem_keys w p) \<le> length (mem_objects w)"
proof -
  have "length (mem_keys w p) \<le> length (filter (prefix p) (map fst (mem_objects w)))"
    unfolding mem_keys_def length_sort by (rule length_remdups_leq)
  also have "\<dots> \<le> length (mem_objects w)" using length_filter_le [of "prefix p" "map fst (mem_objects w)"] by simp
  finally show ?thesis .
qed

lemma mem_list_keys:
  assumes "quiet w" and "length (mem_objects w) \<le> MAX_LISTED_OBJECTS"
  shows "list_keys (mem_env T) p w = (Inr (mem_keys w p), w)"
proof -
  have "length (mem_keys w p) \<le> MAX_LISTED_OBJECTS" using length_mem_keys assms(2) by (rule order_trans)
  then show ?thesis
    unfolding list_keys_def
    using mem_list_loop [of w None p "MAX_LISTED_OBJECTS + 2" "[]" T] assms(1)
    by (simp add: after_token_def quiet_faults)
qed

section \<open>The mailbox\<close>

lemma mem_drain_loop:
  "quiet w \<Longrightarrow> \<exists>out w'. drain_loop (mem_env T) P inst keys acc w = (Inr out, w') \<and> quiet w'
     \<and> length (mem_objects w') \<le> length (mem_objects w)"
proof (induction keys arbitrary: acc w)
  case Nil
  then show ?case by (simp add: io_ok_def)
next
  case (Cons key keys)
  have get: "get_raw (mem_env T) key MAX_RELAY_OBJECT_BYTES w = (Inr (mem_view w key), w)"
    by (rule mem_get_raw [OF Cons.prems order_refl])
  note del = mem_delete_key [OF Cons.prems]
  have less: "length (mem_objects (removed key w)) \<le> length (mem_objects w)" by simp
  note here = Cons.IH [OF Cons.prems] and there = Cons.IH [OF quiet_removed [OF Cons.prems]]
  show ?case
  proof (cases "mem_view w key")
    case None
    with here [of acc] get show ?thesis by (simp add: io_then_def)
  next
    case (Some raw)
    obtain out w' where skip: "drain_loop (mem_env T) P inst keys acc (removed key w) = (Inr out, w')"
      "quiet w'" "length (mem_objects w') \<le> length (mem_objects (removed key w))"
      using there [of acc key] by blast
    obtain out2 w2 where take: "drain_loop (mem_env T) P inst keys (acc @ [c]) (removed key w) = (Inr (out2 c), w2 c)"
      "quiet (w2 c)" "length (mem_objects (w2 c)) \<le> length (mem_objects (removed key w))" for c
      using there [of "acc @ [_]" key] by metis
    show ?thesis
      using Some get del skip take here [of acc] order_trans [OF _ less]
      by (cases "open_sealed (mem_env T) (tp_crypto P) (table_codec (tb_commands T)) key raw")
        (auto simp: io_then_def io_ignore_def)
  qed
qed

lemma mem_drain:
  assumes "quiet w" and "length (mem_objects w) \<le> MAX_LISTED_OBJECTS" and "validate_agent_id a = Inr ()"
  shows "\<exists>cmds w'. drain_commands (mem_env T) P a inst w = (Inr cmds, w') \<and> quiet w'
    \<and> length (mem_objects w') \<le> MAX_LISTED_OBJECTS"
proof -
  obtain out w' where "drain_loop (mem_env T) P inst (mem_keys w (cmd_prefix P a)) [] w = (Inr out, w')"
    and "quiet w'" and "length (mem_objects w') \<le> length (mem_objects w)"
    using mem_drain_loop [OF assms(1)] by blast
  with assms mem_list_keys [OF assms(1,2)] show ?thesis
    by (simp add: drain_commands_def io_then_def io_lift_def io_ok_def)
qed

section \<open>Sample values\<close>

definition sample_transport :: transport where
  "sample_transport = \<lparr>tp_prefix = ''relay/'', tp_crypto = \<lparr>cr_key = replicate 32 7, cr_key_id = ''k1''\<rparr>\<rparr>"

definition sample_uuid :: "nat \<Rightarrow> string" where "sample_uuid n = replicate 35 (CHR ''0'') @ [digit_char n]"

definition sample_command :: command where
  "sample_command = command_new (sample_uuid 1) 1000 ''alpha'' Ping 10 60"

definition addressed_command :: command where
  "addressed_command = for_instance ''i2'' (command_new (sample_uuid 2) 1000 ''alpha'' StandDown 10 60)"

definition sample_response :: response where
  "sample_response = response_ok 1000 sample_command (Pong ''h'' ''linux'' ''1'')"

definition sample_tables :: tables where
  "sample_tables = no_tables\<lparr>tb_commands := [sample_command, addressed_command],
     tb_responses := [sample_response], tb_doorbells := [\<lparr>db_agent_id = ''alpha'', db_at = 1000\<rparr>]\<rparr>"

lemma sample_sel [simp]:
  "cmd_agent_id sample_command = ''alpha''" "cmd_id sample_command = sample_uuid 1"
  "cmd_instance sample_command = None" "cmd_agent_id addressed_command = ''alpha''"
  "cmd_instance addressed_command = Some ''i2''" "cmd_id addressed_command = sample_uuid 2"
  "tb_commands sample_tables = [sample_command, addressed_command]"
  "tb_responses sample_tables = [sample_response]"
  "tb_doorbells sample_tables = [\<lparr>db_agent_id = ''alpha'', db_at = 1000\<rparr>]"
  "resp_agent_id sample_response = ''alpha''" "resp_id sample_response = sample_uuid 1"
  "cr_key_id (tp_crypto sample_transport) = ''k1''"
  by (simp_all add: sample_command_def addressed_command_def sample_tables_def command_new_def
      for_instance_def sample_transport_def sample_response_def response_ok_def)

lemma validate_alpha [simp]: "validate_agent_id ''alpha'' = Inr ()"
  by (simp add: validate_agent_id_iff agent_id_char_def is_ascii_alphanumeric_def is_ascii_digit_def
      is_ascii_upper_def is_ascii_lower_def in_range_def)

text \<open>A state in which a command waits, reached by sending it.\<close>

lemma mem_send:
  assumes "quiet w" and "cmd \<in> {sample_command, addressed_command}" and "mem_clock w = 1000"
  shows "\<exists>w'. send_command (mem_env sample_tables) sample_transport cmd w = (Inr (), w') \<and> quiet w'
    \<and> length (mem_objects w') \<le> length (mem_objects w) + 2 \<and> mem_clock w' = 1000"
proof -
  let ?E = "mem_env sample_tables" and ?P = sample_transport
  let ?bell = "\<lparr>db_agent_id = ''alpha'', db_at = 1000\<rparr> :: doorbell"
  have id: "length (cr_key_id (tp_crypto sample_transport)) \<le> 1000" by simp
  obtain pt where "to_vec (command_json ?E) cmd = Inr pt" and "length pt \<le> 1000"
    using table_to_vec [of cmd "tb_commands sample_tables"] assms(2) by auto
  from mem_put_encrypted [OF assms(1) this id, where k = "cmd_key ?P ''alpha'' (cmd_id cmd)"]
  obtain b where put: "put_encrypted ?E ?P (command_json ?E) (cmd_key ?P ''alpha'' (cmd_id cmd)) cmd w
      = (Inr (), stored (cmd_key ?P ''alpha'' (cmd_id cmd)) b (reseeded w))"
    and b: "length b \<le> MAX_RELAY_OBJECT_BYTES" by blast
  let ?w1 = "stored (cmd_key ?P ''alpha'' (cmd_id cmd)) b (reseeded w)"
  have q1: "quiet ?w1" using assms(1) b by (simp add: quiet_stored)
  obtain pt2 where "to_vec (doorbell_json ?E) ?bell = Inr pt2" and "length pt2 \<le> 1000"
    using table_to_vec [of ?bell "tb_doorbells sample_tables"] by auto
  from mem_put_encrypted [OF q1 this id, where k = "doorbell_key ?P ''alpha''"]
  obtain b2 where bell: "put_encrypted ?E ?P (doorbell_json ?E) (doorbell_key ?P ''alpha'') ?bell ?w1
      = (Inr (), stored (doorbell_key ?P ''alpha'') b2 (reseeded ?w1))"
    and b2: "length b2 \<le> MAX_RELAY_OBJECT_BYTES" by blast
  let ?w2 = "stored (doorbell_key ?P ''alpha'') b2 (reseeded ?w1)"
  have agent: "cmd_agent_id cmd = ''alpha''" using assms(2) by auto
  have "send_command ?E ?P cmd w = (Inr (), ?w2)"
    using put bell agent assms(3)
    by (simp add: send_command_def ring_doorbell_def io_then_def io_lift_def io_ignore_def now_unix_def)
  moreover have "quiet ?w2" using q1 b2 by (simp add: quiet_stored)
  moreover have "length (mem_objects ?w2) \<le> length (mem_objects w) + 2"
    using mem_objects_steps(1) [of "doorbell_key ?P ''alpha''" b2 "reseeded ?w1"]
      mem_objects_steps(1) [of "cmd_key ?P ''alpha'' (cmd_id cmd)" b "reseeded w"] by simp
  ultimately show ?thesis using assms(3) by (intro exI [of _ ?w2]) simp
qed

lemma mem_respond:
  assumes "quiet w"
  shows "\<exists>w'. send_response (mem_env sample_tables) sample_transport sample_response w = (Inr (), w') \<and> quiet w'
    \<and> mem_clock w' = mem_clock w"
proof -
  let ?E = "mem_env sample_tables" and ?P = sample_transport
  have id: "length (cr_key_id (tp_crypto sample_transport)) \<le> 1000" by simp
  obtain pt where "to_vec (response_json ?E) sample_response = Inr pt" and "length pt \<le> 1000"
    using table_to_vec [of sample_response "tb_responses sample_tables"] by auto
  from mem_put_encrypted [OF assms(1) this id, where k = "resp_key ?P ''alpha'' (sample_uuid 1)"]
  obtain b where "put_encrypted ?E ?P (response_json ?E) (resp_key ?P ''alpha'' (sample_uuid 1)) sample_response w
      = (Inr (), stored (resp_key ?P ''alpha'' (sample_uuid 1)) b (reseeded w))"
    and "length b \<le> MAX_RELAY_OBJECT_BYTES" by blast
  with assms show ?thesis
    by (intro exI [of _ "stored (resp_key ?P ''alpha'' (sample_uuid 1)) b (reseeded w)"])
      (simp add: send_response_def io_then_def io_lift_def quiet_stored)
qed

end
