(* ===== verification/Transfers.thy ===== *)
theory Transfers
  imports Blob MemFacts
begin

text \<open>
  Bulk transfers over an abstract store of numbered chunks. The interface \<open>chunk_store\<close> is
  what an upload and a verified copy need of the transport; the transfer, release and shared
  areas provide it (their interpretations are at the end), so the facts about uploading and
  assembling are proved once.
\<close>

section \<open>The interface\<close>

locale chunk_store = filesystem H files unread target
  for H :: "'s host" and files :: "'s \<Rightarrow> path \<Rightarrow> bytes option"
    and unread :: "'s \<Rightarrow> nat \<Rightarrow> bytes" and target :: "'s \<Rightarrow> nat \<Rightarrow> path option" +
  fixes put :: "u32 \<Rightarrow> bytes \<Rightarrow> ('s, unit) io" and get :: "u32 \<Rightarrow> ('s, bytes option) io"
    and stored :: "'s \<Rightarrow> u32 \<Rightarrow> bytes option"
  assumes put_stores: "put i d s = (Inr u, s') \<Longrightarrow> stored s' = (stored s)(i \<mapsto> d)"
    and put_files: "put i d s = (ru, s') \<Longrightarrow> files s' = files s \<and> unread s' = unread s \<and> target s' = target s"
    and get_exact: "get i s = (Inr r, s') \<Longrightarrow> r = stored s i"
    and get_frame: "get i s = (rb, s') \<Longrightarrow>
      stored s' = stored s \<and> files s' = files s \<and> unread s' = unread s \<and> target s' = target s"
    and open_stored: "file_open H p s = (rh, s') \<Longrightarrow> stored s' = stored s"
    and read_stored: "file_read H h n s = (rc, s') \<Longrightarrow> stored s' = stored s"
    and create_stored: "file_create H p s = (rh, s') \<Longrightarrow> stored s' = stored s"
    and write_stored: "file_write_all H h b s = (ru, s') \<Longrightarrow> stored s' = stored s"
    and flush_stored: "file_flush H h s = (ru, s') \<Longrightarrow> stored s' = stored s"
    and schedule_stored: "schedule H n s = (k, s') \<Longrightarrow> stored s' = stored s"

section \<open>Chunks as a map\<close>

definition chunk_map :: "bytes list \<Rightarrow> u32 \<Rightarrow> bytes option" where
  "chunk_map ds i = (if unat i < length ds then Some (ds ! unat i) else None)"

lemma chunk_map_Nil [simp]: "chunk_map [] i = None"
  by (simp add: chunk_map_def)

lemma chunk_map_snoc:
  assumes "length ds = unat n"
  shows "chunk_map (ds @ [d]) = (chunk_map ds)(n \<mapsto> d)"
proof
  fix i
  show "chunk_map (ds @ [d]) i = ((chunk_map ds)(n \<mapsto> d)) i"
  proof (cases "i = n")
    case True
    with assms have "unat i = length ds" by simp
    then show ?thesis using True by (simp add: chunk_map_def)
  next
    case False
    then have "unat i \<noteq> unat n" by (simp add: word_unat_eq_iff)
    with assms False show ?thesis by (auto simp: chunk_map_def nth_append)
  qed
qed

text \<open>Every chunk of \<open>D\<close> is still in flight or already in the store.\<close>

definition covers :: "(u32 \<Rightarrow> bytes option) \<Rightarrow> task list \<Rightarrow> (u32 \<Rightarrow> bytes option) \<Rightarrow> bool" where
  "covers D inflight store \<longleftrightarrow>
     (\<forall>(i, d) \<in> set inflight. D i = Some d)
   \<and> (\<forall>i d. D i = Some d \<longrightarrow> (i, d) \<in> set inflight \<or> store i = Some d)"

lemma covers_Nil: "covers D [] store \<Longrightarrow> D i = Some d \<Longrightarrow> store i = Some d"
  by (simp add: covers_def)

lemma covers_new:
  assumes "covers D inflight store" and "D i = None"
  shows "covers (D(i \<mapsto> d)) (inflight @ [(i, d)]) store"
  unfolding covers_def
proof (intro conjI allI impI ballI)
  fix t assume t: "t \<in> set (inflight @ [(i, d)])"
  obtain j e where je: "t = (j, e)" by fastforce
  have old: "(j, e) \<in> set inflight \<Longrightarrow> D j = Some e" using assms(1) unfolding covers_def by fast
  have "(D(i \<mapsto> d)) j = Some e" using t je old assms(2) by auto
  then show "case t of (j, e) \<Rightarrow> (D(i \<mapsto> d)) j = Some e" using je by simp
next
  fix j e assume "(D(i \<mapsto> d)) j = Some e"
  then show "(j, e) \<in> set (inflight @ [(i, d)]) \<or> store j = Some e"
    using assms(1) unfolding covers_def by (cases "j = i") auto
qed

lemma covers_step:
  assumes "covers D inflight store" and "k < length inflight"
  shows "covers D (take k inflight @ drop (Suc k) inflight)
    (store(fst (inflight ! k) \<mapsto> snd (inflight ! k)))"
proof -
  let ?rest = "take k inflight @ drop (Suc k) inflight" and ?t = "inflight ! k"
  have "set inflight = set (take k inflight @ ?t # drop (Suc k) inflight)"
    by (simp only: id_take_nth_drop [OF assms(2), symmetric])
  then have split: "set inflight = insert ?t (set ?rest)" by simp
  have t: "D (fst ?t) = Some (snd ?t)"
    using assms(1) nth_mem [OF assms(2)] unfolding covers_def by (cases ?t) fastforce
  show ?thesis
    unfolding covers_def
  proof (intro conjI allI impI)
    show "\<forall>(i, d) \<in> set ?rest. D i = Some d"
      using assms(1) split unfolding covers_def by blast
    fix i d assume "D i = Some d"
    then have "(i, d) \<in> set inflight \<or> store i = Some d"
      using assms(1) unfolding covers_def by blast
    with t \<open>D i = Some d\<close> split
    show "(i, d) \<in> set ?rest \<or> (store(fst ?t \<mapsto> snd ?t)) i = Some d"
      by (cases ?t; cases "i = fst ?t") auto
  qed
qed

section \<open>Uploading\<close>

context chunk_store
begin

lemma fill_Inr:
  "fill H h room acc s = (Inr buf, s') \<Longrightarrow>
   \<exists>b. buf = acc @ b \<and> unread s h = b @ unread s' h \<and> length b \<le> room
     \<and> (length b < room \<longrightarrow> unread s' h = []) \<and> stored s' = stored s \<and> files s' = files s"
proof (induction room arbitrary: acc s rule: less_induct)
  case (less room)
  show ?case
  proof (cases "room = 0")
    case True
    with less.prems show ?thesis by (simp add: fill.simps)
  next
    case False
    obtain r s1 where r: "file_read H h room s = (r, s1)" by fastforce
    then obtain c where c: "r = Inr c" using less.prems False by (cases r) (simp_all add: fill.simps)
    note read = read_ok [OF r [unfolded c]] read_frame [OF r] read_stored [OF r]
    show ?thesis
    proof (cases "c = []")
      case True
      then have "acc = buf" and "s1 = s'" using less.prems False r c by (simp_all add: fill.simps)
      with read True False show ?thesis by (intro exI [of _ "[]"]) auto
    next
      case ne: False
      then have "room - length c < room" using False by (cases c) auto
      moreover have "fill H h (room - length c) (acc @ c) s1 = (Inr buf, s')"
        using less.prems False r c ne by (subst (asm) fill.simps) simp
      ultimately obtain b where b: "buf = (acc @ c) @ b" "unread s1 h = b @ unread s' h"
        "length b \<le> room - length c" "length b < room - length c \<longrightarrow> unread s' h = []"
        "stored s' = stored s1" "files s' = files s1"
        using less.IH by blast
      with read show ?thesis by (intro exI [of _ "c @ b"]) auto
    qed
  qed
qed

lemma schedule_keeps:
  "schedule H n s = (k, s') \<Longrightarrow> stored s' = stored s \<and> unread s' = unread s \<and> files s' = files s"
  using schedule_frame schedule_stored by blast

lemma join_next_covers:
  assumes "inflight \<noteq> []" and "join_next H put inflight s = (Inr rest, s')"
    and "covers D inflight (stored s)"
  shows "covers D rest (stored s') \<and> unread s' = unread s \<and> files s' = files s"
proof -
  obtain k s1 where k: "k < length inflight" "rest = take k inflight @ drop (Suc k) inflight"
    and s1: "s1 = snd (schedule H (length inflight) s)"
    and run: "put (fst (inflight ! k)) (snd (inflight ! k)) s1 = (Inr (), s')"
    using join_next_Inr [OF assms(1,2)] by blast
  have "stored s1 = stored s" "unread s1 = unread s" "files s1 = files s"
    using schedule_keeps [of "length inflight" s "fst (schedule H (length inflight) s)" s1] s1 by simp_all
  with put_stores [OF run] put_files [OF run] covers_step [OF assms(3) k(1)] k(2) show ?thesis by simp
qed

lemma join_while_covers:
  "join_while H put limit inflight s = (Inr rest, s') \<Longrightarrow> covers D inflight (stored s) \<Longrightarrow>
   covers D rest (stored s') \<and> unread s' = unread s \<and> files s' = files s
   \<and> (rest = [] \<or> length rest < limit)"
proof (induction "length inflight" arbitrary: inflight s rule: less_induct)
  case less
  show ?case
  proof (cases "inflight = [] \<or> length inflight < limit")
    case True
    with less.prems show ?thesis by (auto simp: join_while.simps)
  next
    case False
    obtain r s1 where r: "join_next H put inflight s = (r, s1)" by fastforce
    with less.prems(1) False obtain mid where mid: "r = Inr mid"
      by (cases r) (simp_all add: join_while.simps)
    have "join_while H put limit mid s1 = (Inr rest, s')"
      using less.prems(1) False r mid by (subst (asm) join_while.simps) simp
    moreover have "length mid < length inflight"
      using join_next_shorter [of mid s1 H put inflight s] r mid False by simp
    moreover note join_next_covers [of inflight s mid s1 D] r mid less.prems(2) False
    ultimately show ?thesis using less.hyps [of mid s1] by simp
  qed
qed

text \<open>
  What the loop has done after reading the chunks \<open>ds\<close>, and what the upload has when it ends.
\<close>

definition progress :: "bytes list \<Rightarrow> hasher \<Rightarrow> u32 \<Rightarrow> u64 \<Rightarrow> task list \<Rightarrow> 's \<Rightarrow> bool" where
  "progress ds hasher chunks sent inflight s \<longleftrightarrow>
     length ds = unat chunks \<and> hasher = concat ds
   \<and> unat sent = min (length (concat ds)) (2 ^ 64 - 1) \<and> covers (chunk_map ds) inflight (stored s)"

lemma min_add_min: "min (min a m + b) m = min (a + b) (m :: nat)"
  by (simp add: min_def)

lemma progress_read:
  assumes "progress ds hasher chunks sent inflight s" and "checked_add_u32 chunks 1 = Some chunks'"
    and "stored s1 = stored s"
  shows "progress (ds @ [buf]) (hasher_update hasher buf) chunks'
    (sat_add_u64 sent (of_nat (length buf))) (inflight @ [(chunks, buf)]) s1
    \<or> 2 ^ 64 \<le> length buf"
proof (cases "2 ^ 64 \<le> length buf")
  case False
  then have "unat (of_nat (length buf) :: u64) = length buf" by (simp add: unat_of_nat)
  moreover have "unat chunks' = Suc (unat chunks)"
    using unat_checked_add_u32 [OF assms(2)] by simp
  moreover have "chunk_map ds chunks = None" using assms(1) by (simp add: progress_def chunk_map_def)
  ultimately show ?thesis
    using assms(1,3)
    by (simp add: progress_def unat_sat_add_u64 hasher_update_def chunk_map_snoc covers_new min_add_min)
qed simp

lemma upload_loop_Inr:
  "upload_loop H h chunk_size concurrency put hasher chunks sent inflight s
     = (Inr (hasher', chunks', sent', rest), s') \<Longrightarrow>
   0 < chunk_size \<Longrightarrow> chunk_size < 2 ^ 64 \<Longrightarrow> progress ds hasher chunks sent inflight s \<Longrightarrow>
   \<exists>ds'. progress ds' hasher' chunks' sent' rest s' \<and> concat ds' = concat ds @ unread s h
     \<and> ds' \<noteq> [] \<and> files s' = files s"
proof (induction "2 ^ 32 - unat chunks" arbitrary: hasher chunks sent inflight s ds rule: less_induct)
  case less
  note run = less.prems(1) [unfolded upload_loop.simps [of H h chunk_size concurrency put hasher chunks sent inflight s]]
  obtain r s1 where r: "fill H h chunk_size [] s = (r, s1)" by fastforce
  then obtain buf where buf: "r = Inr buf" using run by (cases r) simp_all
  obtain filled: "unread s h = buf @ unread s1 h" and "length buf \<le> chunk_size"
    and eof: "length buf < chunk_size \<longrightarrow> unread s1 h = []"
    and s1: "stored s1 = stored s" "files s1 = files s"
    using fill_Inr [OF r [unfolded buf]] by auto
  show ?case
  proof (cases "buf = [] \<and> chunks > 0")
    case True
    with run r buf have "hasher' = hasher" "chunks' = chunks" "sent' = sent" "rest = inflight" "s' = s1"
      by simp_all
    moreover have "unread s h = []" using True filled eof less.prems(2) by simp
    moreover have "0 < unat chunks" using True by (simp add: word_less_nat_alt)
    then have "ds \<noteq> []" using less.prems(4) by (auto simp: progress_def)
    ultimately show ?thesis
      using less.prems(4) s1 by (intro exI [of _ ds]) (simp add: progress_def)
  next
    case False
    define hasher1 where "hasher1 = hasher_update hasher buf"
    define sent1 where "sent1 = sat_add_u64 sent (of_nat (length buf))"
    obtain chunks1 where chunks1: "checked_add_u32 chunks 1 = Some chunks1"
      using run r buf False by (cases "checked_add_u32 chunks 1") (auto simp: bail_def)
    obtain q s2 where q: "join_while H put concurrency (inflight @ [(chunks, buf)]) s1 = (q, s2)" by fastforce
    with run r buf False chunks1 obtain mid where mid: "q = Inr mid" by (cases q) auto
    have p1: "progress (ds @ [buf]) hasher1 chunks1 sent1 (inflight @ [(chunks, buf)]) s1"
      using progress_read [OF less.prems(4) chunks1 s1(1), of buf] less.prems(3) \<open>length buf \<le> chunk_size\<close>
      unfolding hasher1_def sent1_def by auto
    then have joined: "covers (chunk_map (ds @ [buf])) mid (stored s2)" "unread s2 = unread s1" "files s2 = files s1"
      using join_while_covers [OF q [unfolded mid]] unfolding progress_def by blast+
    then have p2: "progress (ds @ [buf]) hasher1 chunks1 sent1 mid s2"
      using p1 unfolding progress_def by blast
    show ?thesis
    proof (cases "length buf < chunk_size")
      case True
      with run r buf False chunks1 q mid have "hasher' = hasher1" "chunks' = chunks1" "sent' = sent1"
        "rest = mid" "s' = s2"
        by (simp_all add: hasher1_def sent1_def split: if_splits)
      with p2 joined filled eof True s1 show ?thesis by (intro exI [of _ "ds @ [buf]"]) auto
    next
      case full: False
      have "upload_loop H h chunk_size concurrency put hasher1 chunks1 sent1 mid s2
          = (Inr (hasher', chunks', sent', rest), s')"
        using run r buf False chunks1 q mid full by (simp add: hasher1_def sent1_def split: if_splits)
      moreover have "2 ^ 32 - unat chunks1 < 2 ^ 32 - unat chunks"
        using unat_checked_add_u32 [OF chunks1] unat_u32_less [of chunks1] by simp
      ultimately obtain ds' where "progress ds' hasher' chunks' sent' rest s'"
        "concat ds' = concat (ds @ [buf]) @ unread s2 h" "files s' = files s2" "ds' \<noteq> []"
        using less.hyps less.prems(2,3) p2 by blast
      then show ?thesis using joined filled s1 by (intro exI [of _ ds']) auto
    qed
  qed
qed

lemma upload_chunks_Inr:
  assumes "upload_chunks E H source chunk_size concurrency put s = (Inr (n, sent, sha), s')"
    and "0 < chunk_size" and "chunk_size < 2 ^ 64"
  shows "\<exists>ds content. files s source = Some content \<and> concat ds = content \<and> length ds = unat n \<and> ds \<noteq> []
    \<and> unat sent = min (length content) (2 ^ 64 - 1) \<and> sha = hex (sha256 E content)
    \<and> (\<forall>i. unat i < unat n \<longrightarrow> stored s' i = Some (ds ! unat i)) \<and> files s' = files s"
proof -
  obtain h s1 hasher rest s2 fin where op: "file_open H source s = (Inr h, s1)"
    and up: "upload_loop H h chunk_size (upload_concurrency concurrency chunk_size) put hasher_new 0 0 [] s1
      = (Inr (hasher, n, sent, rest), s2)"
    and join: "join_while H put 1 rest s2 = (Inr fin, s')" and sha: "sha = finish_hex E hasher"
    using assms(1) by (auto simp: upload_chunks_def Let_def io_then_Inr)
  have "progress [] hasher_new 0 0 [] s1"
    by (simp add: progress_def hasher_new_def covers_def)
  then obtain ds where p: "progress ds hasher n sent rest s2" and ds: "concat ds = unread s1 h" "ds \<noteq> []"
    and fs: "files s2 = files s1"
    using upload_loop_Inr [OF up assms(2,3), of "[]"] by auto
  have c: "covers (chunk_map ds) rest (stored s2)" using p by (simp add: progress_def)
  note j = join_while_covers [OF join c]
  then have "covers (chunk_map ds) [] (stored s')" and "files s' = files s" 
    using fs open_frame [OF op] by auto
  then have "\<forall>i. unat i < unat n \<longrightarrow> stored s' i = Some (ds ! unat i)"
    using p by (auto simp: progress_def chunk_map_def intro: covers_Nil)
  with p ds open_ok [OF op] sha \<open>files s' = files s\<close> show ?thesis
    by (intro exI [of _ ds]) (auto simp: progress_def finish_hex_def)
qed

section \<open>Assembling\<close>

lemma copy_chunks_Inr:
  "copy_chunks H get X declared h is written hasher s = (Inr (w, hasher'), s') \<Longrightarrow>
   target s h = Some p \<Longrightarrow> files s p = Some old \<Longrightarrow>
   \<exists>ds. map (stored s) is = map Some ds \<and> hasher' = hasher @ concat ds
     \<and> (length (concat ds) < 2 ^ 64 \<longrightarrow> unat w = min (unat written + length (concat ds)) (2 ^ 64 - 1))
     \<and> files s' = (files s)(p \<mapsto> old @ concat ds) \<and> stored s' = stored s"
proof (induction "is" arbitrary: written hasher s old)
  case Nil
  then show ?case using unat_u64_less [of written] by (auto simp: fun_upd_idem)
next
  case (Cons i js)
  from Cons.prems(1) obtain d s1 u s2 where get: "get i s = (Inr (Some d), s1)"
    and wr: "file_write_all H h d s1 = (Inr u, s2)"
    and go: "copy_chunks H get X declared h js (sat_add_u64 written (of_nat (length d)))
      (hasher_update hasher d) s2 = (Inr (w, hasher'), s')"
    by (auto simp: io_then_Inr Let_def)
  have s1: "stored s1 = stored s" "files s1 = files s" "target s1 = target s"
    using get_frame [OF get] by simp_all
  have s2: "files s2 = (files s)(p \<mapsto> old @ d)" "target s2 h = Some p" "stored s2 = stored s"
    using write_ok [OF wr, of p old] s1 Cons.prems(2,3) write_stored [OF wr] by simp_all
  then have f2: "files s2 p = Some (old @ d)" by simp
  obtain ds where ds: "map (stored s2) js = map Some ds" "hasher' = hasher_update hasher d @ concat ds"
    "length (concat ds) < 2 ^ 64 \<longrightarrow>
      unat w = min (unat (sat_add_u64 written (of_nat (length d))) + length (concat ds)) (2 ^ 64 - 1)"
    "files s' = (files s2)(p \<mapsto> (old @ d) @ concat ds)" "stored s' = stored s2"
    using Cons.IH [OF go s2(2) f2] by blast
  have "stored s i = Some d" using get_exact [OF get] by simp
  moreover have "unat w = min (unat written + length (concat (d # ds))) (2 ^ 64 - 1)"
    if "length (concat (d # ds)) < 2 ^ 64"
    using that ds(3) by (simp add: unat_sat_add_u64 unat_of_nat min_add_min)
  ultimately show ?case
    using ds s2 by (intro exI [of _ "d # ds"]) (simp add: hasher_update_def)
qed

text \<open>Whatever a copy ends with, it wrote to its own file only.\<close>

lemma copy_chunks_frame:
  "copy_chunks H get X declared h js written hasher s = (r, s') \<Longrightarrow>
   target s h = Some p \<Longrightarrow> files s p = Some old \<Longrightarrow> q \<noteq> p \<Longrightarrow>
   files s' q = files s q \<and> stored s' = stored s"
proof (induction js arbitrary: written hasher s old)
  case Nil
  then show ?case by simp
next
  case (Cons i js)
  obtain g s1 where g: "get i s = (g, s1)" by fastforce
  have s1: "stored s1 = stored s" "files s1 = files s" "target s1 = target s"
    using get_frame [OF g] by simp_all
  show ?case
  proof (cases "\<exists>d. g = Inr (Some d) \<and> \<not> sat_add_u64 written (of_nat (length d)) > declared")
    case False
    with Cons.prems(1) g have "s' = s1"
      by (cases g) (auto simp: io_then_def io_lift_def ok_or_def Let_def split: option.splits sum.splits)
    with s1 show ?thesis by simp
  next
    case True
    then obtain d where d: "g = Inr (Some d)" "\<not> sat_add_u64 written (of_nat (length d)) > declared" by blast
    obtain u s2 where wr: "file_write_all H h d s1 = (u, s2)" by fastforce
    note stored2 = write_stored [OF wr]
    show ?thesis
    proof (cases u)
      case (Inl e)
      have "s' = s2" using Cons.prems(1) g d wr Inl
        by (simp add: io_then_def io_lift_def ok_or_def Let_def io_context_def)
      with write_err [OF wr [unfolded Inl], of p] s1 Cons.prems stored2 show ?thesis by simp
    next
      case (Inr v)
      have go: "copy_chunks H get X declared h js (sat_add_u64 written (of_nat (length d)))
          (hasher_update hasher d) s2 = (r, s')"
        using Cons.prems(1) g d wr Inr
        by (simp add: io_then_def io_lift_def ok_or_def Let_def io_context_def)
      have s2: "files s2 = (files s)(p \<mapsto> old @ d)" "target s2 h = Some p"
        using write_ok [OF wr [unfolded Inr], of p old] s1 Cons.prems(2,3) by simp_all
      have "files s2 p = Some (old @ d)" using s2(1) by simp
      from Cons.IH [OF go s2(2) this Cons.prems(4)] s2 s1 stored2 Cons.prems(4) show ?thesis by simp
    qed
  qed
qed

lemma map_chunk_indices:
  assumes "map store (chunk_indices n) = map Some ds"
  shows "length ds = unat n \<and> (\<forall>i. unat i < unat n \<longrightarrow> store i = Some (ds ! unat i))"
proof -
  have len: "length ds = unat n"
    using arg_cong [OF assms, of length] by (simp add: chunk_indices_def)
  have "store i = Some (ds ! unat i)" if "unat i < unat n" for i
  proof -
    have "map store (chunk_indices n) ! unat i = store i"
      using that by (simp add: chunk_indices_def)
    moreover have "map Some ds ! unat i = Some (ds ! unat i)" using that len by simp
    ultimately show ?thesis using assms by simp
  qed
  with len show ?thesis by blast
qed

lemma verified_copy_Inr:
  assumes "verified_copy E H get X m temp s = (Inr w, s')"
  shows "\<exists>ds. length ds = unat (mf_chunks m) \<and> (\<forall>i. unat i < unat (mf_chunks m) \<longrightarrow> stored s i = Some (ds ! unat i))
    \<and> files s' = (files s)(temp \<mapsto> concat ds) \<and> stored s' = stored s
    \<and> hex (sha256 E (concat ds)) = mf_sha256 m \<and> w = mf_total_bytes m
    \<and> (length (concat ds) < 2 ^ 64 \<longrightarrow> unat w = length (concat ds))"
proof -
  obtain h s1 hasher s2 u where create: "file_create H temp s = (Inr h, s1)"
    and copy: "copy_chunks H get X (mf_total_bytes m) h (chunk_indices (mf_chunks m)) 0 hasher_new s1
      = (Inr (w, hasher), s2)"
    and flush: "file_flush H h s2 = (Inr u, s')"
    and checks: "w = mf_total_bytes m" "finish_hex E hasher = mf_sha256 m"
    using assms
    by (auto simp: verified_copy_def Let_def io_then_Inr split: option.splits prod.splits)
  have s1: "files s1 = (files s)(temp \<mapsto> [])" "target s1 h = Some temp" "stored s1 = stored s"
    using create_ok [OF create] create_stored [OF create] by simp_all
  have f1: "files s1 temp = Some []" using s1(1) by simp
  obtain ds where ds: "map (stored s1) (chunk_indices (mf_chunks m)) = map Some ds"
    "hasher = hasher_new @ concat ds"
    "length (concat ds) < 2 ^ 64 \<longrightarrow> unat w = min (unat (0 :: u64) + length (concat ds)) (2 ^ 64 - 1)"
    "files s2 = (files s1)(temp \<mapsto> [] @ concat ds)" "stored s2 = stored s1"
    using copy_chunks_Inr [OF copy s1(2) f1] by blast
  show ?thesis
    using ds checks s1 map_chunk_indices [OF ds(1)] flush_ok [OF flush] flush_stored [OF flush]
    by (intro exI [of _ ds]) (auto simp: finish_hex_def hasher_new_def)
qed

lemma verified_copy_frame:
  assumes "verified_copy E H get X m temp s = (r, s')" and "q \<noteq> temp"
  shows "files s' q = files s q \<and> stored s' = stored s"
proof -
  obtain h s1 where create: "file_create H temp s = (h, s1)" by fastforce
  show ?thesis
  proof (cases h)
    case (Inl e)
    with assms create have "s' = s1" by (auto simp: verified_copy_def Let_def io_then_def io_context_def)
    with create_err [OF create [unfolded Inl]] create_stored [OF create] assms(2) show ?thesis by simp
  next
    case (Inr hd)
    have s1: "files s1 = (files s)(temp \<mapsto> [])" "target s1 hd = Some temp" "stored s1 = stored s"
      using create_ok [OF create [unfolded Inr]] create_stored [OF create] by simp_all
    obtain c s2 where copy: "copy_chunks H get X (mf_total_bytes m) hd (chunk_indices (mf_chunks m)) 0 hasher_new s1
      = (c, s2)" by fastforce
    obtain fr s3 where flush: "file_flush H hd s2 = (fr, s3)" by fastforce
    have "s' = s2 \<or> s' = s3"
      using assms(1) create Inr copy flush
      by (cases c; cases fr)
        (auto simp: verified_copy_def Let_def io_then_def io_context_def io_lift_def io_ok_def
          split: option.splits sum.splits)
    moreover have "files s1 temp = Some []" using s1(1) by simp
    note copy_chunks_frame [OF copy s1(2) this assms(2)]
    ultimately show ?thesis
      using flush_ok [OF flush] flush_stored [OF flush] s1 assms(2) by auto
  qed
qed

end

section \<open>The transport provides it\<close>

text \<open>The chunks an area of the bucket holds: what opens at each chunk's own key.\<close>

definition sealed_chunks ::
  "'z libs_scheme \<Rightarrow> crypto \<Rightarrow> (u32 \<Rightarrow> string) \<Rightarrow> (string \<Rightarrow> bytes option) \<Rightarrow> u32 \<Rightarrow> bytes option" where
  "sealed_chunks E cr key objs i = (case objs (key i) of None \<Rightarrow> None
     | Some raw \<Rightarrow> (case open_bytes E cr (key i) raw of Inl _ \<Rightarrow> None | Inr d \<Rightarrow> Some d))"

lemma chunk_keys_inj:
  "blob_chunk_key T a t i = blob_chunk_key T a t j \<longleftrightarrow> i = j"
  "release_chunk_key T r i = release_chunk_key T r j \<longleftrightarrow> i = j"
  "share_chunk_key T n i = share_chunk_key T n j \<longleftrightarrow> i = j"
  by (auto simp: blob_chunk_key_def release_chunk_key_def share_chunk_key_def word_unat_eq_iff
      dest: dec_padded_inj)

context machine
begin

lemma chunk_stores:
  assumes "put_chunk E cr what (key i) d s = (Inr u, s')" and "\<And>j. key j = key i \<longleftrightarrow> j = i"
  shows "sealed_chunks E cr key (view s') = (sealed_chunks E cr key (view s))(i \<mapsto> d)"
proof -
  obtain b where "view s' = (view s)(key i \<mapsto> b)" "open_bytes E cr (key i) b = Inr d"
    using put_chunk_Inr [OF assms(1)] by blast
  then show ?thesis using assms(2) by (auto simp: sealed_chunks_def fun_eq_iff)
qed

lemma chunk_exact:
  assumes "get_chunk E cr (key i) s = (Inr r, s')"
  shows "r = sealed_chunks E cr key (view s) i"
  using get_chunk_Inr [OF assms] by (auto simp: sealed_chunks_def split: option.splits)

abbreviation "disk \<equiv> \<lambda>s. (files s, unread s, target s)"

lemma put_chunk_disk: "leaves disk (put_chunk E cr what k d)"
  unfolding put_chunk_def put_raw_def seal_bytes_def
  by (intro leaves_intros put_object_local random_local)

lemma get_chunk_disk: "leaves disk (get_chunk E cr k)"
  unfolding get_chunk_def get_raw_def Let_def
  by (intro leaves_intros get_object_local)

lemma put_validated_disk: "leaves disk (io_then (io_lift r) (\<lambda>_. put_chunk E cr what k d))"
  by (intro leaves_intros put_chunk_disk)

text \<open>An area with injective chunk keys is a chunk store.\<close>

lemma area_is_chunk_store:
  assumes "\<And>i d s u s'. put i d s = (Inr u, s') \<Longrightarrow> \<exists>s0. view s0 = view s \<and> put_chunk E cr what (key i) d s0 = (Inr u, s')"
    and "\<And>i s r s'. get i s = (Inr r, s') \<Longrightarrow> get_chunk E cr (key i) s = (Inr r, s')"
    and "\<And>i d. leaves disk (put i d)" and "\<And>i. leaves disk (get i)" and "\<And>i. leaves view (get i)"
    and inj: "\<And>i j. key j = key i \<longleftrightarrow> j = i"
  shows "chunk_store H files unread target put get (\<lambda>s. sealed_chunks E cr key (view s))"
proof
  fix i d s u s' r rb
  show "put i d s = (Inr u, s') \<Longrightarrow>
      sealed_chunks E cr key (view s') = (sealed_chunks E cr key (view s))(i \<mapsto> d)"
    using assms(1) chunk_stores [of cr what key i d] inj by metis
  show "put i d s = (rb, s') \<Longrightarrow> files s' = files s \<and> unread s' = unread s \<and> target s' = target s"
    using leavesD [OF assms(3)] by fast
  show "get i s = (Inr r, s') \<Longrightarrow> r = sealed_chunks E cr key (view s) i"
    using assms(2) chunk_exact by metis
next
  fix i s rb s'
  show "get i s = (rb, s') \<Longrightarrow> sealed_chunks E cr key (view s') = sealed_chunks E cr key (view s)
      \<and> files s' = files s \<and> unread s' = unread s \<and> target s' = target s"
    using leavesD [OF assms(4), of i s rb s'] leavesD [OF assms(5), of i s rb s'] by simp
qed (use leavesD [OF open_remote] leavesD [OF read_remote] leavesD [OF create_remote]
    leavesD [OF write_remote] leavesD [OF flush_remote] schedule_remote in \<open>auto, metis snd_conv\<close>)

lemma get_chunk_remote: "leaves view (get_chunk E cr k)"
  unfolding leaves_def using get_chunk_view by (metis prod.collapse)

lemma blob_area:
  "chunk_store H files unread target (put_blob_chunk E T a t) (get_blob_chunk E T a t)
     (\<lambda>s. sealed_chunks E (tp_crypto T) (blob_chunk_key T a t) (view s))"
proof (rule area_is_chunk_store [where what = "''blob''"])
  show "leaves disk (put_blob_chunk E T a t i d)" "leaves disk (get_blob_chunk E T a t i)"
    "leaves view (get_blob_chunk E T a t i)" for i d
    unfolding put_blob_chunk_def get_blob_chunk_def
    by (intro leaves_intros put_chunk_disk get_chunk_disk get_chunk_remote)+
qed (auto simp: put_blob_chunk_def get_blob_chunk_def io_then_Inr chunk_keys_inj)

lemma release_area:
  "chunk_store H files unread target (\<lambda>i d. put_release_chunk E T r i d cr) (\<lambda>i. get_release_chunk E T r i cr)
     (\<lambda>s. sealed_chunks E cr (release_chunk_key T r) (view s))"
proof (rule area_is_chunk_store [where what = "''release''"])
  show "leaves disk (put_release_chunk E T r i d cr)" "leaves disk (get_release_chunk E T r i cr)"
    "leaves view (get_release_chunk E T r i cr)" for i d
    unfolding put_release_chunk_def get_release_chunk_def
    by (intro leaves_intros put_chunk_disk get_chunk_disk get_chunk_remote)+
qed (auto simp: put_release_chunk_def get_release_chunk_def io_then_Inr chunk_keys_inj)

lemma share_area:
  "chunk_store H files unread target (\<lambda>i d. put_share_chunk E T n i d cr) (\<lambda>i. get_share_chunk E T n i cr)
     (\<lambda>s. sealed_chunks E cr (share_chunk_key T n) (view s))"
proof (rule area_is_chunk_store [where what = "''share''"])
  show "leaves disk (put_share_chunk E T n i d cr)" "leaves disk (get_share_chunk E T n i cr)"
    "leaves view (get_share_chunk E T n i cr)" for i d
    unfolding put_share_chunk_def get_share_chunk_def
    by (intro leaves_intros put_chunk_disk get_chunk_disk get_chunk_remote)+
qed (auto simp: put_share_chunk_def get_share_chunk_def io_then_Inr chunk_keys_inj)

end

sublocale machine \<subseteq> blob: chunk_store H files unread target "put_blob_chunk E T a t" "get_blob_chunk E T a t"
    "\<lambda>s. sealed_chunks E (tp_crypto T) (blob_chunk_key T a t) (view s)" for T a t
  by (rule blob_area)

sublocale machine \<subseteq> release: chunk_store H files unread target "\<lambda>i d. put_release_chunk E T r i d cr"
    "\<lambda>i. get_release_chunk E T r i cr" "\<lambda>s. sealed_chunks E cr (release_chunk_key T r) (view s)" for T r cr
  by (rule release_area)

sublocale machine \<subseteq> share: chunk_store H files unread target "\<lambda>i d. put_share_chunk E T n i d cr"
    "\<lambda>i. get_share_chunk E T n i cr" "\<lambda>s. sealed_chunks E cr (share_chunk_key T n) (view s)" for T n cr
  by (rule share_area)

section \<open>Assembling into place\<close>

lemma temp_sibling_neq: "temp_sibling p \<noteq> p"
proof (cases "file_name p")
  case None
  then show ?thesis by (cases p) (auto simp: temp_sibling_def with_file_name_def push_name_def)
next
  case (Some n)
  then have "components p \<noteq> []" and "last (components p) = n"
    by (auto simp: file_name_def Let_def split: if_splits)
  with Some show ?thesis
    by (cases p; cases "components p" rule: rev_cases)
      (auto simp: temp_sibling_def with_file_name_def push_name_def)
qed

context machine
begin

lemma assemble_file_Inr:
  assumes "assemble_file E H T a t m dest s = (Inr w, s')"
  shows "\<exists>ds. length ds = unat (mf_chunks m)
    \<and> (\<forall>i. unat i < unat (mf_chunks m) \<longrightarrow>
        sealed_chunks E (tp_crypto T) (blob_chunk_key T a t) (view s) i = Some (ds ! unat i))
    \<and> files s' = (files s)(dest \<mapsto> concat ds, temp_sibling dest := None)
    \<and> hex (sha256 E (concat ds)) = mf_sha256 m \<and> w = mf_total_bytes m
    \<and> (length (concat ds) < 2 ^ 64 \<longrightarrow> unat w = length (concat ds))"
proof -
  let ?temp = "temp_sibling dest"
  obtain r s1 where r: "assemble_into E H T a t m ?temp s = (r, s1)" by fastforce
  with assms obtain w' u where w': "r = Inr w'" "w' = w" and mv: "rename_path H ?temp dest s1 = (Inr u, s')"
    by (cases r) (auto simp: assemble_file_def Let_def io_then_Inr io_attempt_def)
  have copy: "verified_copy E H (get_blob_chunk E T a t) transfer_texts m ?temp s = (Inr w, s1)"
    using r w' by (simp add: assemble_into_def)
  from blob.verified_copy_Inr [OF copy] obtain ds where ds: "length ds = unat (mf_chunks m)"
    "\<forall>i. unat i < unat (mf_chunks m) \<longrightarrow>
        sealed_chunks E (tp_crypto T) (blob_chunk_key T a t) (view s) i = Some (ds ! unat i)"
    "files s1 = (files s)(?temp \<mapsto> concat ds)"
    "hex (sha256 E (concat ds)) = mf_sha256 m" "w = mf_total_bytes m"
    "length (concat ds) < 2 ^ 64 \<longrightarrow> unat w = length (concat ds)" by blast
  have "files s1 ?temp = Some (concat ds)" using ds(3) by simp
  from rename_ok [OF mv this temp_sibling_neq] ds(3)
  have "files s' = (files s)(dest \<mapsto> concat ds, ?temp := None)" by auto
  with ds show ?thesis by blast
qed

lemma assemble_file_Inl:
  assumes "assemble_file E H T a t m dest s = (Inl e, s')" and "q \<noteq> temp_sibling dest"
  shows "files s' q = files s q"
proof -
  let ?temp = "temp_sibling dest"
  obtain r s1 where r: "assemble_into E H T a t m ?temp s = (r, s1)" by fastforce
  have copy: "verified_copy E H (get_blob_chunk E T a t) transfer_texts m ?temp s = (r, s1)"
    using r by (simp add: assemble_into_def)
  have s1: "files s1 q = files s q" using blob.verified_copy_frame [OF copy assms(2)] by simp
  show ?thesis
  proof (cases r)
    case (Inl e')
    obtain u s2 where rm: "remove_file H ?temp s1 = (u, s2)" by fastforce
    have "s' = s2" using assms(1) r Inl rm
      by (simp add: assemble_file_def Let_def io_then_def io_attempt_def io_ignore_def io_lift_def)
    moreover have "files s2 q = files s1 q"
      using remove_file_ok [of ?temp s1 _ s2] remove_file_err [of ?temp s1 _ s2] rm assms(2)
      by (cases u) auto
    ultimately show ?thesis using s1 by simp
  next
    case (Inr w)
    obtain u s2 where mv: "rename_path H ?temp dest s1 = (u, s2)" by fastforce
    with assms(1) r Inr have "u = Inl (tl e)" "s' = s2"
      by (cases u; auto simp: assemble_file_def Let_def io_then_def io_attempt_def io_context_def io_ok_def)+
    with rename_err mv s1 show ?thesis by simp
  qed
qed

lemma stage_file_Inr:
  assumes "stage_file E H concurrency T a t source s = (Inr m, s')"
  shows "\<exists>ds content. files s source = Some content \<and> concat ds = content
    \<and> length ds = unat (mf_chunks m) \<and> ds \<noteq> []
    \<and> unat (mf_total_bytes m) = min (length content) (2 ^ 64 - 1)
    \<and> mf_sha256 m = hex (sha256 E content)
    \<and> (\<forall>i. unat i < unat (mf_chunks m) \<longrightarrow>
        sealed_chunks E (tp_crypto T) (blob_chunk_key T a t) (view s') i = Some (ds ! unat i))"
proof -
  have up: "upload_chunks E H source BLOB_CHUNK_BYTES concurrency (put_blob_chunk E T a t) s
      = (Inr (mf_chunks m, mf_total_bytes m, mf_sha256 m), s')"
    using assms by (auto simp: stage_file_def io_then_Inr split: prod.splits)
  have "0 < BLOB_CHUNK_BYTES" "BLOB_CHUNK_BYTES < 2 ^ 64" by (simp_all add: BLOB_CHUNK_BYTES_def)
  from blob.upload_chunks_Inr [OF up this] show ?thesis by blast
qed

end

section \<open>A transfer on the concrete machine\<close>

definition source_path :: path where "source_path = Path True [''src'']"
definition dest_path :: path where "dest_path = Path True [''dst'']"

definition with_source :: mem where
  "with_source = mem_start\<lparr>mem_files := [(source_path, [1, 2, 3, 4, 5])]\<rparr>"

definition sample_manifest :: manifest where
  "sample_manifest = \<lparr>mf_chunks = 1, mf_total_bytes = 5, mf_sha256 = hex (toy_sha256 [1, 2, 3, 4, 5])\<rparr>"

lemma toy_uuid_sample: "n < 10 \<Longrightarrow> toy_uuid_ok (sample_uuid n)"
  by (simp add: toy_uuid_ok_def sample_uuid_def is_ascii_alphanumeric_def is_ascii_digit_def in_range_def list_all_iff)

lemma mem_upload:
  assumes "quiet w0" and "mem_fs w0 source_path = Some [1, 2, 3, 4, 5]" and "mem_picks w0 = []"
    and put: "\<And>w. quiet w \<Longrightarrow> \<exists>b. put 0 [1, 2, 3, 4, 5] w = (Inr (), stored k b (reseeded w)) \<and> length b \<le> MAX_RELAY_OBJECT_BYTES"
  shows "\<exists>s'. upload_chunks (mem_env T) mem_host source_path BLOB_CHUNK_BYTES 8 put w0
      = (Inr (1, 5, hex (toy_sha256 [1, 2, 3, 4, 5])), s') \<and> quiet s' \<and> mem_clock s' = mem_clock w0"
proof -
  obtain w h where op: "file_open mem_host source_path w0 = (Inr h, w)"
    and w: "mem_unread w h = [1, 2, 3, 4, 5]" "quiet w" "mem_picks w = []" "mem_clock w = mem_clock w0"
    using assms(1-3) by (simp add: mem_open_def mem_fs_def mem_unread_def quiet_def)
  obtain w1 where ff: "fill mem_host h BLOB_CHUNK_BYTES [] w = (Inr [1, 2, 3, 4, 5], w1)"
    and w1: "quiet w1" "mem_picks w1 = []" "mem_clock w1 = mem_clock w0"
    using w by (simp add: fill.simps BLOB_CHUNK_BYTES_def mem_read_def Let_def mem_unread_def quiet_def)
  have conc: "upload_concurrency 8 BLOB_CHUNK_BYTES = 8"
    by (simp add: upload_concurrency_def BLOB_CHUNK_BYTES_def MAX_UPLOAD_CONCURRENCY_def USIZE_MAX_def
        UPLOAD_MEMORY_BUDGET_def Let_def)
  have small: "length [1, 2, 3, 4, 5 :: u8] < BLOB_CHUNK_BYTES" by (simp add: BLOB_CHUNK_BYTES_def)
  have loop: "upload_loop mem_host h BLOB_CHUNK_BYTES 8 put hasher_new 0 0 [] w
      = (Inr ([1, 2, 3, 4, 5], 1, 5, [(0, [1, 2, 3, 4, 5])]), w1)"
    by (subst upload_loop.simps)
      (simp add: ff small [simplified] Let_def checked_add_u32_def join_while.simps hasher_update_def hasher_new_def sat_add_u64_def)
  obtain b where b: "put 0 [1, 2, 3, 4, 5] w1 = (Inr (), stored k b (reseeded w1))" "length b \<le> MAX_RELAY_OBJECT_BYTES"
    using put [OF w1(1)] by blast
  have same: "w1\<lparr>mem_picks := []\<rparr> = w1" using w1(2) by (cases w1) simp
  have "join_next mem_host put [(0, [1, 2, 3, 4, 5])] w1 = (Inr [], stored k b (reseeded w1))"
    unfolding join_next_def mem_host_sel w1(2)
    by (simp only: same list.case drop_Nil prod.case Let_def) (simp add: b io_then_def io_ok_def)
  then have join: "join_while mem_host put 1 [(0, [1, 2, 3, 4, 5])] w1 = (Inr [], stored k b (reseeded w1))"
    by (simp add: join_while.simps)
  have "upload_chunks (mem_env T) mem_host source_path BLOB_CHUNK_BYTES 8 put w0
      = (Inr (1, 5, hex (toy_sha256 [1, 2, 3, 4, 5])), stored k b (reseeded w1))"
    using op loop join conc
    by (simp add: upload_chunks_def Let_def io_then_def io_context_def io_ok_def finish_hex_def)
  with w1 b show ?thesis by (auto intro: quiet_stored)
qed

lemma mem_stage:
  "\<exists>s'. stage_file (mem_env T) mem_host 8 sample_transport ''alpha'' (sample_uuid 3) source_path with_source
      = (Inr sample_manifest, s') \<and> quiet s'"
proof -
  let ?k = "blob_chunk_key sample_transport ''alpha'' (sample_uuid 3) 0"
  have "\<exists>b. put_blob_chunk (mem_env T) sample_transport ''alpha'' (sample_uuid 3) 0 [1, 2, 3, 4, 5] w
      = (Inr (), stored ?k b (reseeded w)) \<and> length b \<le> MAX_RELAY_OBJECT_BYTES" if "quiet w" for w
    using mem_put_chunk [OF that, of "[1, 2, 3, 4, 5]" T "tp_crypto sample_transport" "''blob''" ?k]
    by (auto simp: MAX_RELAY_OBJECT_BYTES_def put_blob_chunk_def io_then_def io_lift_def io_ok_def
        validate_transfer_id_def toy_uuid_sample)
  from mem_upload [where T = T and put = "put_blob_chunk (mem_env T) sample_transport ''alpha'' (sample_uuid 3)",
      OF _ _ _ this, of with_source]
  obtain s' where "upload_chunks (mem_env T) mem_host source_path BLOB_CHUNK_BYTES 8
      (put_blob_chunk (mem_env T) sample_transport ''alpha'' (sample_uuid 3)) with_source
      = (Inr (1, 5, hex (toy_sha256 [1, 2, 3, 4, 5])), s')" and "quiet s'"
    by (auto simp: with_source_def mem_start_def quiet_def mem_fs_def)
  then show ?thesis by (simp add: stage_file_def io_then_def io_ok_def sample_manifest_def)
qed

lemma mem_assemble:
  assumes "quiet w" and "mem_view w (blob_chunk_key sample_transport ''alpha'' (sample_uuid 3) 0) = Some b"
    and "open_bytes (mem_env T) (tp_crypto sample_transport)
      (blob_chunk_key sample_transport ''alpha'' (sample_uuid 3) 0) b = Inr [1, 2, 3, 4, 5]"
  shows "\<exists>s'. assemble_file (mem_env T) mem_host sample_transport ''alpha'' (sample_uuid 3) sample_manifest dest_path w
    = (Inr 5, s')"
proof -
  let ?E = "mem_env T" and ?P = sample_transport and ?k = "blob_chunk_key sample_transport ''alpha'' (sample_uuid 3) 0"
  obtain h w1 where c: "file_create mem_host (temp_sibling dest_path) w = (Inr h, w1)"
    and w1: "quiet w1" "mem_view w1 = mem_view w" "mem_target w1 h = Some (temp_sibling dest_path)"
    using assms(1) by (simp add: mem_create_def quiet_def mem_view_def mem_target_def)
  have get: "get_blob_chunk ?E ?P ''alpha'' (sample_uuid 3) 0 w1 = (Inr (Some [1, 2, 3, 4, 5]), w1)"
    using assms(2,3) w1 mem_get_raw [OF w1(1), of MAX_BLOB_CHUNK_BYTES T ?k]
    by (simp add: get_blob_chunk_def get_chunk_def io_then_def io_lift_def io_ok_def validate_transfer_id_def
        toy_uuid_sample MAX_BLOB_CHUNK_BYTES_def MAX_RELAY_OBJECT_BYTES_def)
  obtain w2 where wr: "file_write_all mem_host h [1, 2, 3, 4, 5] w1 = (Inr (), w2)"
    and w2: "mem_fs w2 (temp_sibling dest_path) \<noteq> None"
    using w1(3) by (simp add: mem_write_all_def mem_fs_def)
  then obtain s' where mv: "rename_path mem_host (temp_sibling dest_path) dest_path w2 = (Inr (), s')"
    by (auto simp: mem_rename_def)
  have "verified_copy ?E mem_host (get_blob_chunk ?E ?P ''alpha'' (sample_uuid 3)) transfer_texts sample_manifest
      (temp_sibling dest_path) w = (Inr 5, w2)"
    using c get wr
    by (simp add: verified_copy_def Let_def io_then_def io_context_def io_lift_def io_ok_def sample_manifest_def
        chunk_indices_def ok_or_def sat_add_u64_def hasher_update_def hasher_new_def finish_hex_def transfer_texts_def)
  with mv show ?thesis
    by (simp add: assemble_file_def assemble_into_def Let_def io_then_def io_attempt_def io_context_def io_ok_def)
qed

section \<open>Properties\<close>

text \<open>
  Staging a file describes it: the manifest carries the file's length and SHA-256, there
  is at least one chunk, and the bucket holds exactly the chunks, each at its own index,
  whose concatenation is the file; however the uploads in flight were scheduled.
\<close>

theorem staged_manifest_describes_file:
  assumes "machine E view rest H files unread target"
    and "stage_file E H concurrency T agent transfer source s = (Inr m, s')"
  shows "\<exists>ds content. files s source = Some content \<and> concat ds = content \<and> ds \<noteq> []
    \<and> length ds = unat (mf_chunks m) \<and> mf_sha256 m = hex (sha256 E content)
    \<and> unat (mf_total_bytes m) = min (length content) (2 ^ 64 - 1)
    \<and> (\<forall>i. unat i < unat (mf_chunks m) \<longrightarrow>
        sealed_chunks E (tp_crypto T) (blob_chunk_key T agent transfer) (view s') i = Some (ds ! unat i))"
  using machine.stage_file_Inr [OF assms] by blast

theorem staged_manifest_describes_file_witness:
  "\<exists>m s'. stage_file (mem_env no_tables) mem_host 8 sample_transport ''alpha'' (sample_uuid 3) source_path with_source
      = (Inr m, s') \<and> mf_sha256 m = hex (toy_sha256 [1, 2, 3, 4, 5])"
proof -
  obtain s' where st: "stage_file (mem_env no_tables) mem_host 8 sample_transport ''alpha'' (sample_uuid 3)
      source_path with_source = (Inr sample_manifest, s')"
    using mem_stage by blast
  from staged_manifest_describes_file [OF mem_machine.machine_axioms st] st show ?thesis
    by (auto simp: with_source_def mem_fs_def)
qed

text \<open>
  C10. A transfer copies the file: when one machine has staged a file and another, finding the
  chunks as they were left, assembles it from that manifest, the destination holds exactly the
  source's bytes and the temporary file is gone. This does not rest on the hash.
\<close>

theorem transfer_copies_the_file:
  assumes "machine E view rest H files unread target"
    and "machine E view rest H' files' unread' target'"
    and "stage_file E H concurrency T agent transfer source s = (Inr m, s1)"
    and "\<And>i. view s2 (blob_chunk_key T agent transfer i) = view s1 (blob_chunk_key T agent transfer i)"
    and "assemble_file E H' T agent transfer m dest s2 = (Inr w, s3)"
  shows "files' s3 dest = files s source \<and> files' s3 (temp_sibling dest) = None \<and> w = mf_total_bytes m"
proof -
  let ?stored = "\<lambda>s. sealed_chunks E (tp_crypto T) (blob_chunk_key T agent transfer) (view s)"
  obtain ds content where ds: "files s source = Some content" "concat ds = content"
    "length ds = unat (mf_chunks m)" "\<forall>i. unat i < unat (mf_chunks m) \<longrightarrow> ?stored s1 i = Some (ds ! unat i)"
    using machine.stage_file_Inr [OF assms(1,3)] by blast
  obtain es where es: "length es = unat (mf_chunks m)"
    "\<forall>i. unat i < unat (mf_chunks m) \<longrightarrow> ?stored s2 i = Some (es ! unat i)"
    "files' s3 = (files' s2)(dest \<mapsto> concat es, temp_sibling dest := None)" "w = mf_total_bytes m"
    using machine.assemble_file_Inr [OF assms(2,5)] by blast
  have "es = ds"
  proof (rule nth_equalityI)
    show "length es = length ds" using ds(3) es(1) by simp
    fix k assume k: "k < length es"
    let ?i = "of_nat k :: u32"
    have "unat ?i = k" using k es(1) unat_u32_less [of "mf_chunks m"] by (simp add: unat_of_nat)
    then have "?stored s2 ?i = Some (es ! k)" "?stored s1 ?i = Some (ds ! k)"
      using es(1,2) ds(4) k by auto
    moreover have "?stored s2 ?i = ?stored s1 ?i" by (simp add: sealed_chunks_def assms(4))
    ultimately show "es ! k = ds ! k" by simp
  qed
  with ds es temp_sibling_neq [of dest] show ?thesis by auto
qed

theorem transfer_copies_the_file_witness:
  "\<exists>m s1 w s2. stage_file (mem_env no_tables) mem_host 8 sample_transport ''alpha'' (sample_uuid 3) source_path
        with_source = (Inr m, s1)
    \<and> assemble_file (mem_env no_tables) mem_host sample_transport ''alpha'' (sample_uuid 3) m dest_path s1 = (Inr w, s2)
    \<and> mem_fs s2 dest_path = Some [1, 2, 3, 4, 5]"
proof -
  let ?k = "blob_chunk_key sample_transport ''alpha'' (sample_uuid 3)"
  obtain s1 where st: "stage_file (mem_env no_tables) mem_host 8 sample_transport ''alpha'' (sample_uuid 3)
      source_path with_source = (Inr sample_manifest, s1)" and q: "quiet s1"
    using mem_stage by blast
  obtain ds where "concat ds = [1, 2, 3, 4, 5]" "length ds = 1"
    "sealed_chunks (mem_env no_tables) (tp_crypto sample_transport) ?k (mem_view s1) 0 = Some (ds ! 0)"
    using mem_machine.stage_file_Inr [OF st] by (auto simp: with_source_def mem_fs_def sample_manifest_def)
  then have "sealed_chunks (mem_env no_tables) (tp_crypto sample_transport) ?k (mem_view s1) 0 = Some [1, 2, 3, 4, 5]"
    by (cases ds) auto
  then obtain b where "mem_view s1 (?k 0) = Some b"
    "open_bytes (mem_env no_tables) (tp_crypto sample_transport) (?k 0) b = Inr [1, 2, 3, 4, 5]"
    by (auto simp: sealed_chunks_def split: option.splits sum.splits)
  from mem_assemble [OF q this] obtain s2 where asm: "assemble_file (mem_env no_tables) mem_host sample_transport
      ''alpha'' (sample_uuid 3) sample_manifest dest_path s1 = (Inr 5, s2)" by blast
  have "mem_fs s2 dest_path = mem_fs with_source source_path"
    using transfer_copies_the_file [OF mem_machine.machine_axioms mem_machine.machine_axioms st refl asm] by simp
  with st asm show ?thesis by (auto simp: with_source_def mem_fs_def)
qed

text \<open>
  C11. A transfer is verified before it is put in place: when assembling succeeds, the bytes at
  the destination have the manifest's SHA-256 and length; when it fails, at whatever step, every
  file except the temporary one is as it was, the destination included.
\<close>

theorem assembly_is_verified:
  assumes "machine E view rest H files unread target"
    and "assemble_file E H T agent transfer m dest s = (r, s')"
  shows "case r of
      Inr w \<Rightarrow> \<exists>data. files s' dest = Some data \<and> hex (sha256 E data) = mf_sha256 m
        \<and> w = mf_total_bytes m \<and> (length data < 2 ^ 64 \<longrightarrow> unat w = length data)
    | Inl e \<Rightarrow> \<forall>q. q \<noteq> temp_sibling dest \<longrightarrow> files s' q = files s q"
proof (cases r)
  case (Inl e)
  with machine.assemble_file_Inl [OF assms(1)] assms(2) show ?thesis by auto
next
  case (Inr w)
  with machine.assemble_file_Inr [OF assms(1)] assms(2) temp_sibling_neq [of dest] show ?thesis by fastforce
qed

theorem assembly_is_verified_witness:
  "\<exists>e s'. assemble_file (mem_env no_tables) mem_host sample_transport ''alpha'' (sample_uuid 3) sample_manifest
      dest_path with_source = (Inl e, s')
    \<and> mem_fs s' source_path = Some [1, 2, 3, 4, 5] \<and> mem_fs s' dest_path = None"
proof -
  let ?E = "mem_env no_tables" and ?P = sample_transport
  have q: "quiet (snd (mem_create (temp_sibling dest_path) with_source))"
    by (simp add: with_source_def mem_create_def quiet_def mem_start_def)
  have gone: "mem_view (snd (mem_create (temp_sibling dest_path) with_source)) k = None" for k
    by (simp add: with_source_def mem_create_def mem_view_def mem_start_def)
  obtain e s1 where "verified_copy ?E mem_host (get_blob_chunk ?E ?P ''alpha'' (sample_uuid 3)) transfer_texts
      sample_manifest (temp_sibling dest_path) with_source = (Inl e, s1)"
    using mem_get_raw [OF q, of MAX_BLOB_CHUNK_BYTES no_tables] gone
    by (simp add: verified_copy_def Let_def io_then_def io_context_def io_lift_def io_ok_def sample_manifest_def
        chunk_indices_def ok_or_def get_blob_chunk_def get_chunk_def validate_transfer_id_def toy_uuid_sample
        mem_create_def MAX_BLOB_CHUNK_BYTES_def MAX_RELAY_OBJECT_BYTES_def)
  then obtain s' where asm: "assemble_file ?E mem_host ?P ''alpha'' (sample_uuid 3) sample_manifest dest_path with_source
      = (Inl e, s')"
    by (simp add: assemble_file_def assemble_into_def Let_def io_then_def io_attempt_def io_ignore_def io_lift_def)
  have ne: "source_path \<noteq> temp_sibling dest_path"
    by (simp add: source_path_def dest_path_def temp_sibling_def with_file_name_def file_name_def push_name_def)
  from assembly_is_verified [OF mem_machine.machine_axioms asm] asm ne temp_sibling_neq [of dest_path]
  show ?thesis by (auto simp: with_source_def mem_fs_def source_path_def dest_path_def)
qed

text \<open>
  Uploads overlap, but never beyond memory: the number in flight is between one and
  sixty-four, and unless it is one, the plaintext and ciphertext of all of them fit the budget.
\<close>

theorem upload_concurrency_bounds:
  "1 \<le> upload_concurrency requested chunk_size \<and> upload_concurrency requested chunk_size \<le> MAX_UPLOAD_CONCURRENCY
   \<and> (upload_concurrency requested chunk_size = 1
      \<or> upload_concurrency requested chunk_size * (chunk_size * 2) \<le> UPLOAD_MEMORY_BUDGET)"
proof -
  define per where "per = max 1 (min USIZE_MAX (chunk_size * 2))"
  define most where "most = UPLOAD_MEMORY_BUDGET div per"
  define c where "c = upload_concurrency requested chunk_size"
  have c: "c = min (max 1 (min MAX_UPLOAD_CONCURRENCY requested)) (max 1 most)"
    by (simp only: c_def upload_concurrency_def Let_def most_def per_def)
  have bounds: "1 \<le> c" "c \<le> MAX_UPLOAD_CONCURRENCY"
    unfolding c by (auto simp: MAX_UPLOAD_CONCURRENCY_def max_def min_def)
  have "c * (chunk_size * 2) \<le> UPLOAD_MEMORY_BUDGET" if "c \<noteq> 1"
  proof -
    have "c \<le> max 1 most" unfolding c by (rule min.cobounded2)
    with that bounds have aff: "2 \<le> most" "c \<le> most" by (auto simp: max_def split: if_splits)
    have fits: "chunk_size * 2 \<le> per"
    proof (rule ccontr)
      assume "\<not> chunk_size * 2 \<le> per"
      then have "USIZE_MAX \<le> per" unfolding per_def by (auto simp: max_def min_def split: if_splits)
      moreover have "UPLOAD_MEMORY_BUDGET < USIZE_MAX" by (simp add: USIZE_MAX_def UPLOAD_MEMORY_BUDGET_def)
      ultimately have "most = 0" unfolding most_def by (intro div_less) (rule less_le_trans)
      with aff show False by simp
    qed
    have "c * (chunk_size * 2) \<le> most * per"
      using mult_le_mono [OF aff(2) fits] .
    also have "\<dots> \<le> UPLOAD_MEMORY_BUDGET" unfolding most_def by (rule div_times_less_eq_dividend)
    finally show ?thesis .
  qed
  with bounds show ?thesis unfolding c_def by blast
qed

end
