(* ===== verification/Update.thy ===== *)
theory Update
  imports Transfers Config Utf8
begin

text \<open>
  crates/common/src/update.rs: installing a build the controller published. The download is the
  verified copy of Blob over the release area; what the module asks of the operating system
  beyond files (the path of the running binary, the execute bit, one run of the staged binary)
  and the JSON of its state file are the fields of \<open>updater\<close>.
\<close>

section \<open>Targets\<close>

definition EXIT_UPDATED :: int where "EXIT_UPDATED = 70"
definition SMOKE_TEST_TIMEOUT_SECS :: nat where "SMOKE_TEST_TIMEOUT_SECS = 30"

definition current_target :: "string \<Rightarrow> string \<Rightarrow> bool \<Rightarrow> string" where
  "current_target os arch musl = os @ '' '' @ arch @ (if musl then '' musl'' else [])"

definition platform_of :: "string \<Rightarrow> string" where
  "platform_of t = (case split_once (CHR '' '') t of None \<Rightarrow> t
     | Some (a, r) \<Rightarrow> (case split_once (CHR '' '') r of None \<Rightarrow> t | Some (b, _) \<Rightarrow> a @ '' '' @ b))"

section \<open>State\<close>

record update_state =
  us_last_published_at :: int
  us_version :: string
  us_sha256 :: string
  us_applied_at :: int

definition update_state_default :: update_state where
  "update_state_default = \<lparr>us_last_published_at = 0, us_version = [], us_sha256 = [], us_applied_at = 0\<rparr>"

text \<open>How the one run of the staged binary ends, if it starts at all.\<close>

datatype run_result =
    Ran (run_success: bool) (run_status: string) (run_stderr: bytes)
  | Timed_out

record 's updater =
  up_target :: string
  up_current_exe :: "('s, path) io"
  up_fs_read :: "path \<Rightarrow> ('s, bytes) io"
  up_state_json :: "update_state codec"
  up_set_executable :: "path \<Rightarrow> ('s, unit) io"
  up_run_version :: "path \<Rightarrow> ('s, run_result) io"

definition with_extension :: "path \<Rightarrow> string \<Rightarrow> path" where
  "with_extension p e = (case file_stem p of None \<Rightarrow> p
     | Some stem \<Rightarrow> with_file_name p (stem @ ''.'' @ e))"

definition fs_write :: "'s host \<Rightarrow> path \<Rightarrow> bytes \<Rightarrow> ('s, unit) io" where
  "fs_write H p b = io_then (file_create H p) (\<lambda>h. file_write_all H h b)"

definition state_load :: "'s updater \<Rightarrow> path \<Rightarrow> ('s, update_state) io" where
  "state_load U p = io_then (io_attempt (up_fs_read U p)) (\<lambda>r.
     io_ok (case r of Inl _ \<Rightarrow> update_state_default
       | Inr b \<Rightarrow> (case from_slice (up_state_json U) b of Inl _ \<Rightarrow> update_state_default | Inr st \<Rightarrow> st)))"

definition state_save :: "'s host \<Rightarrow> 's updater \<Rightarrow> update_state \<Rightarrow> path \<Rightarrow> ('s, unit) io" where
  "state_save H U st p =
     io_then (case parent p of None \<Rightarrow> io_ok ()
       | Some d \<Rightarrow> if is_empty_path d then io_ok () else create_dir_all H d) (\<lambda>_.
     io_then (io_lift (with_context ''serialize update state'' (to_vec (up_state_json U) st))) (\<lambda>b.
     let temp = with_extension p ''tmp'' in
     io_then (io_context (''write '' @ display temp) (fs_write H temp b)) (\<lambda>_.
     io_context (''install '' @ display p) (rename_path H temp p))))"

section \<open>Hashing a file\<close>

partial_function (option) hash_loop :: "'s host \<Rightarrow> nat \<Rightarrow> hasher \<Rightarrow> 's \<Rightarrow> (hasher res \<times> 's) option" where
  "hash_loop H h acc s = (case file_read H h (1024 * 1024) s of
     (Inl e, s') \<Rightarrow> Some (Inl (''read file'' # e), s')
   | (Inr b, s') \<Rightarrow> if b = [] then Some (Inr acc, s') else hash_loop H h (hasher_update acc b) s')"

declare hash_loop.simps [code]

definition file_sha256 :: "'z libs_scheme \<Rightarrow> 's host \<Rightarrow> path \<Rightarrow> 's \<Rightarrow> (string res \<times> 's) option" where
  "file_sha256 E H p s = (case io_context (''open '' @ display p) (file_open H p) s of
     (Inl e, s1) \<Rightarrow> Some (Inl e, s1)
   | (Inr h, s1) \<Rightarrow> (case hash_loop H h hasher_new s1 of
        None \<Rightarrow> None
      | Some (Inl e, s2) \<Rightarrow> Some (Inl e, s2)
      | Some (Inr acc, s2) \<Rightarrow> Some (Inr (finish_hex E acc), s2)))"

section \<open>Installing\<close>

definition sibling :: "path \<Rightarrow> string \<Rightarrow> path" where
  "sibling p ending = with_file_name p ((case file_name p of None \<Rightarrow> [] | Some n \<Rightarrow> n) @ ending)"

text \<open>\<open>chars().take(n).collect()\<close>: the first \<open>n\<close> characters, each with its continuation bytes.\<close>

fun take_chars :: "nat \<Rightarrow> string \<Rightarrow> string" where
  "take_chars n [] = []"
| "take_chars n (c # cs) =
     (if utf8_cont (of_char c) then c # take_chars n cs
      else case n of 0 \<Rightarrow> [] | Suc m \<Rightarrow> c # take_chars m cs)"

definition smoke_test :: "'s updater \<Rightarrow> path \<Rightarrow> ('s, unit) io" where
  "smoke_test U p =
     io_then (io_context (''execute the staged binary '' @ display p) (up_run_version U p)) (\<lambda>r. io_lift
       (case r of
          Timed_out \<Rightarrow> bail (''staged binary did not answer --version within '' @ dec SMOKE_TEST_TIMEOUT_SECS @ ''s'')
        | Ran success status stderr \<Rightarrow> ensure success (''staged binary failed its --version check ('' @ status @ ''): ''
            @ take_chars 200 (trim (of_bytes (from_utf8_lossy stderr))))))"

definition release_texts :: copy_texts where
  "release_texts = \<lparr>ct_missing = (\<lambda>i. ''release chunk '' @ dec (unat i) @ '' is missing; the release may have been cleaned up''),
     ct_too_many = ''release carries more bytes than its manifest declares'',
     ct_write = ''write release chunk'', ct_flush = Some ''flush the staged binary'',
     ct_short = (\<lambda>w t. ''release assembled '' @ dec (unat w) @ '' bytes but the manifest declares '' @ dec (unat t)),
     ct_hash = (\<lambda>m a. ''release hash mismatch: manifest says '' @ m @ '', assembled '' @ a)\<rparr>"

definition release_manifest :: "update_manifest \<Rightarrow> manifest" where
  "release_manifest m = \<lparr>mf_chunks = um_chunks m, mf_total_bytes = um_total_bytes m, mf_sha256 = um_sha256 m\<rparr>"

definition download :: "'s env \<Rightarrow> 's host \<Rightarrow> transport \<Rightarrow> update_manifest \<Rightarrow> crypto \<Rightarrow> path \<Rightarrow> ('s, unit) io" where
  "download E H T m cr dest =
     io_then (verified_copy E H (\<lambda>i. get_release_chunk E T (um_release m) i cr) release_texts (release_manifest m) dest)
       (\<lambda>_. io_ok ())"

definition replace_binary :: "'s host \<Rightarrow> path \<Rightarrow> path \<Rightarrow> ('s, unit) io" where
  "replace_binary H current staged =
     (let backup = sibling current ''.bak'' in
      io_then (io_ignore (remove_file H backup)) (\<lambda>_.
      io_then (io_context (''move '' @ display current @ '' aside'') (rename_path H current backup)) (\<lambda>_.
      io_then (io_attempt (rename_path H staged current)) (\<lambda>r.
      case r of
        Inr _ \<Rightarrow> io_ok ()
      | Inl e \<Rightarrow> io_then (io_ignore (rename_path H backup current)) (\<lambda>_.
          io_lift (with_context (''install '' @ display current) (Inl e)))))))"

definition install :: "'s env \<Rightarrow> 's host \<Rightarrow> 's updater \<Rightarrow> transport \<Rightarrow> update_manifest \<Rightarrow> crypto \<Rightarrow> path \<Rightarrow> path \<Rightarrow> ('s, unit) io" where
  "install E H U T m cr current staged =
     io_then (download E H T m cr staged) (\<lambda>_.
     io_then (io_context ''make the staged binary executable'' (up_set_executable U staged)) (\<lambda>_.
     io_then (smoke_test U staged) (\<lambda>_.
     replace_binary H current staged)))"

section \<open>The decision\<close>

datatype update_outcome =
    No_manifest
  | Up_to_date
  | Applied (applied_version: string) (applied_sha256: string)
  | Deferred (deferred_jobs: u32)
  | Skipped (skip_reason: string)

definition is_settled :: "update_outcome \<Rightarrow> bool" where
  "is_settled o' = (case o' of Deferred _ \<Rightarrow> False | _ \<Rightarrow> True)"

definition accounted :: "update_manifest \<Rightarrow> update_state \<Rightarrow> update_state" where
  "accounted m st = st\<lparr>us_last_published_at := um_published_at m, us_version := um_version m, us_sha256 := um_sha256 m\<rparr>"

definition decide :: "'s env \<Rightarrow> 's host \<Rightarrow> 's updater \<Rightarrow> transport \<Rightarrow> path \<Rightarrow> u32 \<Rightarrow> update_manifest \<Rightarrow> path \<Rightarrow> string
    \<Rightarrow> ('s, update_outcome) io" where
  "decide E H U T state_path jobs_running m current installed =
     io_then (state_load U state_path) (\<lambda>st.
     if installed = um_sha256 m then
       (if um_published_at m > us_last_published_at st
        then io_then (io_ignore (state_save H U (accounted m st) state_path)) (\<lambda>_. io_ok Up_to_date)
        else io_ok Up_to_date)
     else if um_published_at m \<le> us_last_published_at st then
       io_ok (Skipped (''manifest published_at '' @ dec_int (um_published_at m) @
         '' is not newer than the last applied '' @ dec_int (us_last_published_at st)))
     else if jobs_running > 0 then io_ok (Deferred jobs_running)
     else
       io_then (io_lift (with_context ''release key in the update manifest is unusable''
         (from_base64 E (um_release_key_b64 m) ''release''))) (\<lambda>cr.
       let staged = sibling current ''.relay-update'' in
       io_then (io_attempt (install E H U T m cr current staged)) (\<lambda>r.
       case r of
         Inl e \<Rightarrow> io_then (io_ignore (remove_file H staged)) (\<lambda>_. io_lift (Inl e))
       | Inr _ \<Rightarrow>
           io_then (now_unix E) (\<lambda>now.
           io_then (io_ignore (state_save H U ((accounted m st)\<lparr>us_applied_at := now\<rparr>) state_path)) (\<lambda>_.
           io_ok (Applied (um_version m) (um_sha256 m)))))))"

definition check_and_apply :: "'s env \<Rightarrow> 's host \<Rightarrow> 's updater \<Rightarrow> transport \<Rightarrow> string \<Rightarrow> path \<Rightarrow> u32
    \<Rightarrow> 's \<Rightarrow> (update_outcome res \<times> 's) option" where
  "check_and_apply E H U T agent state_path jobs_running s =
     (case read_update_manifest E T agent s of
        (Inl e, s1) \<Rightarrow> Some (Inl e, s1)
      | (Inr None, s1) \<Rightarrow> Some (Inr No_manifest, s1)
      | (Inr (Some m), s1) \<Rightarrow>
          if um_target m \<noteq> up_target U then
            Some (Inr (Skipped (''release targets '' @ um_target m @ '' but this host is '' @ up_target U)), s1)
          else (case io_context ''locate the running binary'' (up_current_exe U) s1 of
            (Inl e, s2) \<Rightarrow> Some (Inl e, s2)
          | (Inr current, s2) \<Rightarrow> (case file_sha256 E H current s2 of
              None \<Rightarrow> None
            | Some (Inl e, s3) \<Rightarrow> Some (Inl ((''hash the running binary '' @ display current) # e), s3)
            | Some (Inr installed, s3) \<Rightarrow> Some (decide E H U T state_path jobs_running m current installed s3))))"

section \<open>Publishing a release\<close>

definition stage_release :: "'s env \<Rightarrow> 's host \<Rightarrow> nat \<Rightarrow> transport \<Rightarrow> string \<Rightarrow> crypto \<Rightarrow> path \<Rightarrow> ('s, u32 \<times> u64 \<times> string) io" where
  "stage_release E H concurrency T release cr source =
     upload_chunks E H source BLOB_CHUNK_BYTES concurrency (\<lambda>i d. put_release_chunk E T release i d cr)"

definition new_release_key :: "'s env \<Rightarrow> ('s, string) io" where
  "new_release_key E = io_then (random E 32) (\<lambda>key. io_ok (b64_encode E key))"

section \<open>What the operating system promises\<close>

text \<open>
  None of the calls beyond files touches a file's contents or where an open handle writes; a
  whole-file read that succeeds gives the contents.
\<close>

locale updating = machine E view rest H files unread target
  for E :: "'s env" and view :: "'s \<Rightarrow> string \<Rightarrow> bytes option"
    and rest :: "(string \<Rightarrow> bytes option) \<Rightarrow> string \<Rightarrow> string option \<Rightarrow> string list"
    and H :: "'s host" and files :: "'s \<Rightarrow> path \<Rightarrow> bytes option"
    and unread :: "'s \<Rightarrow> nat \<Rightarrow> bytes" and target :: "'s \<Rightarrow> nat \<Rightarrow> path option" +
  fixes U :: "'s updater"
  assumes fs_read_ok: "up_fs_read U p s = (Inr b, s') \<Longrightarrow> files s p = Some b"
    and fs_read_local: "leaves files (up_fs_read U p)" "leaves view (up_fs_read U p)"
    and set_executable_local: "leaves files (up_set_executable U p)"
    and run_version_local: "leaves files (up_run_version U p)"
    and create_dirs_local: "leaves files (create_dir_all H p)"
    and state_codec: "codec_ok (up_state_json U)"

lemma sibling_inj: "sibling p a = sibling p b \<longleftrightarrow> a = b"
  by (simp add: sibling_def with_file_name_def push_name_def)

lemma sibling_neq: "a \<noteq> [] \<Longrightarrow> sibling p a \<noteq> p"
proof (cases "file_name p")
  case None
  then show ?thesis by (cases p) (auto simp: sibling_def with_file_name_def push_name_def)
next
  case (Some n)
  assume "a \<noteq> []"
  from Some have "components p \<noteq> []" and "last (components p) = n"
    by (auto simp: file_name_def Let_def split: if_splits)
  with Some \<open>a \<noteq> []\<close> show ?thesis
    by (cases p; cases "components p" rule: rev_cases)
      (auto simp: sibling_def with_file_name_def push_name_def)
qed

lemma sibling_names:
  "sibling p ''.bak'' \<noteq> p" "sibling p ''.relay-update'' \<noteq> p" "sibling p ''.relay-update'' \<noteq> sibling p ''.bak''"
  "p \<noteq> sibling p ''.bak''" "p \<noteq> sibling p ''.relay-update''" "sibling p ''.bak'' \<noteq> sibling p ''.relay-update''"
  using sibling_neq [of "''.bak''" p] sibling_neq [of "''.relay-update''" p] by (auto simp: sibling_inj)

context filesystem
begin

lemma hash_loop_returns: "\<exists>r s'. hash_loop H h acc s = Some (r, s') \<and> files s' = files s
  \<and> (\<forall>out. r = Inr out \<longrightarrow> out = acc @ unread s h)"
proof (induction "length (unread s h)" arbitrary: s acc rule: less_induct)
  case less
  obtain r s1 where r: "file_read H h (1024 * 1024) s = (r, s1)" by fastforce
  show ?case
  proof (cases r)
    case (Inl e)
    with r read_frame [OF r] show ?thesis by (subst hash_loop.simps) simp
  next
    case (Inr b)
    note rd = read_ok [OF r [unfolded Inr]] read_frame [OF r]
    show ?thesis
    proof (cases "b = []")
      case True
      moreover have "unread s h = []" using rd(1) True by auto
      ultimately show ?thesis using r Inr rd(2) by (subst hash_loop.simps) simp
    next
      case False
      with rd have "length (unread s1 h) < length (unread s h)" by simp
      from less [OF this, of "hasher_update acc b"] r Inr rd False show ?thesis
        by (subst hash_loop.simps) (auto simp: hasher_update_def)
    qed
  qed
qed

lemma file_sha256_returns:
  "\<exists>r s'. file_sha256 E H p s = Some (r, s') \<and> files s' = files s
    \<and> (\<forall>sha. r = Inr sha \<longrightarrow> (\<exists>b. files s p = Some b \<and> sha = hex (sha256 E b)))"
proof -
  obtain r s1 where r: "file_open H p s = (r, s1)" by fastforce
  show ?thesis
  proof (cases r)
    case (Inl e)
    with r open_frame [OF r] show ?thesis by (simp add: file_sha256_def io_context_def)
  next
    case (Inr h)
    obtain q s2 where "hash_loop H h hasher_new s1 = Some (q, s2)" "files s2 = files s1"
      "\<forall>out. q = Inr out \<longrightarrow> out = hasher_new @ unread s1 h"
      using hash_loop_returns [of h hasher_new s1] by blast
    with r Inr open_ok [OF r [unfolded Inr]] open_frame [OF r] show ?thesis
      by (cases q) (auto simp: file_sha256_def io_context_def finish_hex_def hasher_new_def)
  qed
qed

lemma replace_binary_files:
  assumes "replace_binary H current staged s = (r, s')"
    and "files s current = Some old" and "files s staged = Some new"
    and "staged \<noteq> current" and "staged \<noteq> sibling current ''.bak''"
  shows "case r of
      Inr _ \<Rightarrow> files s' current = Some new \<and> files s' (sibling current ''.bak'') = Some old
    | Inl _ \<Rightarrow> files s' current = Some old \<or> files s' (sibling current ''.bak'') = Some old"
proof -
  let ?bak = "sibling current ''.bak''"
  note ne = sibling_names [of current]
  obtain d s1 where d: "remove_file H ?bak s = (d, s1)" by fastforce
  have f1: "q \<noteq> ?bak \<Longrightarrow> files s1 q = files s q" for q
    using remove_file_ok [of ?bak s "()" s1] remove_file_err [of ?bak s _ s1] d by (cases d) auto
  have c1: "files s1 current = Some old" "files s1 staged = Some new"
    using f1 ne assms(2,3,5) by auto
  obtain x s2 where x: "rename_path H current ?bak s1 = (x, s2)" by fastforce
  show ?thesis
  proof (cases x)
    case (Inl e)
    with assms(1) d x have "r = Inl ((''move '' @ display current @ '' aside'') # e)" "s' = s2"
      by (simp_all add: replace_binary_def Let_def io_then_def io_ignore_def io_context_def)
    with rename_err [OF x [unfolded Inl]] c1 show ?thesis by simp
  next
    case (Inr u)
    have f2: "files s2 = (files s1)(?bak \<mapsto> old, current := None)"
      using rename_ok [OF x [unfolded Inr] c1(1)] ne by simp
    then have c2: "files s2 staged = Some new" "files s2 ?bak = Some old"
      using c1 assms(4,5) ne by simp_all
    obtain y s3 where y: "rename_path H staged current s2 = (y, s3)" by fastforce
    show ?thesis
    proof (cases y)
      case (Inr v)
      with assms(1) d x \<open>x = Inr u\<close> y have "r = Inr ()" "s' = s3"
        by (simp_all add: replace_binary_def Let_def io_then_def io_ignore_def io_context_def io_attempt_def io_ok_def)
      with rename_ok [OF y [unfolded Inr] c2(1) assms(4)] f2 assms(4,5) ne show ?thesis by simp
    next
      case (Inl e)
      obtain z s4 where z: "rename_path H ?bak current s3 = (z, s4)" by fastforce
      have f3: "files s3 = files s2" by (rule rename_err [OF y [unfolded Inl]])
      have "files s4 current = Some old \<or> files s4 ?bak = Some old"
      proof (cases z)
        case (Inl e')
        from rename_err [OF z [unfolded Inl]] f3 c2 show ?thesis by simp
      next
        case (Inr w)
        from rename_ok [OF z [unfolded Inr], of old] f3 c2 ne show ?thesis by simp
      qed
      moreover have "r = Inl ((''install '' @ display current) # e)" "s' = s4"
        using assms(1) d x \<open>x = Inr u\<close> y Inl z
        by (simp_all add: replace_binary_def Let_def io_then_def io_ignore_def io_context_def io_attempt_def
            io_lift_def with_context_def)
      ultimately show ?thesis by simp
    qed
  qed
qed

lemma fs_write_frame:
  assumes "fs_write H p b s = (r, s')" and "q \<noteq> p"
  shows "files s' q = files s q"
proof -
  obtain c s1 where c: "file_create H p s = (c, s1)" by fastforce
  show ?thesis
  proof (cases c)
    case (Inl e)
    with assms c have "s' = s1" by (simp add: fs_write_def io_then_def)
    with create_err [OF c [unfolded Inl]] assms(2) show ?thesis by simp
  next
    case (Inr h)
    with assms c have w: "file_write_all H h b s1 = (r, s')" by (simp add: fs_write_def io_then_def)
    note s1 = create_ok [OF c [unfolded Inr]]
    show ?thesis
    proof (cases r)
      case (Inl e)
      from write_err [OF w [unfolded Inl], of p] s1 assms(2) show ?thesis by simp
    next
      case (Inr u)
      from write_ok [OF w [unfolded Inr], of p "[]"] s1 assms(2) show ?thesis by simp
    qed
  qed
qed

lemma fs_write_Inr:
  assumes "fs_write H p b s = (Inr u, s')"
  shows "files s' = (files s)(p \<mapsto> b)"
proof -
  obtain h s1 where c: "file_create H p s = (Inr h, s1)" and w: "file_write_all H h b s1 = (Inr u, s')"
    using assms by (auto simp: fs_write_def io_then_Inr)
  note s1 = create_ok [OF c]
  then have "files s1 p = Some []" by simp
  from write_ok [OF w _ this] s1 show ?thesis by simp
qed

end

section \<open>What a check does\<close>

lemma with_extension_temp: "file_name p = Some n \<Longrightarrow> n \<noteq> m \<Longrightarrow> p \<noteq> push_name q m"
  by (auto simp: file_name_def push_name_def Let_def split: if_splits)

context updating
begin

lemma state_save_frame:
  assumes "state_save H U st p s = (r, s')" and "q \<noteq> p" and "q \<noteq> with_extension p ''tmp''"
  shows "files s' q = files s q"
proof -
  let ?temp = "with_extension p ''tmp''"
  define mk where "mk = (case parent p of None \<Rightarrow> io_ok ()
     | Some d \<Rightarrow> if is_empty_path d then io_ok () else create_dir_all H d)"
  have mk: "leaves files mk" unfolding mk_def by (intro leaves_intros create_dirs_local)
  obtain d s1 where d: "mk s = (d, s1)" by fastforce
  with mk have f1: "files s1 = files s" by (rule leavesD)
  show ?thesis
  proof (cases "\<exists>u b. d = Inr u \<and> to_vec (up_state_json U) st = Inr b")
    case False
    with assms(1) d have "s' = s1"
      by (cases d; cases "to_vec (up_state_json U) st")
        (auto simp: state_save_def io_then_def io_lift_def simp flip: mk_def)
    with f1 show ?thesis by simp
  next
    case True
    then obtain b where b: "to_vec (up_state_json U) st = Inr b" and "d = Inr ()" by auto
    obtain w s2 where w: "fs_write H ?temp b s1 = (w, s2)" by fastforce
    have f2: "files s2 q = files s1 q" by (rule fs_write_frame [OF w assms(3)])
    obtain x s3 where x: "rename_path H ?temp p s2 = (x, s3)" by fastforce
    have "s' = s2 \<or> w = Inr () \<and> s' = s3"
      using assms(1) d \<open>d = Inr ()\<close> b w x
      by (cases w) (auto simp: state_save_def io_then_def io_lift_def io_context_def Let_def simp flip: mk_def)
    moreover have "files s3 q = files s2 q" if "w = Inr ()"
    proof (cases x)
      case (Inl e)
      with rename_err x show ?thesis by simp
    next
      case (Inr v)
      have "files s2 ?temp = Some b" using fs_write_Inr [OF w [unfolded that]] by simp
      with rename_ok [OF x [unfolded Inr] this] rename_same [of p s2 v s3] x Inr assms(2,3) show ?thesis
        by (cases "?temp = p") auto
    qed
    ultimately show ?thesis using f1 f2 by auto
  qed
qed

lemma download_Inr:
  assumes "download E H T m cr dest s = (Inr u, s')"
  shows "\<exists>ds. files s' = (files s)(dest \<mapsto> concat ds) \<and> hex (sha256 E (concat ds)) = um_sha256 m
    \<and> length ds = unat (um_chunks m)
    \<and> (\<forall>i. unat i < unat (um_chunks m) \<longrightarrow>
        sealed_chunks E cr (release_chunk_key T (um_release m)) (view s) i = Some (ds ! unat i))"
proof -
  obtain w where "verified_copy E H (\<lambda>i. get_release_chunk E T (um_release m) i cr) release_texts
      (release_manifest m) dest s = (Inr w, s')"
    using assms by (auto simp: download_def io_then_Inr)
  from release.verified_copy_Inr [OF this] show ?thesis by (auto simp: release_manifest_def)
qed

lemma download_frame:
  assumes "download E H T m cr dest s = (r, s')" and "q \<noteq> dest"
  shows "files s' q = files s q"
proof -
  obtain x where "verified_copy E H (\<lambda>i. get_release_chunk E T (um_release m) i cr) release_texts
      (release_manifest m) dest s = (x, s')"
    using assms(1) by (auto simp: download_def io_then_def io_ok_def split: prod.splits sum.splits)
  from release.verified_copy_frame [OF this assms(2)] show ?thesis by simp
qed

lemma smoke_test_local: "leaves files (smoke_test U p)"
  unfolding smoke_test_def by (intro leaves_intros run_version_local)

text \<open>An installation puts the verified bytes in place, or leaves the old binary to be found.\<close>

lemma install_files:
  assumes "install E H U T m cr current (sibling current ''.relay-update'') s = (r, s')"
    and "files s current = Some old"
  shows "case r of
      Inr _ \<Rightarrow> (\<exists>ds. files s' current = Some (concat ds) \<and> files s' (sibling current ''.bak'') = Some old
        \<and> hex (sha256 E (concat ds)) = um_sha256 m \<and> length ds = unat (um_chunks m)
        \<and> (\<forall>i. unat i < unat (um_chunks m) \<longrightarrow>
            sealed_chunks E cr (release_chunk_key T (um_release m)) (view s) i = Some (ds ! unat i)))
    | Inl _ \<Rightarrow> files s' current = Some old \<or> files s' (sibling current ''.bak'') = Some old"
proof -
  let ?staged = "sibling current ''.relay-update''"
  note ne = sibling_names [of current]
  define prepare where "prepare = io_then (download E H T m cr ?staged) (\<lambda>_.
    io_then (io_context ''make the staged binary executable'' (up_set_executable U ?staged)) (\<lambda>_.
    smoke_test U ?staged))"
  obtain p s1 where p: "prepare s = (p, s1)" by fastforce
  have run: "install E H U T m cr current ?staged s =
      (case p of Inl e \<Rightarrow> (Inl e, s1) | Inr _ \<Rightarrow> replace_binary H current ?staged s1)"
    using p unfolding install_def prepare_def io_then_def by (auto split: prod.splits sum.splits)
  obtain d s0 where d: "download E H T m cr ?staged s = (d, s0)" by fastforce
  have tail: "leaves files (io_then (io_context ''make the staged binary executable'' (up_set_executable U ?staged))
      (\<lambda>_. smoke_test U ?staged))"
    by (intro leaves_intros set_executable_local smoke_test_local)
  have s1: "files s1 = files s0"
    using p d tail unfolding prepare_def
    by (cases d) (auto simp: io_then_def [of "download E H T m cr ?staged"] dest: leavesD)
  have kept: "files s1 current = Some old"
    using download_frame [OF d] ne assms(2) s1 by auto
  show ?thesis
  proof (cases p)
    case (Inl e)
    with run assms(1) kept show ?thesis by auto
  next
    case (Inr u)
    then have "d = Inr ()" using p d unfolding prepare_def
      by (cases d) (auto simp: io_then_def [of "download E H T m cr ?staged"])
    with d obtain ds where ds: "files s0 = (files s)(?staged \<mapsto> concat ds)"
      "hex (sha256 E (concat ds)) = um_sha256 m" "length ds = unat (um_chunks m)"
      "\<forall>i. unat i < unat (um_chunks m) \<longrightarrow>
        sealed_chunks E cr (release_chunk_key T (um_release m)) (view s) i = Some (ds ! unat i)"
      using download_Inr [of T m cr ?staged s] by blast
    have "replace_binary H current ?staged s1 = (r, s')" using run Inr assms(1) by simp
    moreover have "files s1 ?staged = Some (concat ds)" using s1 ds(1) by simp
    ultimately have "case r of
        Inr _ \<Rightarrow> files s' current = Some (concat ds) \<and> files s' (sibling current ''.bak'') = Some old
      | Inl _ \<Rightarrow> files s' current = Some old \<or> files s' (sibling current ''.bak'') = Some old"
      using ne by (intro replace_binary_files [OF _ kept, where staged = ?staged]) auto
    with ds show ?thesis by (auto split: sum.splits)
  qed
qed

lemma state_load_ok:
  assumes "state_load U p s = (r, s')"
  shows "\<exists>st. r = Inr st \<and> files s' = files s \<and> view s' = view s
    \<and> (st = update_state_default \<or> (\<exists>b. files s p = Some b \<and> from_slice (up_state_json U) b = Inr st))
    \<and> ((\<exists>b. fst (up_fs_read U p s) = Inr b) \<longrightarrow> (\<forall>b st'. files s p = Some b \<and> from_slice (up_state_json U) b = Inr st' \<longrightarrow> st = st'))"
proof -
  obtain x s1 where x: "up_fs_read U p s = (x, s1)" by fastforce
  with assms have s1: "s' = s1" by (simp add: state_load_def io_simps)
  have "files s1 = files s" "view s1 = view s"
    using leavesD [OF fs_read_local(1) x] leavesD [OF fs_read_local(2) x] by simp_all
  moreover have "\<forall>b. x = Inr b \<longrightarrow> files s p = Some b" using fs_read_ok [of p s] x by blast
  moreover have "r = Inr (case x of Inl _ \<Rightarrow> update_state_default
      | Inr b \<Rightarrow> (case from_slice (up_state_json U) b of Inl _ \<Rightarrow> update_state_default | Inr st \<Rightarrow> st))"
    using assms x by (simp add: state_load_def io_simps)
  ultimately show ?thesis using x s1
    by (cases x; cases "from_slice (up_state_json U) (projr x)") auto
qed

lemma now_files: "now_unix E s = (r, s') \<Longrightarrow> files s' = files s"
  using leavesD [OF now_local] by blast

lemma decide_files:
  assumes "decide E H U T state_path jobs m current installed s = (r, s')"
    and "files s current = Some old"
    and "state_path \<notin> {current, sibling current ''.bak''}"
    and "with_extension state_path ''tmp'' \<notin> {current, sibling current ''.bak''}"
  shows "case r of
      Inr (Applied v sha) \<Rightarrow> v = um_version m \<and> sha = um_sha256 m \<and> jobs = 0 \<and> installed \<noteq> sha
        \<and> (\<exists>st. (st = update_state_default \<or> (\<exists>b. files s state_path = Some b \<and> from_slice (up_state_json U) b = Inr st))
             \<and> us_last_published_at st < um_published_at m)
        \<and> (\<exists>cr ds. from_base64 E (um_release_key_b64 m) ''release'' = Inr cr
             \<and> files s' current = Some (concat ds) \<and> files s' (sibling current ''.bak'') = Some old
             \<and> hex (sha256 E (concat ds)) = sha \<and> length ds = unat (um_chunks m)
             \<and> (\<forall>i. unat i < unat (um_chunks m) \<longrightarrow>
                  sealed_chunks E cr (release_chunk_key T (um_release m)) (view s) i = Some (ds ! unat i)))
    | Inr _ \<Rightarrow> files s' current = Some old
    | Inl _ \<Rightarrow> files s' current = Some old \<or> files s' (sibling current ''.bak'') = Some old"
proof -
  let ?staged = "sibling current ''.relay-update''" and ?bak = "sibling current ''.bak''"
  note ne = sibling_names [of current]
  obtain x s1 where x: "state_load U state_path s = (x, s1)" by fastforce
  obtain st where st: "x = Inr st" "files s1 = files s" "view s1 = view s"
    "st = update_state_default \<or> (\<exists>b. files s state_path = Some b \<and> from_slice (up_state_json U) b = Inr st)"
    using state_load_ok [OF x] by blast
  have save: "files s3 q = files s2 q" if "snd (state_save H U st' state_path s2) = s3" "q \<in> {current, ?bak}" for st' s2 s3 q
    using state_save_frame [of st' state_path s2 "fst (state_save H U st' state_path s2)" s3 q] that assms(3,4) by auto
  note run = assms(1) [unfolded decide_def, unfolded io_then_def [of "state_load U state_path"] x prod.case st(1) sum.case]
  consider (same) "installed = um_sha256 m"
    | (old) "installed \<noteq> um_sha256 m" "um_published_at m \<le> us_last_published_at st"
    | (busy) "installed \<noteq> um_sha256 m" "\<not> um_published_at m \<le> us_last_published_at st" "jobs > 0"
    | (go) "installed \<noteq> um_sha256 m" "\<not> um_published_at m \<le> us_last_published_at st" "jobs = 0"
    by (cases "jobs = 0") (auto simp: word_gt_0)
  then show ?thesis
  proof cases
    case same
    then have r: "r = Inr Up_to_date" and "s' = s1 \<or> s' = snd (state_save H U (accounted m st) state_path s1)"
      using run by (auto simp: io_simps split: if_splits)
    with save [of "accounted m st" s1 s' current] st assms(2) show ?thesis by auto
  next
    case old
    with run obtain z where "r = Inr (Skipped z)" "s' = s1" by (auto simp: io_simps)
    with st assms(2) show ?thesis by simp
  next
    case busy
    with run have "r = Inr (Deferred jobs)" "s' = s1" by (auto simp: io_simps)
    with st assms(2) show ?thesis by simp
  next
    case go
    show ?thesis
    proof (cases "from_base64 E (um_release_key_b64 m) ''release''")
      case (Inl e)
      with go run obtain z where "r = Inl z" "s' = s1" by (auto simp: io_simps)
      with st assms(2) show ?thesis by simp
    next
      case (Inr cr)
      obtain y s2 where y: "install E H U T m cr current ?staged s1 = (y, s2)" by fastforce
      have "files s1 current = Some old" using st assms(2) by simp
      note inst = install_files [OF y this]
      show ?thesis
      proof (cases y)
        case (Inl e)
        obtain z s3 where z: "remove_file H ?staged s2 = (z, s3)" by fastforce
        have "r = Inl e" "s' = s3"
          using go run Inr y Inl z by (simp_all add: io_simps Let_def)
        moreover have "files s3 q = files s2 q" if "q \<noteq> ?staged" for q
          using remove_file_ok [of ?staged s2 "()" s3] remove_file_err [of ?staged s2 _ s3] z that by (cases z) auto
        ultimately show ?thesis using inst Inl ne by simp
      next
        case (Inr u)
        obtain now s3 where "clock_unix E s2 = (now, s3)" by fastforce
        then have now: "now_unix E s2 = (Inr now, s3)" by (simp add: now_unix_def)
        have "r = Inr (Applied (um_version m) (um_sha256 m))"
          "s' = snd (state_save H U ((accounted m st)\<lparr>us_applied_at := now\<rparr>) state_path s3)"
          using go run \<open>from_base64 E (um_release_key_b64 m) ''release'' = Inr cr\<close> y Inr now
          by (simp_all add: io_simps Let_def)
        moreover from this have "files s' q = files s2 q" if "q \<in> {current, ?bak}" for q
          using save [OF _ that] now_files [OF now] by metis
        ultimately show ?thesis
          using inst Inr go st \<open>from_base64 E (um_release_key_b64 m) ''release'' = Inr cr\<close> by auto
      qed
    qed
  qed
qed

text \<open>What the check remembers never goes back, if the state file can be read.\<close>

lemma rename_frame:
  assumes "rename_path H p p' s = (r, s')" and "q \<noteq> p" and "q \<noteq> p'" and "files s p \<noteq> None \<or> r \<noteq> Inr ()"
  shows "files s' q = files s q"
proof (cases r)
  case (Inl e)
  with rename_err assms(1) show ?thesis by simp
next
  case (Inr u)
  then obtain b where "files s p = Some b" using assms(4) by auto
  with rename_ok [of p p' s u s' b] rename_same [of p s u s'] Inr assms show ?thesis by (cases "p = p'") auto
qed

lemma state_save_result:
  assumes "state_save H U st p s = (r, s')" and "p \<noteq> with_extension p ''tmp''"
  shows "files s' p = files s p \<or> (\<exists>b. files s' p = Some b \<and> from_slice (up_state_json U) b = Inr st)"
proof (cases r)
  case (Inr u)
  obtain b s1 s2 x y where "to_vec (up_state_json U) st = Inr b"
    and w: "fs_write H (with_extension p ''tmp'') b s1 = (Inr x, s2)"
    and mv: "rename_path H (with_extension p ''tmp'') p s2 = (Inr y, s')"
    using assms(1) Inr by (auto simp: state_save_def io_then_Inr Let_def with_context_Inr_iff)
  have "files s2 (with_extension p ''tmp'') = Some b" using fs_write_Inr [OF w] by simp
  from rename_ok [OF mv this] assms(2) have "files s' p = Some b" by simp
  moreover have "from_slice (up_state_json U) b = Inr st"
    using state_codec \<open>to_vec (up_state_json U) st = Inr b\<close> by (simp add: codec_ok_def)
  ultimately show ?thesis by blast
next
  case (Inl e)
  let ?temp = "with_extension p ''tmp''"
  define mk where "mk = (case parent p of None \<Rightarrow> io_ok ()
     | Some d \<Rightarrow> if is_empty_path d then io_ok () else create_dir_all H d)"
  have mk: "leaves files mk" unfolding mk_def by (intro leaves_intros create_dirs_local)
  obtain d s1 where d: "mk s = (d, s1)" by fastforce
  with mk have f1: "files s1 = files s" by (rule leavesD)
  show ?thesis
  proof (cases "\<exists>u b. d = Inr u \<and> to_vec (up_state_json U) st = Inr b")
    case False
    with assms(1) d have "s' = s1"
      by (cases d; cases "to_vec (up_state_json U) st")
        (auto simp: state_save_def io_then_def io_lift_def simp flip: mk_def)
    with f1 show ?thesis by simp
  next
    case True
    then obtain b where b: "to_vec (up_state_json U) st = Inr b" and "d = Inr ()" by auto
    obtain w s2 where w: "fs_write H ?temp b s1 = (w, s2)" by fastforce
    have f2: "files s2 p = files s1 p" by (rule fs_write_frame [OF w assms(2)])
    obtain x s3 where x: "rename_path H ?temp p s2 = (x, s3)" by fastforce
    have "s' = s2 \<or> (\<exists>e'. x = Inl e') \<and> s' = s3"
      using assms(1) Inl d \<open>d = Inr ()\<close> b w x
      by (cases w; cases x) (auto simp: state_save_def io_then_def io_lift_def io_context_def Let_def simp flip: mk_def)
    with f1 f2 rename_err x show ?thesis by auto
  qed
qed

lemma replace_binary_frame:
  assumes "replace_binary H current staged s = (r, s')"
    and "files s current = Some old" and "files s staged = Some new"
    and "staged \<noteq> current" and "staged \<noteq> sibling current ''.bak''"
    and q: "q \<notin> {current, sibling current ''.bak'', staged}"
  shows "files s' q = files s q"
proof -
  let ?bak = "sibling current ''.bak''"
  note ne = sibling_names [of current]
  obtain d s1 where d: "remove_file H ?bak s = (d, s1)" by fastforce
  have f1: "k \<noteq> ?bak \<Longrightarrow> files s1 k = files s k" for k
    using remove_file_ok [of ?bak s "()" s1] remove_file_err [of ?bak s _ s1] d by (cases d) auto
  obtain x s2 where x: "rename_path H current ?bak s1 = (x, s2)" by fastforce
  have f2: "files s2 q = files s1 q"
    using f1 [of current] assms(2) ne q by (intro rename_frame [OF x]) auto
  obtain y s3 where y: "rename_path H staged current s2 = (y, s3)" by fastforce
  obtain z s4 where z: "rename_path H ?bak current s3 = (z, s4)" by fastforce
  have step: "s' = s2 \<or> (\<exists>u v. x = Inr u \<and> y = Inr v \<and> s' = s3) \<or> (\<exists>u e. x = Inr u \<and> y = Inl e \<and> s' = s4)"
    using assms(1) d x y z
    by (cases x; cases y) (auto simp: replace_binary_def Let_def io_then_def io_ignore_def io_context_def
        io_attempt_def io_ok_def io_lift_def)
  have c2: "files s2 staged = Some new" "files s2 ?bak = Some old" if "x = Inr u" for u
    using rename_ok [OF x [unfolded that], of old] f1 ne assms(2-5) by auto
  have "files s3 q = files s2 q" if "x = Inr u" for u
    using c2 [OF that] q by (intro rename_frame [OF y]) auto
  moreover have "files s4 q = files s3 q" if "x = Inr u" "y = Inl e" for u e
    using c2 [OF that(1)] rename_err [OF y [unfolded that(2)]] q by (intro rename_frame [OF z]) auto
  ultimately show ?thesis using step f1 f2 q by fastforce
qed

lemma install_frame:
  assumes "install E H U T m cr current (sibling current ''.relay-update'') s = (r, s')"
    and "files s current = Some old"
    and q: "q \<notin> {current, sibling current ''.bak'', sibling current ''.relay-update''}"
  shows "files s' q = files s q"
proof -
  let ?staged = "sibling current ''.relay-update''"
  note ne = sibling_names [of current]
  obtain d s0 where d: "download E H T m cr ?staged s = (d, s0)" by fastforce
  define rest' where "rest' = io_then (io_context ''make the staged binary executable'' (up_set_executable U ?staged))
      (\<lambda>_. smoke_test U ?staged)"
  have tail: "leaves files rest'"
    unfolding rest'_def by (intro leaves_intros set_executable_local smoke_test_local)
  obtain p s1 where p: "rest' s0 = (p, s1)" by fastforce
  with tail have f1: "files s1 = files s0" by (rule leavesD)
  have f0: "k \<noteq> ?staged \<Longrightarrow> files s0 k = files s k" for k by (rule download_frame [OF d])
  have run: "s' = s0 \<or> s' = s1 \<or> (\<exists>u v. d = Inr u \<and> p = Inr v \<and> replace_binary H current ?staged s1 = (r, s'))"
    using assms(1) d p unfolding install_def rest'_def io_then_def
    by (cases d) (auto split: prod.splits sum.splits)
  have "files s' q = files s1 q"
    if "d = Inr u" "replace_binary H current ?staged s1 = (r, s')" for u
  proof -
    have "download E H T m cr ?staged s = (Inr u, s0)" using d that(1) by simp
    from download_Inr [OF this] obtain ds where "files s0 = (files s)(?staged \<mapsto> ds)" by blast
    with f1 ne assms(2) have "files s1 current = Some old" "files s1 ?staged = Some ds" by simp_all
    with replace_binary_frame [OF that(2) this] ne q show ?thesis by simp
  qed
  with run f0 [of q] f1 q show ?thesis by auto
qed

lemma decide_remembers:
  assumes "decide E H U T state_path jobs m current installed s = (r, s')"
    and "files s current = Some old"
    and q: "state_path \<notin> {current, sibling current ''.bak'', sibling current ''.relay-update'', with_extension state_path ''tmp''}"
    and "fst (up_fs_read U state_path s) = Inr b" and "from_slice (up_state_json U) b = Inr st"
  shows "\<exists>b' st'. files s' state_path = Some b' \<and> from_slice (up_state_json U) b' = Inr st'
    \<and> us_last_published_at st \<le> us_last_published_at st'"
proof -
  let ?staged = "sibling current ''.relay-update''"
  have fb: "files s state_path = Some b"
    using fs_read_ok [of state_path s b "snd (up_fs_read U state_path s)"] assms(4)
    by (cases "up_fs_read U state_path s") auto
  obtain x s1 where x: "state_load U state_path s = (x, s1)" by fastforce
  obtain st1 where st1: "x = Inr st1" "files s1 = files s"
    "\<forall>b st'. files s state_path = Some b \<and> from_slice (up_state_json U) b = Inr st' \<longrightarrow> st1 = st'"
    using state_load_ok [OF x] assms(4) by blast
  with fb assms(5) have "st1 = st" by blast
  note run = assms(1) [unfolded decide_def, unfolded io_then_def [of "state_load U state_path"] x prod.case st1(1) sum.case \<open>st1 = st\<close>]
  have kept: ?thesis if "files s' state_path = files s state_path" using that fb assms(5) by auto
  have saved: "files s3 state_path = files s2 state_path
      \<or> (\<exists>b. files s3 state_path = Some b \<and> from_slice (up_state_json U) b = Inr st')"
    if "snd (state_save H U st' state_path s2) = s3" for st' s2 s3
    using state_save_result [of st' state_path s2 "fst (state_save H U st' state_path s2)" s3] that q by auto
  consider (same) "installed = um_sha256 m"
    | (skip) "installed \<noteq> um_sha256 m" "um_published_at m \<le> us_last_published_at st \<or> jobs > 0"
    | (go) "installed \<noteq> um_sha256 m" "\<not> um_published_at m \<le> us_last_published_at st" "\<not> jobs > 0"
    by blast
  then show ?thesis
  proof cases
    case same
    with run have "s' = s1 \<or> us_last_published_at st < um_published_at m
        \<and> s' = snd (state_save H U (accounted m st) state_path s1)"
      by (auto simp: io_simps split: if_splits)
    with saved [of "accounted m st" s1 s'] st1(2) kept show ?thesis by (auto simp: accounted_def)
  next
    case skip
    with run have "s' = s1" by (auto simp: io_simps split: if_splits)
    with st1(2) kept show ?thesis by simp
  next
    case go
    show ?thesis
    proof (cases "from_base64 E (um_release_key_b64 m) ''release''")
      case (Inl e)
      with go run have "s' = s1" by (auto simp: io_simps)
      with st1(2) kept show ?thesis by simp
    next
      case (Inr cr)
      obtain y s2 where y: "install E H U T m cr current ?staged s1 = (y, s2)" by fastforce
      have "files s1 current = Some old" using st1(2) assms(2) by simp
      from install_frame [OF y this] q have f2: "files s2 state_path = files s state_path" using st1(2) by simp
      show ?thesis
      proof (cases y)
        case (Inl e)
        obtain z s3 where z: "remove_file H ?staged s2 = (z, s3)" by fastforce
        have "s' = s3" using go run Inr y Inl z by (simp add: io_simps Let_def)
        moreover have "files s3 state_path = files s2 state_path"
          using remove_file_ok [of ?staged s2 "()" s3] remove_file_err [of ?staged s2 _ s3] z q by (cases z) auto
        ultimately show ?thesis using f2 kept by simp
      next
        case (Inr u)
        obtain now s3 where "clock_unix E s2 = (now, s3)" by fastforce
        then have now: "now_unix E s2 = (Inr now, s3)" by (simp add: now_unix_def)
        have "s' = snd (state_save H U ((accounted m st)\<lparr>us_applied_at := now\<rparr>) state_path s3)"
          using go run \<open>from_base64 E (um_release_key_b64 m) ''release'' = Inr cr\<close> y Inr now
          by (simp add: io_simps Let_def)
        from saved [OF this [symmetric]] now_files [OF now] f2 kept go show ?thesis by (auto simp: accounted_def)
      qed
    qed
  qed
qed

lemma read_update_manifest_local: "leaves files (read_update_manifest E T agent)"
proof -
  have "leaves disk (read_update_manifest E T agent)"
    unfolding read_update_manifest_def get_encrypted_def get_raw_def Let_def
    by (intro leaves_intros get_object_local)
  then show ?thesis by (simp add: leaves_def)
qed

text \<open>The part of a check before the decision changes no file.\<close>

lemma check_cases:
  assumes "up_current_exe U = io_ok current"
  obtains (early) r s' where "check_and_apply E H U T agent state_path jobs s = Some (r, s')"
      "files s' = files s" "\<nexists>v sha. r = Inr (Applied v sha)"
  | (decided) m s1 old installed s2 where "read_update_manifest E T agent s = (Inr (Some m), s1)"
      "um_target m = up_target U" "files s2 = files s" "files s current = Some old" "installed = hex (sha256 E old)"
      "check_and_apply E H U T agent state_path jobs s = Some (decide E H U T state_path jobs m current installed s2)"
proof -
  obtain r s1 where r: "read_update_manifest E T agent s = (r, s1)" by fastforce
  have f1: "files s1 = files s" by (rule leavesD [OF read_update_manifest_local r])
  obtain q s2 where q: "file_sha256 E H current s1 = Some (q, s2)" "files s2 = files s1"
    "\<forall>sha. q = Inr sha \<longrightarrow> (\<exists>b. files s1 current = Some b \<and> sha = hex (sha256 E b))"
    using file_sha256_returns [of E current s1] by blast
  note run = check_and_apply_def [of E H U T agent state_path jobs s]
  consider e where "r = Inl e" | "r = Inr None" | m where "r = Inr (Some m)" "um_target m \<noteq> up_target U"
    | m e where "r = Inr (Some m)" "um_target m = up_target U" "q = Inl e"
    | m sha where "r = Inr (Some m)" "um_target m = up_target U" "q = Inr sha"
    by (cases r; cases "projr r"; cases q) auto
  then show thesis
  proof cases
    case 5
    with q(3) obtain b where "files s1 current = Some b" "sha = hex (sha256 E b)" by blast
    with 5 r q f1 assms show thesis
      by (intro decided [of m s1 s2 b sha]) (simp_all add: check_and_apply_def io_context_def io_ok_def)
  next
    case 4
    with r q f1 assms show thesis
      by (intro early [where s' = s2]) (auto simp add: check_and_apply_def io_context_def io_ok_def)
  qed (use r f1 in \<open>auto intro!: early simp: check_and_apply_def\<close>)
qed

end

text \<open>The concrete machine with an update in reach.\<close>

definition exe_path :: path where "exe_path = Path True [''agent'']"
definition state_file :: path where "state_file = Path True [''state'']"

definition mem_updater :: "update_state list \<Rightarrow> mem updater" where
  "mem_updater states = \<lparr>up_target = ''linux x86_64'', up_current_exe = io_ok exe_path,
     up_fs_read = (\<lambda>p w. (case mem_fs w p of None \<Rightarrow> bail ''No such file or directory'' | Some b \<Rightarrow> Inr b, w)),
     up_state_json = table_codec states, up_set_executable = (\<lambda>p. io_ok ()),
     up_run_version = (\<lambda>p. io_ok (Ran True ''exit status: 0'' []))\<rparr>"

interpretation mem_updating: updating "mem_env T" mem_view mem_rest mem_host mem_fs mem_unread mem_target "mem_updater states"
  for T states
  by unfold_locales
    (auto simp: mem_updater_def leaves_def io_ok_def mem_host_def mem_fs_def table_codec_ok split: option.splits)

definition recorded :: update_state where
  "recorded = \<lparr>us_last_published_at = 500, us_version = ''1'', us_sha256 = ''x'', us_applied_at = 500\<rparr>"

definition installed_world :: mem where
  "installed_world = mem_start\<lparr>mem_files := [(exe_path, [7]), (state_file, [])]\<rparr>"

lemma installed_world_files:
  "mem_fs installed_world exe_path = Some [7]" "mem_fs installed_world state_file = Some []" "quiet installed_world"
  "mem_view installed_world k = None"
  by (simp_all add: installed_world_def mem_fs_def exe_path_def state_file_def quiet_def mem_start_def mem_view_def)

lemma mem_no_manifest:
  "check_and_apply (mem_env T) mem_host (mem_updater states) sample_transport ''alpha'' state_file jobs installed_world
     = Some (Inr No_manifest, installed_world)"
  using installed_world_files(4) mem_get_raw [OF installed_world_files(3), of MAX_RELAY_OBJECT_BYTES T]
  by (simp add: check_and_apply_def read_update_manifest_def get_encrypted_def Let_def io_then_def io_lift_def io_ok_def
      MAX_RELAY_OBJECT_BYTES_def)

section \<open>Properties\<close>

text \<open>
  C13. An update never costs the machine its agent. When a check installs, the manifest was for
  this target, was newer than the last one acted on, the agent was idle, the binary in place has
  the manifest's SHA-256 and is the concatenation of the release's chunks, and the old one is
  beside it; any other answer leaves the old binary in place; and after a failure, at whatever
  step, the old binary is still in place or beside it.
\<close>

theorem update_never_loses_the_binary:
  assumes "updating E view rest H files unread target U" and "up_current_exe U = io_ok current"
    and "check_and_apply E H U T agent state_path jobs s = Some (out, s')"
    and "files s current = Some old"
    and "state_path \<notin> {current, sibling current ''.bak''}"
    and "with_extension state_path ''tmp'' \<notin> {current, sibling current ''.bak''}"
  shows "case out of
      Inr (Applied v sha) \<Rightarrow> jobs = 0 \<and> hex (sha256 E old) \<noteq> sha
        \<and> (\<exists>m s0 st. read_update_manifest E T agent s = (Inr (Some m), s0)
            \<and> um_target m = up_target U \<and> v = um_version m \<and> sha = um_sha256 m
            \<and> (st = update_state_default \<or> (\<exists>b. files s state_path = Some b \<and> from_slice (up_state_json U) b = Inr st))
            \<and> us_last_published_at st < um_published_at m)
        \<and> (\<exists>new. files s' current = Some new \<and> hex (sha256 E new) = sha)
        \<and> files s' (sibling current ''.bak'') = Some old
    | Inr _ \<Rightarrow> files s' current = Some old
    | Inl _ \<Rightarrow> files s' current = Some old \<or> files s' (sibling current ''.bak'') = Some old"
proof (cases rule: updating.check_cases [OF assms(1,2), where T = T and agent = agent and state_path = state_path
      and jobs = jobs and s = s])
  case (1 r s1)
  with assms(3,4) show ?thesis by (auto split: sum.splits update_outcome.splits)
next
  case decided: (2 m s1 b installed s2)
  then have run: "decide E H U T state_path jobs m current installed s2 = (out, s')" and "files s2 current = Some old"
    using assms(3,4) by simp_all
  from updating.decide_files [OF assms(1) this assms(5,6)] decided assms(4) show ?thesis
    by (simp split: sum.splits update_outcome.splits) blast
qed

theorem update_never_loses_the_binary_witness:
  "\<exists>out s'. check_and_apply (mem_env no_tables) mem_host (mem_updater [recorded]) sample_transport ''alpha''
      state_file 0 installed_world = Some (Inr out, s') \<and> mem_fs s' exe_path = Some [7]"
proof -
  have "case Inr No_manifest :: update_outcome res of Inr (Applied v sha) \<Rightarrow> True
    | Inr _ \<Rightarrow> mem_fs installed_world exe_path = Some [7] | Inl _ \<Rightarrow> True"
    using update_never_loses_the_binary [OF mem_updating.updating_axioms _ mem_no_manifest [of no_tables "[recorded]" 0]
        installed_world_files(1)]
    by (simp add: mem_updater_def state_file_def exe_path_def sibling_def with_file_name_def file_name_def
        push_name_def with_extension_def file_stem_def rsplit_dot_def)
  then show ?thesis using mem_no_manifest by auto
qed



text \<open>
  C17. A check always ends: reading the running binary to its end terminates, so every check
  answers, with an outcome or an error; and the hash it compares is that of the whole file.
\<close>

theorem update_check_terminates:
  assumes "updating E view rest H files unread target U" and "up_current_exe U = io_ok current"
  shows "\<exists>out s'. check_and_apply E H U T agent state_path jobs s = Some (out, s')"
  using updating.check_cases [OF assms, of T agent state_path jobs s] by (metis prod.collapse)

theorem update_check_terminates_witness:
  "\<exists>out s'. check_and_apply (mem_env no_tables) mem_host (mem_updater []) sample_transport ''alpha''
      state_file 3 installed_world = Some (out, s')"
  by (rule update_check_terminates [OF mem_updating.updating_axioms]) (simp add: mem_updater_def)

text \<open>
  A target compares by operating system and architecture only when its libc is dropped:
  what a heartbeat reports and what an executable's header says agree on the platform part,
  with or without the musl mark, and dropping it again changes nothing.
\<close>

theorem platform_ignores_libc:
  assumes "CHR '' '' \<notin> set os" and "CHR '' '' \<notin> set arch"
  shows "platform_of (current_target os arch musl) = current_target os arch False
    \<and> platform_of (platform_of (current_target os arch musl)) = platform_of (current_target os arch musl)"
proof -
  have "split_once (CHR '' '') (os @ CHR '' '' # r) = Some (os, r)" for r
    using assms(1) by (rule split_once_append)
  moreover have "split_once (CHR '' '') (arch @ CHR '' '' # r) = Some (arch, r)" for r
    using assms(2) by (rule split_once_append)
  moreover have "split_once (CHR '' '') arch = None" using assms(2) by (simp add: split_once_None)
  ultimately show ?thesis by (cases musl) (simp_all add: platform_of_def current_target_def)
qed

theorem platform_ignores_libc_witness:
  "platform_of ''linux x86_64 musl'' = ''linux x86_64''"
  using platform_ignores_libc [of "''linux''" "''x86_64''" True] by (simp add: current_target_def)

end
