(* ===== verification/Registry.thy ===== *)
theory Registry
  imports Update Tables "HOL-Library.AList"
begin

text \<open>
  crates/controller/src/registry.rs: the controller's SQLite database. Every operation of the
  module is one or a few statements, each a function on the tables. \<open>sql_query\<close> is a connection that runs a SELECT on the tables as
  they are, \<open>sql_execute\<close> one that runs a writing statement; either may fail.
\<close>

section \<open>Connections\<close>

record 's sqlite =
  sql_query :: "('s, registry) io"
  sql_execute :: "(registry \<Rightarrow> registry) \<Rightarrow> ('s, unit) io"

section \<open>Statements\<close>

definition upsert_agent :: "string \<Rightarrow> string \<Rightarrow> int \<Rightarrow> registry \<Rightarrow> registry" where
  "upsert_agent agent public_key now r = r\<lparr>rg_agents := AList.update agent
     (case map_of (rg_agents r) agent of
        None \<Rightarrow> \<lparr>ar_public_key = public_key, ar_added_at = now, ar_updated_at = now\<rparr>
      | Some row \<Rightarrow> row\<lparr>ar_public_key := public_key, ar_updated_at := now\<rparr>) (rg_agents r)\<rparr>"

definition insert_event :: "string \<Rightarrow> int \<Rightarrow> string \<Rightarrow> string \<Rightarrow> registry \<Rightarrow> registry" where
  "insert_event agent t kind message r =
     r\<lparr>rg_events := List.insert (agent, t, kind, message) (rg_events r)\<rparr>"

definition upsert_seen :: "seen_agent \<Rightarrow> registry \<Rightarrow> registry" where
  "upsert_seen seen r = r\<lparr>rg_seen := AList.update (sa_id seen) seen (rg_seen r)\<rparr>"

definition upsert_rollout :: "rollout \<Rightarrow> registry \<Rightarrow> registry" where
  "upsert_rollout ro r = r\<lparr>rg_rollouts := AList.update (ro_release ro)
     (ro, case map_of (rg_rollouts r) (ro_release ro) of None \<Rightarrow> None | Some (_, completed) \<Rightarrow> completed) (rg_rollouts r)\<rparr>"

definition set_completed :: "string \<Rightarrow> int \<Rightarrow> registry \<Rightarrow> registry" where
  "set_completed release t r = r\<lparr>rg_rollouts :=
     map (\<lambda>(id, ro, completed). (id, ro, if id = release then Some t else completed)) (rg_rollouts r)\<rparr>"

definition insert_setting :: "string \<Rightarrow> string \<Rightarrow> registry \<Rightarrow> registry" where
  "insert_setting name value r = (case map_of (rg_settings r) name of
     Some _ \<Rightarrow> r
   | None \<Rightarrow> r\<lparr>rg_settings := rg_settings r @ [(name, value)]\<rparr>)"

section \<open>Operations\<close>

definition add :: "'s env \<Rightarrow> 's sqlite \<Rightarrow> enrolled_key \<Rightarrow> ('s, unit) io" where
  "add E S key = io_then (now_unix E) (\<lambda>now. sql_execute S (upsert_agent (ak_id key) (ak_public_key key) now))"

definition agents :: "'s sqlite \<Rightarrow> ('s, enrolled_key list) io" where
  "agents S = io_then (sql_query S) (\<lambda>r. io_ok (sort_key ak_id
     (map (\<lambda>(id, row). \<lparr>ak_id = id, ak_public_key = ar_public_key row\<rparr>) (rg_agents r))))"

definition event :: "'s sqlite \<Rightarrow> string \<Rightarrow> int \<Rightarrow> string \<Rightarrow> string \<Rightarrow> ('s, unit) io" where
  "event S agent t kind message = sql_execute S (insert_event agent t kind message)"

definition mark_seen :: "'s sqlite \<Rightarrow> seen_agent \<Rightarrow> ('s, unit) io" where
  "mark_seen S seen = sql_execute S (upsert_seen seen)"

definition seen_rows :: "int \<Rightarrow> registry \<Rightarrow> seen_agent list" where
  "seen_rows cutoff r = sort_key sa_id (filter (\<lambda>a. sa_last_seen a \<ge> cutoff) (map snd (rg_seen r)))"

definition seen_since :: "'s sqlite \<Rightarrow> int \<Rightarrow> ('s, seen_agent list) io" where
  "seen_since S cutoff = io_then (sql_query S) (\<lambda>r. io_ok (seen_rows cutoff r))"

definition record_rollout :: "'s sqlite \<Rightarrow> rollout \<Rightarrow> ('s, unit) io" where
  "record_rollout S ro = sql_execute S (upsert_rollout ro)"

definition complete_rollout :: "'s sqlite \<Rightarrow> string \<Rightarrow> int \<Rightarrow> ('s, unit) io" where
  "complete_rollout S release t = sql_execute S (set_completed release t)"

definition share_setting :: "registry \<Rightarrow> string option" where
  "share_setting r = map_of (rg_settings r) ''share_key''"

definition share_key :: "'s env \<Rightarrow> 's sqlite \<Rightarrow> ('s, string) io" where
  "share_key E S =
     io_then (io_attempt (sql_query S)) (\<lambda>q.
     case (case q of Inl _ \<Rightarrow> None | Inr r \<Rightarrow> share_setting r) of
       Some key \<Rightarrow> io_ok key
     | None \<Rightarrow>
         io_then (new_release_key E) (\<lambda>key.
         io_then (sql_execute S (insert_setting ''share_key'' key)) (\<lambda>_.
         io_then (sql_query S) (\<lambda>r. io_lift (ok_or ''Query returned no rows'' (share_setting r))))))"

definition published_in :: "string \<Rightarrow> string \<Rightarrow> registry \<Rightarrow> bool" where
  "published_in version target r = list_ex (\<lambda>(id, ro, completed). ro_version ro = version \<and> ro_target ro = target) (rg_rollouts r)"

definition already_published :: "'s sqlite \<Rightarrow> string \<Rightarrow> string \<Rightarrow> ('s, bool) io" where
  "already_published S version target = io_then (sql_query S) (\<lambda>r. io_ok (published_in version target r))"

definition runs :: "seen_agent \<Rightarrow> string \<Rightarrow> string \<Rightarrow> bool" where
  "runs a sha version = (case sa_binary_sha256 a of
     Some installed \<Rightarrow> installed = sha
   | None \<Rightarrow> sa_version a = Some version)"

section \<open>What the database promises\<close>

text \<open>
  Over the tables \<open>tables_of\<close> in the state: a SELECT sees them as they are, a writing statement
  is atomic, and one that answers an error may or may not have been committed.
\<close>

locale database =
  fixes S :: "'s sqlite" and tables_of :: "'s \<Rightarrow> registry"
  assumes query_ok: "sql_query S s = (Inr r, s') \<Longrightarrow> r = tables_of s"
    and query_frame: "leaves tables_of (sql_query S)"
    and execute_ok: "sql_execute S f s = (Inr u, s') \<Longrightarrow> tables_of s' = f (tables_of s)"
    and execute_err: "sql_execute S f s = (Inl e, s') \<Longrightarrow> tables_of s' = tables_of s \<or> tables_of s' = f (tables_of s)"
begin

lemma execute_cases: "sql_execute S f s = (r, s') \<Longrightarrow> tables_of s' = tables_of s \<or> tables_of s' = f (tables_of s)"
  by (cases r) (auto dest: execute_ok execute_err)

lemma query_InrD: "sql_query S s = (Inr r, s') \<Longrightarrow> r = tables_of s \<and> tables_of s' = tables_of s"
  using query_ok leavesD [OF query_frame] by blast

end

section \<open>Facts about the statements\<close>

lemma insert_setting_share:
  "share_setting (insert_setting ''share_key'' k r) = Some (case share_setting r of None \<Rightarrow> k | Some k' \<Rightarrow> k')"
  by (auto simp: share_setting_def insert_setting_def map_add_Some_iff split: option.splits)

text \<open>Well-formed tables: keys are unique and a row carries its own key.\<close>

definition registry_ok :: "registry \<Rightarrow> bool" where
  "registry_ok r \<longleftrightarrow> distinct (map fst (rg_agents r)) \<and> distinct (map fst (rg_seen r)) \<and> distinct (map fst (rg_rollouts r))
     \<and> distinct (map fst (rg_settings r)) \<and> distinct (rg_events r)
     \<and> (\<forall>(k, a) \<in> set (rg_seen r). sa_id a = k) \<and> (\<forall>(k, ro, c) \<in> set (rg_rollouts r). ro_release ro = k)"

lemma update_rows:
  "distinct (map fst xs) \<Longrightarrow> set (AList.update k v xs) = {(k', v') \<in> set xs. k' \<noteq> k} \<union> {(k, v)}"
proof (induction xs)
  case (Cons x xs)
  then show ?case by (cases x) (auto simp: image_iff)
qed simp

lemma statements_ok:
  assumes "registry_ok r"
  shows "registry_ok (upsert_agent a pk now r)" "registry_ok (insert_event a t kd m r)" "registry_ok (upsert_seen sn r)"
    "registry_ok (upsert_rollout ro r)" "registry_ok (set_completed rel t r)" "registry_ok (insert_setting nm v r)"
proof -
  note d = assms [unfolded registry_ok_def]
  show "registry_ok (upsert_agent a pk now r)" "registry_ok (insert_event a t kd m r)"
    using d by (auto simp: registry_ok_def upsert_agent_def insert_event_def distinct_update)
  show "registry_ok (upsert_seen sn r)" "registry_ok (upsert_rollout ro r)"
    using d by (auto simp: registry_ok_def upsert_seen_def upsert_rollout_def distinct_update update_rows)
  have "fst \<circ> (\<lambda>(i, ro, c). (i, ro, if i = rel then Some t else c)) = (fst :: string \<times> rollout \<times> int option \<Rightarrow> string)"
    by auto
  then show "registry_ok (set_completed rel t r)"
    using d by (auto simp: registry_ok_def set_completed_def)
  show "registry_ok (insert_setting nm v r)"
    using d by (auto simp: registry_ok_def insert_setting_def map_of_eq_None_iff split: option.splits)
qed

lemma seen_rows_iff: "b \<in> set (seen_rows cutoff r) \<longleftrightarrow> (\<exists>k. (k, b) \<in> set (rg_seen r)) \<and> cutoff \<le> sa_last_seen b"
  by (force simp: seen_rows_def)

lemma seen_after_mark:
  assumes "registry_ok r"
  shows "b \<in> set (seen_rows cutoff (upsert_seen a r)) \<longleftrightarrow>
    (if sa_id b = sa_id a then b = a \<and> cutoff \<le> sa_last_seen a else b \<in> set (seen_rows cutoff r))"
  using assms by (auto simp: seen_rows_iff upsert_seen_def update_rows registry_ok_def)

lemma update_member: "(k, v) \<in> set (AList.update k v xs)"
  by (induction xs) auto

lemma published_completed: "published_in v t (set_completed rel at_time r) = published_in v t r"
  by (force simp: published_in_def list_ex_iff set_completed_def)

lemma published_recorded: "published_in (ro_version ro) (ro_target ro) (upsert_rollout ro r)"
  using update_member [of "ro_release ro" _ "rg_rollouts r"]
  by (fastforce simp: published_in_def list_ex_iff upsert_rollout_def)

section \<open>A concrete database\<close>

definition mem_sqlite :: "mem sqlite" where
  "mem_sqlite = \<lparr>sql_query = (\<lambda>w. (Inr (mem_registry w), w)),
     sql_execute = (\<lambda>f w. (Inr (), w\<lparr>mem_registry := f (mem_registry w)\<rparr>))\<rparr>"

interpretation mem_database: database mem_sqlite mem_registry
  by unfold_locales (auto simp: mem_sqlite_def leaves_def)

section \<open>Properties\<close>

text \<open>
  C31. The key of the shared area, once minted, stays: whatever a look-up answers, a key that is
  stored is still stored after it, and the key a look-up returns is the stored one, so that two
  controllers on one database agree even when both find none.
\<close>

theorem share_key_is_stable:
  assumes "database S tables_of" and "leaves tables_of (random E 32)"
    and "share_key E S s = (r, s')"
  shows "(share_setting (tables_of s) \<noteq> None \<longrightarrow> share_setting (tables_of s') = share_setting (tables_of s))
    \<and> (\<forall>k. r = Inr k \<longrightarrow> share_setting (tables_of s') = Some k)"
proof -
  obtain q s1 where q: "sql_query S s = (q, s1)" by fastforce
  have s1: "tables_of s1 = tables_of s" using leavesD [OF database.query_frame [OF assms(1)] q] .
  show ?thesis
  proof (cases "\<exists>t k. q = Inr t \<and> share_setting t = Some k")
    case True
    then obtain t k where "q = Inr t" "share_setting t = Some k" by blast
    then have "r = Inr k" "s' = s1" "share_setting (tables_of s) = Some k"
      using assms(3) q database.query_ok [OF assms(1), of s t s1] by (auto simp: share_key_def io_simps)
    with s1 show ?thesis by simp
  next
    case False
    then have none: "(case q of Inl _ \<Rightarrow> None | Inr t \<Rightarrow> share_setting t) = None"
      by (auto split: sum.splits)
    obtain r2 s2 where key: "new_release_key E s1 = (r2, s2)" by fastforce
    have "leaves tables_of (new_release_key E)"
      unfolding new_release_key_def by (intro leaves_intros assms(2))
    then have s2: "tables_of s2 = tables_of s" using leavesD key s1 by fastforce
    show ?thesis
    proof (cases r2)
      case (Inl e)
      then have "r = Inl e" "s' = s2" using assms(3) q none key by (simp_all add: share_key_def io_simps)
      with s2 show ?thesis by simp
    next
      case (Inr k)
      obtain r3 s3 where ins: "sql_execute S (insert_setting ''share_key'' k) s2 = (r3, s3)" by fastforce
      have s3: "tables_of s3 = tables_of s \<or> tables_of s3 = insert_setting ''share_key'' k (tables_of s)"
        using database.execute_cases [OF assms(1) ins] s2 by simp
      obtain r4 s4 where again: "sql_query S s3 = (r4, s4)" by fastforce
      have s4: "tables_of s4 = tables_of s3" using leavesD [OF database.query_frame [OF assms(1)] again] .
      have keeps: "share_setting (tables_of s3) = share_setting (tables_of s)" if "share_setting (tables_of s) \<noteq> None"
        using s3 that by (auto simp: insert_setting_share)
      consider "s' = s3" "\<exists>e. r = Inl e" | "s' = s4" "\<forall>v. r = Inr v \<longrightarrow> (\<exists>t. r4 = Inr t \<and> share_setting t = Some v)"
        using assms(3) q none key Inr ins again
        by (cases r3; cases r4) (auto simp: share_key_def io_simps)
      then show ?thesis
      proof cases
        case 1
        with keeps show ?thesis by auto
      next
        case 2
        with keeps s4 database.query_ok [OF assms(1), of s3 _ s4] again show ?thesis by auto
      qed
    qed
  qed
qed

theorem share_key_is_stable_witness:
  "\<exists>k s1. share_key (mem_env no_tables) mem_sqlite mem_start = (Inr k, s1)
    \<and> share_setting (mem_registry s1) = Some k
    \<and> share_setting (mem_registry (snd (share_key (mem_env no_tables) mem_sqlite s1))) = Some k"
proof -
  have r: "leaves mem_registry (random (mem_env no_tables) 32)" by (simp add: leaves_def random_def)
  have q: "sql_query mem_sqlite w = (Inr (mem_registry w), w)" for w by (simp add: mem_sqlite_def)
  have x: "sql_execute mem_sqlite f w = (Inr (), w\<lparr>mem_registry := f (mem_registry w)\<rparr>)" for f w
    by (simp add: mem_sqlite_def)
  have "\<exists>k s1. share_key (mem_env no_tables) mem_sqlite mem_start = (Inr k, s1)"
    by (simp add: share_key_def io_simps q x new_release_key_def random_def insert_setting_share mem_start_def
        registry_empty_def share_setting_def insert_setting_def)
  then obtain k s1 where one: "share_key (mem_env no_tables) mem_sqlite mem_start = (Inr k, s1)" by blast
  have first: "share_setting (mem_registry s1) = Some k"
    using share_key_is_stable [OF mem_database.database_axioms r one] by blast
  obtain r2 s2 where two: "share_key (mem_env no_tables) mem_sqlite s1 = (r2, s2)" by fastforce
  from share_key_is_stable [OF mem_database.database_axioms r two] first one two show ?thesis by auto
qed

end
