(* ===== verification/Controller.thy ===== *)
theory Controller
  imports Registry Blob Utf8
begin

text \<open>
  crates/controller/src/main.rs: relaying a command to an agent and the tools that an MCP client
  calls, each a function on the tool's arguments. A tool answers with a value, written as JSON by
  the library, or with an error text. What the code only writes to its log is left out.
\<close>

section \<open>Waiting operations\<close>

text \<open>An operation that waits for an agent: the outer \<open>None\<close> is one that never returns.\<close>

type_synonym ('s, 'a) waiting_io = "'s \<Rightarrow> ('a res \<times> 's) option"

definition w_io :: "('s, 'a) io \<Rightarrow> ('s, 'a) waiting_io" where
  "w_io m = (\<lambda>s. Some (m s))"

definition w_then :: "('s, 'a) waiting_io \<Rightarrow> ('a \<Rightarrow> ('s, 'b) waiting_io) \<Rightarrow> ('s, 'b) waiting_io" where
  "w_then m f = (\<lambda>s. case m s of None \<Rightarrow> None
     | Some (Inl e, s') \<Rightarrow> Some (Inl e, s') | Some (Inr x, s') \<Rightarrow> f x s')"

definition w_attempt :: "('s, 'a) waiting_io \<Rightarrow> ('s, 'a res) waiting_io" where
  "w_attempt m = (\<lambda>s. case m s of None \<Rightarrow> None | Some (r, s') \<Rightarrow> Some (Inr r, s'))"

lemma w_io_eq [simp]: "w_io m s = Some x \<longleftrightarrow> m s = x"
  by (simp add: w_io_def)

lemma w_io_returns [simp]: "w_io m s \<noteq> None"
  by (simp add: w_io_def)

lemma w_then_Some:
  "w_then m f s = Some (r, s'') \<longleftrightarrow>
     (\<exists>e. m s = Some (Inl e, s'') \<and> r = Inl e) \<or> (\<exists>x s'. m s = Some (Inr x, s') \<and> f x s' = Some (r, s''))"
  by (auto simp: w_then_def split: option.splits prod.splits sum.splits)

lemma w_then_Inr:
  "w_then m f s = Some (Inr y, s'') \<longleftrightarrow> (\<exists>x s'. m s = Some (Inr x, s') \<and> f x s' = Some (Inr y, s''))"
  by (auto simp: w_then_Some)

lemma w_attempt_Some: "w_attempt m s = Some (r, s') \<longleftrightarrow> (\<exists>q. m s = Some (q, s') \<and> r = Inr q)"
  by (auto simp: w_attempt_def split: option.splits prod.splits)

lemma w_then_returns:
  assumes "m s \<noteq> None" and "\<And>x s'. m s = Some (Inr x, s') \<Longrightarrow> f x s' \<noteq> None"
  shows "w_then m f s \<noteq> None"
  using assms by (auto simp: w_then_def split: option.splits prod.splits sum.splits)

lemma w_attempt_returns: "m s \<noteq> None \<Longrightarrow> w_attempt m s \<noteq> None"
  by (auto simp: w_attempt_def split: option.splits)

lemma w_then_io:
  "m s = (Inr x, s1) \<Longrightarrow> w_then (w_io m) f s = f x s1"
  "m s = (Inl e, s1) \<Longrightarrow> w_then (w_io m) f s = Some (Inl e, s1)"
  by (simp_all add: w_then_def w_io_def)

section \<open>The controller\<close>

definition DEFAULT_PULL_LIMIT_BYTES :: u64 where "DEFAULT_PULL_LIMIT_BYTES = 1024 * 1024 * 1024"

text \<open>
  The transports in the order the hash map gives; the database is the connection of Registry.
  The poll interval is in milliseconds.
\<close>

record controller =
  ct_transports :: "(string \<times> transport) list"
  ct_allowed_agents :: "string list"
  ct_queue_ttl_secs :: u64
  ct_max_exec_secs :: u64
  ct_max_wait_secs :: u64
  ct_max_transfer_secs :: u64
  ct_share_retention_days :: u64
  ct_poll_interval :: nat

definition validate_agent :: "controller \<Rightarrow> string \<Rightarrow> unit res" where
  "validate_agent C agent_id =
     res_then (validate_agent_id agent_id) (\<lambda>_.
     ensure (agent_id \<in> set (ct_allowed_agents C)) ''agent is not present in CONTROL_ALLOWED_AGENTS'')"

definition transport_for :: "controller \<Rightarrow> string \<Rightarrow> transport res" where
  "transport_for C agent_id =
     res_then (validate_agent C agent_id) (\<lambda>_.
     ok_or ''agent has no encryption key'' (map_of (ct_transports C) agent_id))"

text \<open>\<open>clamp\<close>, where the lower bound is at most the upper one.\<close>

definition clamp_u64 :: "u64 \<Rightarrow> u64 \<Rightarrow> u64 \<Rightarrow> u64" where
  "clamp_u64 lo hi x = (if x < lo then lo else if hi < x then hi else x)"

definition transfer_wait_cap :: "controller \<Rightarrow> u64 \<Rightarrow> u64" where
  "transfer_wait_cap C timeout_secs = sat_add_u64 (sat_add_u64 (ct_queue_ttl_secs C) timeout_secs) 30"

section \<open>Relaying a command\<close>

definition wait_ms :: "controller \<Rightarrow> u64 \<Rightarrow> u64 \<Rightarrow> nat" where
  "wait_ms C timeout_secs cap =
     1000 * unat (min (sat_add_u64 (sat_add_u64 (ct_queue_ttl_secs C) timeout_secs) 10) cap)"

text \<open>\<open>Command::new\<close>: the clock is read before the identifier is drawn.\<close>

definition new_command :: "'s env \<Rightarrow> string \<Rightarrow> command_kind \<Rightarrow> u64 \<Rightarrow> u64 \<Rightarrow> ('s, command) io" where
  "new_command E agent_id kind timeout_secs ttl =
     io_then (now_unix E) (\<lambda>now. io_then (uuid_v4 E) (\<lambda>uuid.
     io_ok (command_new uuid now agent_id kind timeout_secs ttl)))"

definition dispatch :: "'s env \<Rightarrow> controller \<Rightarrow> string \<Rightarrow> (command \<Rightarrow> command) \<Rightarrow> command_kind \<Rightarrow> u64
    \<Rightarrow> ('s, transport \<times> command) io" where
  "dispatch E C agent_id addressed kind timeout_secs =
     io_then (io_lift (validate_agent C agent_id)) (\<lambda>_.
     io_then (io_lift (transport_for C agent_id)) (\<lambda>T.
     io_then (new_command E agent_id kind timeout_secs (ct_queue_ttl_secs C)) (\<lambda>cmd.
     io_then (send_command E T (addressed cmd)) (\<lambda>_. io_ok (T, addressed cmd)))))"

text \<open>\<open>settle\<close> is the end of \<open>relay_with\<close>: what is done with the answer, or without one.\<close>

definition settle :: "'s env \<Rightarrow> transport \<Rightarrow> command \<Rightarrow> response option \<Rightarrow> ('s, response) io" where
  "settle E T cmd answer = (case answer of
     Some r \<Rightarrow> io_ok r
   | None \<Rightarrow> io_then (io_ignore (delete_command E T cmd)) (\<lambda>_.
       io_lift (bail (''timed out waiting for agent response; command id '' @ cmd_id cmd))))"

definition relay_with :: "'s env \<Rightarrow> controller \<Rightarrow> string \<Rightarrow> command_kind \<Rightarrow> u64 \<Rightarrow> u64 \<Rightarrow> ('s, response) waiting_io" where
  "relay_with E C agent_id kind timeout_secs wait_cap_secs =
     (let timeout_secs = max timeout_secs 1 in
      w_then (w_io (dispatch E C agent_id (\<lambda>cmd. cmd) kind timeout_secs)) (\<lambda>(T, cmd).
      w_then (await_response E T cmd (wait_ms C timeout_secs wait_cap_secs) (ct_poll_interval C)) (\<lambda>answer.
      w_io (settle E T cmd answer))))"

definition relay_instance :: "'s env \<Rightarrow> controller \<Rightarrow> string \<Rightarrow> string \<Rightarrow> command_kind \<Rightarrow> u64 \<Rightarrow> ('s, response) waiting_io" where
  "relay_instance E C agent_id instance kind timeout_secs =
     w_then (w_io (dispatch E C agent_id (for_instance instance) kind timeout_secs)) (\<lambda>(T, cmd).
     w_then (await_response E T cmd (wait_ms C timeout_secs (ct_max_wait_secs C)) (ct_poll_interval C)) (\<lambda>r.
     w_io (io_lift (ok_or ''timed out; that instance may already be gone'' r))))"

definition relay_command :: "'s env \<Rightarrow> controller \<Rightarrow> string \<Rightarrow> command_kind \<Rightarrow> u64 \<Rightarrow> ('s, response) waiting_io" where
  "relay_command E C agent_id kind timeout_secs =
     relay_with E C agent_id kind (clamp_u64 1 (ct_max_exec_secs C) timeout_secs) (ct_max_wait_secs C)"

section \<open>Answers\<close>

datatype json_value =
    J_null
  | J_bool bool
  | J_int int
  | J_string string
  | J_list "json_value list"
  | J_object "(string \<times> json_value) list"

text \<open>A payload and a list of heartbeats are written as serde derives it for their types.\<close>

datatype tool_result =
    Tool_value json_value
  | Tool_payload response_payload
  | Tool_heartbeats "heartbeat list"
  | Tool_error string

definition response_error :: "response \<Rightarrow> tool_result" where
  "response_error r = Tool_error (case resp_error r of None \<Rightarrow> ''agent operation failed'' | Some e \<Rightarrow> e)"

definition decode_lossy :: "'z libs_scheme \<Rightarrow> string \<Rightarrow> string" where
  "decode_lossy E value = (case b64_decode E value of
     Inr b \<Rightarrow> of_bytes (from_utf8_lossy b)
   | Inl e \<Rightarrow> ''<invalid base64 from agent: '' @ error_to_string e @ ''>'')"

definition json_opt :: "('a \<Rightarrow> json_value) \<Rightarrow> 'a option \<Rightarrow> json_value" where
  "json_opt f v = (case v of None \<Rightarrow> J_null | Some x \<Rightarrow> f x)"

definition render_success :: "'z libs_scheme \<Rightarrow> response \<Rightarrow> tool_result" where
  "render_success E r = (case resp_payload r of
     ExecResult stdout_b64 stderr_b64 stdout_truncated stderr_truncated exit_code timed_out \<Rightarrow>
       Tool_value (J_object [(''stdout'', J_string (decode_lossy E stdout_b64)), (''stderr'', J_string (decode_lossy E stderr_b64)),
         (''stdout_truncated'', J_bool stdout_truncated), (''stderr_truncated'', J_bool stderr_truncated),
         (''exit_code'', json_opt J_int exit_code), (''timed_out'', J_bool timed_out)])
   | payload \<Rightarrow> Tool_payload payload)"

text \<open>The last step of a tool: an error of the relay becomes the text of a tool error.\<close>

definition w_tool :: "string \<Rightarrow> ('s, 'a) waiting_io \<Rightarrow> ('a \<Rightarrow> tool_result) \<Rightarrow> 's \<Rightarrow> (tool_result \<times> 's) option" where
  "w_tool what m view_of s = (case m s of None \<Rightarrow> None
     | Some (Inl e, s') \<Rightarrow> Some (Tool_error (what @ error_alternate e), s')
     | Some (Inr x, s') \<Rightarrow> Some (view_of x, s'))"

definition render_response :: "'z libs_scheme \<Rightarrow> response \<Rightarrow> tool_result" where
  "render_response E r = (if resp_ok r then render_success E r else response_error r)"

definition run_tool :: "'s env \<Rightarrow> controller \<Rightarrow> string \<Rightarrow> command_kind \<Rightarrow> u64 \<Rightarrow> 's \<Rightarrow> (tool_result \<times> 's) option" where
  "run_tool E C agent_id kind timeout_secs =
     w_tool ''relay failed: '' (relay_command E C agent_id kind timeout_secs) (render_response E)"

definition action_of :: "command_kind \<Rightarrow> string" where
  "action_of kind = (case kind of
     Ping \<Rightarrow> ''ping'' | Exec _ _ _ _ \<Rightarrow> ''exec'' | ReadFile _ _ \<Rightarrow> ''read_file'' | WriteFile _ _ _ \<Rightarrow> ''write_file''
   | ListDir _ \<Rightarrow> ''list_dir'' | MakeDir _ _ \<Rightarrow> ''make_dir'' | Remove _ _ \<Rightarrow> ''remove'' | Move _ _ \<Rightarrow> ''move''
   | PushBlob _ _ _ _ _ \<Rightarrow> ''push_file'' | PullBlob _ _ _ \<Rightarrow> ''pull_file'' | StartJob _ _ _ _ _ _ \<Rightarrow> ''start_job''
   | ListJobs \<Rightarrow> ''list_jobs'' | JobOutput _ _ \<Rightarrow> ''job_output'' | CancelJob _ \<Rightarrow> ''cancel_job''
   | StandDown \<Rightarrow> ''stand_down'' | SharePut _ _ _ _ \<Rightarrow> ''share_put'' | ShareGet _ _ _ \<Rightarrow> ''share_get'')"

section \<open>Tools that run one command\<close>

definition tool_ping :: "'s env \<Rightarrow> controller \<Rightarrow> string \<Rightarrow> 's \<Rightarrow> (tool_result \<times> 's) option" where
  "tool_ping E C agent_id = run_tool E C agent_id Ping 10"

definition tool_exec :: "'s env \<Rightarrow> controller \<Rightarrow> string \<Rightarrow> string \<Rightarrow> string list \<Rightarrow> string option \<Rightarrow> string option
    \<Rightarrow> u64 option \<Rightarrow> 's \<Rightarrow> (tool_result \<times> 's) option" where
  "tool_exec E C agent_id program args cwd stdin timeout_secs =
     run_tool E C agent_id (Exec program args cwd (map_option (\<lambda>v. b64_encode E (as_bytes v)) stdin))
       (clamp_u64 1 (ct_max_exec_secs C) (case timeout_secs of None \<Rightarrow> 60 | Some t \<Rightarrow> t))"

definition render_file :: "'z libs_scheme \<Rightarrow> bool \<Rightarrow> response \<Rightarrow> tool_result" where
  "render_file E binary r =
     (if \<not> resp_ok r then response_error r
      else (case resp_payload r of
          FileContents contents_b64 truncated \<Rightarrow>
            if binary then Tool_value (J_object [(''content_base64'', J_string contents_b64), (''truncated'', J_bool truncated)])
            else (case b64_decode E contents_b64 of
                Inr b \<Rightarrow> if utf8_valid b
                  then Tool_value (J_object [(''content'', J_string (of_bytes b)), (''truncated'', J_bool truncated)])
                  else Tool_error ''file is not valid UTF-8; retry with binary=true''
              | Inl e \<Rightarrow> Tool_error (''agent returned invalid base64: '' @ error_to_string e))
        | _ \<Rightarrow> Tool_error ''agent returned an unexpected payload''))"

definition tool_read_file :: "'s env \<Rightarrow> controller \<Rightarrow> string \<Rightarrow> string \<Rightarrow> u64 option \<Rightarrow> bool \<Rightarrow> 's \<Rightarrow> (tool_result \<times> 's) option" where
  "tool_read_file E C agent_id path max_bytes binary =
     w_tool ''relay failed: '' (relay_command E C agent_id (ReadFile path max_bytes) 30) (render_file E binary)"

definition tool_write_file :: "'s env \<Rightarrow> controller \<Rightarrow> string \<Rightarrow> string \<Rightarrow> string \<Rightarrow> bool \<Rightarrow> bool \<Rightarrow> 's \<Rightarrow> (tool_result \<times> 's) option" where
  "tool_write_file E C agent_id path content base64 appending s =
     (case (if base64 then map_sum (\<lambda>e. e) (\<lambda>_. content) (b64_decode E content) else Inr (b64_encode E (as_bytes content))) of
        Inl e \<Rightarrow> Some (Tool_error (''content is not valid base64: '' @ error_to_string e), s)
      | Inr contents_b64 \<Rightarrow> run_tool E C agent_id (WriteFile path contents_b64 appending) 30 s)"

definition tool_list_dir :: "'s env \<Rightarrow> controller \<Rightarrow> string \<Rightarrow> string \<Rightarrow> 's \<Rightarrow> (tool_result \<times> 's) option" where
  "tool_list_dir E C agent_id path = run_tool E C agent_id (ListDir path) 30"

definition tool_start_job :: "'s env \<Rightarrow> controller \<Rightarrow> string \<Rightarrow> string \<Rightarrow> string list \<Rightarrow> string option \<Rightarrow> u64 option \<Rightarrow> string option
    \<Rightarrow> 's \<Rightarrow> (tool_result \<times> 's) option" where
  "tool_start_job E C agent_id program args cwd max_runtime_secs label s =
     (case new_uuid E s of (job, s1) \<Rightarrow>
      run_tool E C agent_id (StartJob job program args cwd (case max_runtime_secs of None \<Rightarrow> 21600 | Some t \<Rightarrow> t) label) 60 s1)"

definition tool_list_jobs :: "'s env \<Rightarrow> controller \<Rightarrow> string \<Rightarrow> 's \<Rightarrow> (tool_result \<times> 's) option" where
  "tool_list_jobs E C agent_id = run_tool E C agent_id ListJobs 30"

definition tool_job_output :: "'s env \<Rightarrow> controller \<Rightarrow> string \<Rightarrow> string \<Rightarrow> u64 option \<Rightarrow> 's \<Rightarrow> (tool_result \<times> 's) option" where
  "tool_job_output E C agent_id job tail_bytes = run_tool E C agent_id (JobOutput job tail_bytes) 30"

definition tool_cancel_job :: "'s env \<Rightarrow> controller \<Rightarrow> string \<Rightarrow> string \<Rightarrow> 's \<Rightarrow> (tool_result \<times> 's) option" where
  "tool_cancel_job E C agent_id job = run_tool E C agent_id (CancelJob job) 30"

definition tool_make_dir :: "'s env \<Rightarrow> controller \<Rightarrow> string \<Rightarrow> string \<Rightarrow> bool \<Rightarrow> 's \<Rightarrow> (tool_result \<times> 's) option" where
  "tool_make_dir E C agent_id path parents = run_tool E C agent_id (MakeDir path parents) 30"

definition tool_remove :: "'s env \<Rightarrow> controller \<Rightarrow> string \<Rightarrow> string \<Rightarrow> bool \<Rightarrow> 's \<Rightarrow> (tool_result \<times> 's) option" where
  "tool_remove E C agent_id path recursive = run_tool E C agent_id (Remove path recursive) 60"

definition tool_move_path :: "'s env \<Rightarrow> controller \<Rightarrow> string \<Rightarrow> string \<Rightarrow> string \<Rightarrow> 's \<Rightarrow> (tool_result \<times> 's) option" where
  "tool_move_path E C agent_id src dst = run_tool E C agent_id (Move src dst) 60"

definition tool_stand_down :: "'s env \<Rightarrow> controller \<Rightarrow> string \<Rightarrow> string \<Rightarrow> 's \<Rightarrow> (tool_result \<times> 's) option" where
  "tool_stand_down E C agent_id instance s =
     (if trim instance = [] then Some (Tool_error ''instance must name the process to stop'', s)
      else w_tool ''stand down failed: '' (relay_instance E C agent_id instance StandDown 30)
        (\<lambda>r. if resp_ok r then Tool_value (J_object [(''stood_down'', J_bool True)]) else response_error r) s)"

section \<open>Transfers\<close>

definition push :: "'s env \<Rightarrow> 's host \<Rightarrow> nat \<Rightarrow> controller \<Rightarrow> string \<Rightarrow> string \<Rightarrow> string \<Rightarrow> u64 option
    \<Rightarrow> ('s, json_value) waiting_io" where
  "push E H concurrency C agent_id local_path remote_path timeout_secs =
     w_then (w_io (io_then (io_lift (validate_agent C agent_id)) (\<lambda>_.
       io_then (new_transfer_id E) (\<lambda>transfer.
       io_then (io_lift (transport_for C agent_id)) (\<lambda>T.
       io_then (io_attempt (stage_file E H concurrency T agent_id transfer (PathBuf local_path))) (\<lambda>staged.
       case staged of
         Inl e \<Rightarrow> io_then (io_ignore (delete_blob E T agent_id transfer)) (\<lambda>_. io_lift (Inl e))
       | Inr m \<Rightarrow> io_ok (T, transfer, m)))))))
     (\<lambda>(T, transfer, m).
     let timeout = clamp_u64 1 (ct_max_transfer_secs C) (case timeout_secs of None \<Rightarrow> ct_max_transfer_secs C | Some t \<Rightarrow> t) in
     w_then (relay_with E C agent_id (PushBlob transfer remote_path (mf_chunks m) (mf_total_bytes m) (mf_sha256 m))
       timeout (transfer_wait_cap C timeout)) (\<lambda>r.
     if resp_ok r
     then w_io (io_ok (J_object [(''remote_path'', J_string remote_path), (''bytes'', J_int (uint (mf_total_bytes m))),
       (''chunks'', J_int (uint (mf_chunks m))), (''sha256'', J_string (mf_sha256 m))]))
     else w_io (io_then (io_ignore (delete_blob E T agent_id transfer)) (\<lambda>_.
       io_lift (bail (case resp_error r of None \<Rightarrow> ''agent rejected the transfer'' | Some e \<Rightarrow> e))))))"

text \<open>\<open>place_pulled\<close> is the rest of \<open>pull\<close>: what is done with the agent's answer.\<close>

definition place_pulled :: "'s env \<Rightarrow> 's host \<Rightarrow> controller \<Rightarrow> string \<Rightarrow> string \<Rightarrow> string \<Rightarrow> response \<Rightarrow> ('s, json_value) io" where
  "place_pulled E H C agent_id transfer local_path r =
     io_then (io_lift (ensure (resp_ok r) (case resp_error r of None \<Rightarrow> ''agent could not stage the file'' | Some e \<Rightarrow> e))) (\<lambda>_.
     case resp_payload r of
       BlobStaged chunks total_bytes sha \<Rightarrow>
         let m = \<lparr>mf_chunks = chunks, mf_total_bytes = total_bytes, mf_sha256 = sha\<rparr>; dest = PathBuf local_path in
         io_then (case parent dest of
           None \<Rightarrow> io_ok ()
         | Some d \<Rightarrow> if is_empty_path d then io_ok ()
             else io_context (''create local directory '' @ display d) (create_dir_all H d)) (\<lambda>_.
         io_then (io_lift (transport_for C agent_id)) (\<lambda>T.
         io_then (io_attempt (assemble_file E H T agent_id transfer m dest)) (\<lambda>assembled.
         io_then (io_ignore (delete_blob E T agent_id transfer)) (\<lambda>_.
         io_then (io_lift assembled) (\<lambda>n.
         io_ok (J_object [(''local_path'', J_string local_path), (''bytes'', J_int (uint n)),
           (''chunks'', J_int (uint chunks)), (''sha256'', J_string sha)]))))))
     | _ \<Rightarrow> io_lift (bail ''agent returned an unexpected payload''))"

definition pull :: "'s env \<Rightarrow> 's host \<Rightarrow> controller \<Rightarrow> string \<Rightarrow> string \<Rightarrow> string \<Rightarrow> u64 option \<Rightarrow> u64 option
    \<Rightarrow> ('s, json_value) waiting_io" where
  "pull E H C agent_id remote_path local_path max_bytes timeout_secs =
     w_then (w_io (io_then (io_lift (validate_agent C agent_id)) (\<lambda>_. new_transfer_id E))) (\<lambda>transfer.
     let timeout = clamp_u64 1 (ct_max_transfer_secs C) (case timeout_secs of None \<Rightarrow> ct_max_transfer_secs C | Some t \<Rightarrow> t) in
     w_then (relay_with E C agent_id
       (PullBlob transfer remote_path (case max_bytes of None \<Rightarrow> DEFAULT_PULL_LIMIT_BYTES | Some n \<Rightarrow> n))
       timeout (transfer_wait_cap C timeout)) (\<lambda>r.
     w_io (place_pulled E H C agent_id transfer local_path r)))"

definition tool_push_file :: "'s env \<Rightarrow> 's host \<Rightarrow> nat \<Rightarrow> controller \<Rightarrow> string \<Rightarrow> string \<Rightarrow> string \<Rightarrow> u64 option
    \<Rightarrow> 's \<Rightarrow> (tool_result \<times> 's) option" where
  "tool_push_file E H concurrency C agent_id local_path remote_path timeout_secs =
     w_tool ''push failed: '' (push E H concurrency C agent_id local_path remote_path timeout_secs) Tool_value"

definition tool_pull_file :: "'s env \<Rightarrow> 's host \<Rightarrow> controller \<Rightarrow> string \<Rightarrow> string \<Rightarrow> string \<Rightarrow> u64 option \<Rightarrow> u64 option
    \<Rightarrow> 's \<Rightarrow> (tool_result \<times> 's) option" where
  "tool_pull_file E H C agent_id remote_path local_path max_bytes timeout_secs =
     w_tool ''pull failed: '' (pull E H C agent_id remote_path local_path max_bytes timeout_secs) Tool_value"

end
