(* ===== verification/Rollout.thy ===== *)
theory Rollout
  imports Registry
begin

text \<open>
  crates/controller/src/rollout.rs: removing releases whose roll-out is complete, shared files
  that have expired and chunks of uploads that died, and reading what a repository has released.
  The transports of the controller are the list of agents with theirs, in the order the hash
  map happens to give; the releases of a sweep come in the order they are first met.
\<close>

section \<open>Completed roll-outs\<close>

record swept =
  sw_releases_removed :: "string list"
  sw_manifests_removed :: nat

record sweep_policy =
  sp_seen_window_secs :: u64
  sp_cleanup :: bool

type_synonym fleet = "(string \<times> transport) list"
type_synonym holders = "(string \<times> update_manifest) list"

text \<open>\<open>entry(release).or_default().push((id, manifest))\<close>.\<close>

fun add_holder :: "string \<Rightarrow> string \<times> update_manifest \<Rightarrow> (string \<times> holders) list \<Rightarrow> (string \<times> holders) list" where
  "add_holder release h [] = [(release, [h])]"
| "add_holder release h ((r, hs) # rest) = (if r = release then (r, hs @ [h]) # rest else (r, hs) # add_holder release h rest)"

fun by_release :: "'s env \<Rightarrow> fleet \<Rightarrow> (string \<times> holders) list \<Rightarrow> ('s, (string \<times> holders) list) io" where
  "by_release E [] acc = io_ok acc"
| "by_release E ((agent, T) # rest) acc =
     io_then (read_update_manifest E T agent) (\<lambda>r.
     by_release E rest (case r of None \<Rightarrow> acc | Some m \<Rightarrow> add_holder (um_release m) (agent, m) acc))"

definition live_agents :: "seen_agent list \<Rightarrow> string \<Rightarrow> seen_agent option" where
  "live_agents seen = map_of (rev (map (\<lambda>a. (sa_id a, a)) seen))"

definition rollout_complete :: "(string \<Rightarrow> seen_agent option) \<Rightarrow> holders \<Rightarrow> bool" where
  "rollout_complete live holders = list_all (\<lambda>(agent, m). case live agent of
     None \<Rightarrow> True
   | Some a \<Rightarrow> runs a (um_sha256 m) (um_version m)) holders"

fun retract_all :: "'s env \<Rightarrow> fleet \<Rightarrow> holders \<Rightarrow> nat \<Rightarrow> ('s, nat) io" where
  "retract_all E fleet [] n = io_ok n"
| "retract_all E fleet ((agent, m) # rest) n = (case map_of fleet agent of
     None \<Rightarrow> retract_all E fleet rest n
   | Some T \<Rightarrow>
       io_then (io_context (''retract the finished manifest for '' @ agent) (delete_update_manifest E T agent)) (\<lambda>_.
       retract_all E fleet rest (Suc n)))"

definition retire :: "'s env \<Rightarrow> 's sqlite \<Rightarrow> fleet \<Rightarrow> int \<Rightarrow> string \<Rightarrow> holders \<Rightarrow> swept \<Rightarrow> ('s, swept) io" where
  "retire E S fleet now release holders sw =
     io_then (retract_all E fleet holders (sw_manifests_removed sw)) (\<lambda>n.
     io_then (case fleet of [] \<Rightarrow> io_ok ()
       | (_, T) # _ \<Rightarrow> io_context (''delete completed release '' @ release) (delete_release E T release)) (\<lambda>_.
     io_then (complete_rollout S release now) (\<lambda>_.
     io_ok \<lparr>sw_releases_removed = sw_releases_removed sw @ [release], sw_manifests_removed = n\<rparr>)))"

fun sweep_releases :: "'s env \<Rightarrow> 's sqlite \<Rightarrow> fleet \<Rightarrow> int \<Rightarrow> (string \<Rightarrow> seen_agent option) \<Rightarrow> (string \<times> holders) list
    \<Rightarrow> swept \<Rightarrow> ('s, swept) io" where
  "sweep_releases E S fleet now live [] sw = io_ok sw"
| "sweep_releases E S fleet now live ((release, holders) # rest) sw =
     (if rollout_complete live holders
      then io_then (retire E S fleet now release holders sw) (\<lambda>sw'. sweep_releases E S fleet now live rest sw')
      else sweep_releases E S fleet now live rest sw)"

definition swept_default :: swept where
  "swept_default = \<lparr>sw_releases_removed = [], sw_manifests_removed = 0\<rparr>"

definition sweep :: "'s env \<Rightarrow> 's sqlite \<Rightarrow> fleet \<Rightarrow> sweep_policy \<Rightarrow> ('s, swept) io" where
  "sweep E S fleet policy =
     (if \<not> sp_cleanup policy then io_ok swept_default
      else
        io_then (now_unix E) (\<lambda>now.
        let cutoff = sat_sub_i64 now (u64_as_i64 (sp_seen_window_secs policy)) in
        io_then (seen_since S cutoff) (\<lambda>seen.
        io_then (by_release E fleet []) (\<lambda>groups.
        sweep_releases E S fleet now (live_agents seen) groups swept_default))))"

section \<open>Expired and orphaned shared files\<close>

definition ORPHAN_GRACE_SECS :: u64 where "ORPHAN_GRACE_SECS = 24 * 3600"

text \<open>
  \<open>list_share_orphans\<close> of crates/common/src/transport.rs: what one listed object says of the
  share it belongs to (whether it has a manifest, and the time of its newest object).
\<close>

definition note_object :: "string \<Rightarrow> string option \<times> int option \<Rightarrow> (string \<times> bool \<times> int) list \<Rightarrow> (string \<times> bool \<times> int) list" where
  "note_object p obj seen = (case obj of (None, _) \<Rightarrow> seen
   | (Some key, modified) \<Rightarrow>
      (case Option.bind (strip_prefix p key) (split_once (CHR ''/'')) of None \<Rightarrow> seen
       | Some (name, leaf) \<Rightarrow>
          if \<not> is_ok (validate_share_name name) then seen
          else (case (case map_of seen name of None \<Rightarrow> (False, 0) | Some e \<Rightarrow> e) of (has, newest) \<Rightarrow>
            AList.update name (has \<or> leaf = ''manifest'', max newest (case modified of None \<Rightarrow> 0 | Some t \<Rightarrow> t)) seen)))"

partial_function (option) orphan_loop :: "'s env \<Rightarrow> string \<Rightarrow> string option \<Rightarrow> (string \<times> bool \<times> int) list
    \<Rightarrow> 's \<Rightarrow> ((string \<times> bool \<times> int) list res \<times> 's) option" where
  "orphan_loop E p token seen s =
     (case io_context (''list_objects_v2 '' @ p) (list_objects_v2 E p token) s of
        (Inl e, s1) \<Rightarrow> Some (Inl e, s1)
      | (Inr page, s1) \<Rightarrow>
          let seen' = fold (note_object p) (lp_contents page) seen in
          if lp_is_truncated page = Some True then orphan_loop E p (lp_next_token page) seen' s1
          else Some (Inr seen', s1))"

definition orphans_of :: "int \<Rightarrow> (string \<times> bool \<times> int) list \<Rightarrow> string list" where
  "orphans_of cutoff seen = sort (map fst (filter (\<lambda>(_, has, newest). \<not> has \<and> newest < cutoff) seen))"

definition list_share_orphans :: "'s env \<Rightarrow> transport \<Rightarrow> u64 \<Rightarrow> 's \<Rightarrow> (string list res \<times> 's) option" where
  "list_share_orphans E T grace s =
     (case clock_unix E s of (now, s1) \<Rightarrow>
      let cutoff = sat_sub_i64 now (u64_as_i64 grace) in
      (case orphan_loop E (tp_prefix T @ ''share/'') None [] s1 of
         None \<Rightarrow> None
       | Some (Inl e, s2) \<Rightarrow> Some (Inl e, s2)
       | Some (Inr seen, s2) \<Rightarrow> Some (Inr (orphans_of cutoff seen), s2)))"

fun sweep_expired :: "'s env \<Rightarrow> transport \<Rightarrow> crypto \<Rightarrow> int \<Rightarrow> string list \<Rightarrow> string list \<Rightarrow> ('s, string list) io" where
  "sweep_expired E T cr now [] expired = io_ok expired"
| "sweep_expired E T cr now (name # names) expired =
     io_then (io_attempt (read_share_manifest E T name cr)) (\<lambda>r.
     if (case r of Inr (Some m) \<Rightarrow> sm_expires_at m > 0 \<and> sm_expires_at m \<le> now | _ \<Rightarrow> False)
     then io_then (io_context (''delete expired share '' @ name) (delete_share E T name)) (\<lambda>_.
       sweep_expired E T cr now names (expired @ [name]))
     else sweep_expired E T cr now names expired)"

fun sweep_orphans :: "'s env \<Rightarrow> transport \<Rightarrow> string list \<Rightarrow> string list \<Rightarrow> ('s, string list) io" where
  "sweep_orphans E T [] orphaned = io_ok orphaned"
| "sweep_orphans E T (name # names) orphaned =
     io_then (io_context (''delete orphaned share '' @ name) (delete_share E T name)) (\<lambda>_.
     sweep_orphans E T names (orphaned @ [name]))"

definition sweep_shares :: "'s env \<Rightarrow> transport \<Rightarrow> crypto \<Rightarrow> 's \<Rightarrow> ((string list \<times> string list) res \<times> 's) option" where
  "sweep_shares E T cr s =
     (case io_then (now_unix E) (\<lambda>now. io_then (list_shares E T) (\<lambda>names. sweep_expired E T cr now names [])) s of
        (Inl e, s1) \<Rightarrow> Some (Inl e, s1)
      | (Inr expired, s1) \<Rightarrow> (case list_share_orphans E T ORPHAN_GRACE_SECS s1 of
          None \<Rightarrow> None
        | Some (Inl e, s2) \<Rightarrow> Some (Inl e, s2)
        | Some (Inr names, s2) \<Rightarrow>
            Some (io_then (sweep_orphans E T names []) (\<lambda>orphaned. io_ok (expired, orphaned)) s2)))"

section \<open>What a repository has released\<close>

record asset =
  as_name :: string
  as_url :: string

record latest_release =
  lr_tag :: string
  lr_assets :: "asset list"

text \<open>\<open>serde_json::Value\<close>, as far as a release response is looked into.\<close>

datatype json =
    Json_string string
  | Json_array "json list"
  | Json_object "(string \<times> json) list"
  | Json_other

fun json_get :: "string \<Rightarrow> json \<Rightarrow> json option" where
  "json_get k (Json_object members) = map_of members k"
| "json_get k _ = None"

fun json_str :: "json \<Rightarrow> string option" where
  "json_str (Json_string s) = Some s"
| "json_str _ = None"

fun json_array :: "json \<Rightarrow> json list option" where
  "json_array (Json_array xs) = Some xs"
| "json_array _ = None"

definition asset_name :: "string \<Rightarrow> string" where
  "asset_name target = ''relay-agent-'' @ map (\<lambda>c. if c = CHR '' '' then CHR ''-'' else c) target
     @ (if starts_with target ''windows'' then ''.exe'' else [])"

definition asset_of :: "json \<Rightarrow> asset option" where
  "asset_of v = Option.bind (Option.bind (json_get ''name'' v) json_str) (\<lambda>name.
     Option.bind (Option.bind (json_get ''browser_download_url'' v) json_str) (\<lambda>url.
     Some \<lparr>as_name = name, as_url = url\<rparr>))"

definition parse_release :: "(bytes \<Rightarrow> json res) \<Rightarrow> bytes \<Rightarrow> latest_release res" where
  "parse_release parse body =
     res_then (with_context ''decode the GitHub release response'' (parse body)) (\<lambda>value.
     res_then (ok_or ''release has no tag_name'' (Option.bind (json_get ''tag_name'' value) json_str)) (\<lambda>tag.
     Inr \<lparr>lr_tag = tag, lr_assets = (case Option.bind (json_get ''assets'' value) json_array of
       None \<Rightarrow> [] | Some vs \<Rightarrow> List.map_filter asset_of vs)\<rparr>))"

definition repo_part_ok :: "string \<Rightarrow> bool" where
  "repo_part_ok p \<longleftrightarrow> p \<noteq> [] \<and> length p \<le> 100
     \<and> list_all (\<lambda>c. is_ascii_alphanumeric c \<or> c = CHR ''-'' \<or> c = CHR ''_'' \<or> c = CHR ''.'') p"

definition validate_repo :: "string \<Rightarrow> unit res" where
  "validate_repo repo = (case split_once (CHR ''/'') repo of
     None \<Rightarrow> bail (''repository must be in owner/name form, got '' @ repo)
   | Some (owner, name) \<Rightarrow> ensure (\<not> (\<not> repo_part_ok owner \<or> \<not> repo_part_ok name))
       (''repository '' @ repo @ '' contains characters that are not valid in owner/name''))"

text \<open>\<open>run args\<close> starts curl: whether it exits with success, and its standard output and error.\<close>

definition curl :: "(string list \<Rightarrow> ('s, bool \<times> bytes \<times> bytes) io) \<Rightarrow> string \<Rightarrow> path option \<Rightarrow> ('s, bytes) io" where
  "curl run url dest =
     io_then (io_context ''run curl'' (run
       ([''-fsSL'', ''--proto'', ''=https'', ''--tlsv1.2'', ''--max-time'', ''600'',
         ''-H'', ''Accept: application/vnd.github+json'', ''-H'', ''User-Agent: s3-mcp-relay'']
        @ (case dest of None \<Rightarrow> [] | Some p \<Rightarrow> [''-o'', display p]) @ [url]))) (\<lambda>(success, out, err).
     io_then (io_lift (ensure success (''curl failed for '' @ url @ '': '' @ trim (of_bytes (from_utf8_lossy err))))) (\<lambda>_.
     io_ok out))"

definition latest_release_of :: "(string list \<Rightarrow> ('s, bool \<times> bytes \<times> bytes) io) \<Rightarrow> (bytes \<Rightarrow> json res) \<Rightarrow> string
    \<Rightarrow> ('s, latest_release) io" where
  "latest_release_of run parse repo =
     io_then (io_lift (validate_repo repo)) (\<lambda>_.
     io_then (curl run (''https://api.github.com/repos/'' @ repo @ ''/releases/latest'') None) (\<lambda>body.
     io_lift (parse_release parse body)))"

definition download_asset :: "(string list \<Rightarrow> ('s, bool \<times> bytes \<times> bytes) io) \<Rightarrow> asset \<Rightarrow> path \<Rightarrow> ('s, unit) io" where
  "download_asset run a dest = io_then (curl run (as_url a) (Some dest)) (\<lambda>_. io_ok ())"

end
