(* ===== verification/Publishing.thy ===== *)
theory Publishing
  imports Controller Rollout
begin

text \<open>
  The rest of crates/controller/src/main.rs: the tools over the whole fleet and the shared area,
  publishing a build, the check for a new release of a repository, one turn of the cleaning loop,
  and reading a platform out of an executable's header.
\<close>

section \<open>The fleet\<close>

fun heartbeats :: "'s env \<Rightarrow> fleet \<Rightarrow> heartbeat list \<Rightarrow> 's \<Rightarrow> tool_result \<times> 's" where
  "heartbeats E [] acc s = (Tool_heartbeats (sort_key hb_agent_id acc), s)"
| "heartbeats E ((agent, T) # rest) acc s = (case read_heartbeat E T agent s of
     (Inr (Some hb), s1) \<Rightarrow> heartbeats E rest (acc @ [hb]) s1
   | (Inr None, s1) \<Rightarrow> heartbeats E rest acc s1
   | (Inl e, s1) \<Rightarrow> (Tool_error (''failed to read '' @ agent @ '': '' @ error_alternate e), s1))"

definition tool_list_agents :: "'s env \<Rightarrow> controller \<Rightarrow> 's \<Rightarrow> tool_result \<times> 's" where
  "tool_list_agents E C = heartbeats E (ct_transports C) []"

text \<open>\<open>.ok().flatten()\<close>.\<close>

definition ok_flatten :: "'a option res \<Rightarrow> 'a option" where
  "ok_flatten r = (case r of Inl _ \<Rightarrow> None | Inr v \<Rightarrow> v)"

definition status_row :: "string \<Rightarrow> heartbeat option \<Rightarrow> update_manifest option \<Rightarrow> json_value" where
  "status_row agent hb m = J_object
     [(''agent_id'', J_string agent), (''online'', J_bool (hb \<noteq> None)),
      (''running_version'', json_opt (\<lambda>h. J_string (hb_agent_version h)) hb),
      (''platform'', json_opt (\<lambda>h. J_string (hb_os h)) hb),
      (''jobs_running'', json_opt (\<lambda>h. J_int (uint (hb_jobs_running h))) hb),
      (''published'', json_opt (\<lambda>u. J_object [(''version'', J_string (um_version u)), (''target'', J_string (um_target u)),
         (''sha256'', J_string (um_sha256 u)), (''published_at'', J_int (um_published_at u))]) m),
      (''installed'', case (m, hb) of (Some u, Some h) \<Rightarrow> J_bool (hb_agent_version h = um_version u) | _ \<Rightarrow> J_null)]"

fun status_rows :: "'s env \<Rightarrow> fleet \<Rightarrow> (string \<times> json_value) list \<Rightarrow> 's \<Rightarrow> (string \<times> json_value) list \<times> 's" where
  "status_rows E [] acc s = (acc, s)"
| "status_rows E ((agent, T) # rest) acc s =
     (case read_heartbeat E T agent s of (hb, s1) \<Rightarrow>
      case read_update_manifest E T agent s1 of
        (Inl e, s2) \<Rightarrow> status_rows E rest
          (acc @ [(agent, J_object [(''agent_id'', J_string agent), (''error'', J_string (error_alternate e))])]) s2
      | (Inr m, s2) \<Rightarrow> status_rows E rest (acc @ [(agent, status_row agent (ok_flatten hb) m)]) s2)"

definition tool_update_status :: "'s env \<Rightarrow> controller \<Rightarrow> 's \<Rightarrow> tool_result \<times> 's" where
  "tool_update_status E C s = (case status_rows E (ct_transports C) [] s of (rows, s') \<Rightarrow>
     (Tool_value (J_list (map snd (sort_key fst rows))), s'))"

section \<open>The shared area\<close>

definition share_expiry :: "int \<Rightarrow> u64 \<Rightarrow> int" where
  "share_expiry now days = (if days = 0 then 0 else sat_add_i64 now (u64_as_i64 (sat_mul_u64 days 86400)))"

definition tool_share_put :: "'s env \<Rightarrow> 's sqlite \<Rightarrow> controller \<Rightarrow> string \<Rightarrow> string \<Rightarrow> string \<Rightarrow> u64 option
    \<Rightarrow> 's \<Rightarrow> (tool_result \<times> 's) option" where
  "tool_share_put E S C agent_id remote_path name expire_days s = (case share_key E S s of
     (Inl e, s1) \<Rightarrow> Some (Tool_error (''no share key: '' @ error_alternate e), s1)
   | (Inr key, s1) \<Rightarrow>
       let days = (case expire_days of None \<Rightarrow> ct_share_retention_days C | Some d \<Rightarrow> d) in
       (case (if days = 0 then (0, s1) else (case clock_unix E s1 of (now, s2) \<Rightarrow> (share_expiry now days, s2))) of
          (expires_at, s2) \<Rightarrow> run_tool E C agent_id (SharePut name remote_path key expires_at) (ct_max_transfer_secs C) s2))"

definition tool_share_get :: "'s env \<Rightarrow> 's sqlite \<Rightarrow> controller \<Rightarrow> string \<Rightarrow> string \<Rightarrow> string
    \<Rightarrow> 's \<Rightarrow> (tool_result \<times> 's) option" where
  "tool_share_get E S C agent_id name remote_path s = (case share_key E S s of
     (Inl e, s1) \<Rightarrow> Some (Tool_error (''no share key: '' @ error_alternate e), s1)
   | (Inr key, s1) \<Rightarrow> run_tool E C agent_id (ShareGet name remote_path key) (ct_max_transfer_secs C) s1)"

definition share_entry :: "share_manifest \<Rightarrow> json_value" where
  "share_entry m = J_object
     [(''name'', J_string (sm_name m)), (''bytes'', J_int (uint (sm_total_bytes m))), (''sha256'', J_string (sm_sha256 m)),
      (''published_by'', J_string (sm_source_agent m)), (''created_at'', J_int (sm_created_at m)),
      (''expires_at'', if sm_expires_at m > 0 then J_int (sm_expires_at m) else J_string ''never'')]"

fun share_entries :: "'s env \<Rightarrow> transport \<Rightarrow> crypto \<Rightarrow> string list \<Rightarrow> json_value list \<Rightarrow> 's \<Rightarrow> json_value list \<times> 's" where
  "share_entries E T cr [] acc s = (acc, s)"
| "share_entries E T cr (name # names) acc s = (case read_share_manifest E T name cr s of
     (Inr (Some m), s1) \<Rightarrow> share_entries E T cr names (acc @ [share_entry m]) s1
   | (Inr None, s1) \<Rightarrow> share_entries E T cr names acc s1
   | (Inl e, s1) \<Rightarrow> share_entries E T cr names
       (acc @ [J_object [(''name'', J_string name), (''error'', J_string (error_alternate e))]]) s1)"

definition tool_share_list :: "'s env \<Rightarrow> 's sqlite \<Rightarrow> controller \<Rightarrow> 's \<Rightarrow> tool_result \<times> 's" where
  "tool_share_list E S C s = (case share_key E S s of (k, s1) \<Rightarrow>
     (case (ct_transports C, k) of
        ((_, T) # _, Inr key) \<Rightarrow> (case from_base64 E key ''share'' of
            Inl e \<Rightarrow> (Tool_error (''share key unusable: '' @ error_alternate e), s1)
          | Inr cr \<Rightarrow> (case list_shares E T s1 of
              (Inl e, s2) \<Rightarrow> (Tool_error (''list failed: '' @ error_alternate e), s2)
            | (Inr names, s2) \<Rightarrow> (case share_entries E T cr names [] s2 of (entries, s3) \<Rightarrow>
                (Tool_value (J_list entries), s3))))
      | _ \<Rightarrow> (Tool_error ''no agents enrolled'', s1)))"

definition tool_share_remove :: "'s env \<Rightarrow> controller \<Rightarrow> string \<Rightarrow> 's \<Rightarrow> tool_result \<times> 's" where
  "tool_share_remove E C name s = (case ct_transports C of
     [] \<Rightarrow> (Tool_error ''no agents enrolled'', s)
   | (_, T) # _ \<Rightarrow> (case delete_share E T name s of
       (Inr _, s1) \<Rightarrow> (Tool_value (J_object [(''removed'', J_string name)]), s1)
     | (Inl e, s1) \<Rightarrow> (Tool_error (''remove failed: '' @ error_alternate e), s1)))"

section \<open>Executable headers\<close>

fun le_nat :: "bytes \<Rightarrow> nat" where
  "le_nat [] = 0"
| "le_nat (b # bs) = unat b + 256 * le_nat bs"

definition target_from_header :: "bytes \<Rightarrow> string option" where
  "target_from_header head =
     (if 20 \<le> length head \<and> take 4 head = [0x7f, 0x45, 0x4c, 0x46] then
        (let machine = le_nat [head ! 18, head ! 19] in
         if machine = 62 then Some ''linux x86_64'' else if machine = 183 then Some ''linux aarch64''
         else if machine = 243 then Some ''linux riscv64'' else None)
      else if 8 \<le> length head \<and> le_nat [head ! 0, head ! 1, head ! 2, head ! 3] = 0xfeedfacf then
        (let cputype = le_nat [head ! 4, head ! 5, head ! 6, head ! 7] in
         if cputype = 0x0100000c then Some ''macos aarch64'' else if cputype = 0x01000007 then Some ''macos x86_64'' else None)
      else if 0x40 \<le> length head \<and> take 2 head = [0x4d, 0x5a] then
        (let offset = le_nat [head ! 0x3c, head ! 0x3d, head ! 0x3e, head ! 0x3f] in
         if offset + 6 \<le> length head \<and> take 4 (drop offset head) = [0x50, 0x45, 0, 0] then
           (let machine = le_nat [head ! (offset + 4), head ! (offset + 5)] in
            if machine = 0x8664 then Some ''windows x86_64'' else if machine = 0xaa64 then Some ''windows aarch64'' else None)
         else None)
      else None)"

definition detect_target :: "'s host \<Rightarrow> path \<Rightarrow> ('s, string option) io" where
  "detect_target H p =
     io_then (io_context (''open '' @ display p) (file_open H p)) (\<lambda>h.
     io_then (io_context ''read executable header'' (file_read H h 1024)) (\<lambda>head.
     io_ok (target_from_header head)))"

section \<open>Publishing a build\<close>

definition MAX_UPDATE_BYTES :: u64 where "MAX_UPDATE_BYTES = 512 * 1024 * 1024"

text \<open>
  What publishing uses of the machine: whether a path is a file and its length, the version of
  this build, the configured number of uploads in flight, curl, the JSON parser and the
  directory for downloads.
\<close>

record 's workshop =
  ws_metadata :: "path \<Rightarrow> ('s, bool \<times> u64) io"
  ws_version :: string
  ws_concurrency :: nat
  ws_curl :: "string list \<Rightarrow> ('s, bool \<times> bytes \<times> bytes) io"
  ws_json :: "bytes \<Rightarrow> json res"
  ws_staging_dir :: path

definition validate_all :: "controller \<Rightarrow> string list \<Rightarrow> unit res" where
  "validate_all C ids = fold (\<lambda>a r. res_then r (\<lambda>_. validate_agent C a)) ids (Inr ())"

definition targets :: "controller \<Rightarrow> string list option \<Rightarrow> string list res" where
  "targets C requested =
     res_then (case requested of None \<Rightarrow> Inr (ct_allowed_agents C)
       | Some ids \<Rightarrow> res_then (validate_all C ids) (\<lambda>_. Inr ids)) (\<lambda>ids.
     let ids = remdups_adj (sort ids) in
     res_then (ensure (ids \<noteq> []) ''no agents selected'') (\<lambda>_. Inr ids))"

definition offer_row :: "string \<Rightarrow> string \<Rightarrow> heartbeat option \<Rightarrow> unit res \<Rightarrow> json_value" where
  "offer_row target agent hb outcome = J_object
     [(''agent_id'', J_string agent), (''published'', J_bool (is_ok outcome)),
      (''error'', case outcome of Inl e \<Rightarrow> J_string (error_alternate e) | Inr _ \<Rightarrow> J_null),
      (''online'', J_bool (hb \<noteq> None)),
      (''running_version'', json_opt (\<lambda>h. J_string (hb_agent_version h)) hb),
      (''platform_matches'', json_opt (\<lambda>h. J_bool (hb_os h = target)) hb)]"

fun offer_all :: "'s env \<Rightarrow> controller \<Rightarrow> update_manifest \<Rightarrow> string list \<Rightarrow> json_value list \<Rightarrow> nat \<Rightarrow> ('s, json_value list \<times> nat) io" where
  "offer_all E C m [] rows delivered = io_ok (rows, delivered)"
| "offer_all E C m (agent # rest) rows delivered =
     io_then (io_lift (transport_for C agent)) (\<lambda>T.
     io_then (io_attempt (read_heartbeat E T agent)) (\<lambda>hb.
     io_then (io_attempt (put_update_manifest E T (m\<lparr>um_agent_id := agent\<rparr>))) (\<lambda>outcome.
     offer_all E C m rest (rows @ [offer_row (um_target m) agent (ok_flatten hb) outcome])
       (if is_ok outcome then Suc delivered else delivered))))"

text \<open>
  \<open>publish\<close> in three parts: what is settled before the upload (the target, the agents, the identifier
  of the release, its key twice and the transport that carries the chunks), the upload, and the offers.
\<close>

definition prepare_release :: "'s env \<Rightarrow> 's host \<Rightarrow> 's workshop \<Rightarrow> controller \<Rightarrow> path \<Rightarrow> string list option \<Rightarrow> string option
    \<Rightarrow> ('s, string \<times> string list \<times> string \<times> string \<times> crypto \<times> transport) io" where
  "prepare_release E H W C source requested target =
     io_then (io_context (''read '' @ display source) (ws_metadata W source)) (\<lambda>(is_file, len).
     io_then (io_lift (ensure is_file (display source @ '' is not a file''))) (\<lambda>_.
     io_then (io_lift (ensure (len \<noteq> 0) (display source @ '' is empty''))) (\<lambda>_.
     io_then (io_lift (ensure (\<not> len > MAX_UPDATE_BYTES) (display source @ '' is '' @ dec (unat len)
       @ '' bytes, over the '' @ dec (unat MAX_UPDATE_BYTES) @ '' byte ceiling for an update''))) (\<lambda>_.
     io_then (case target of Some t \<Rightarrow> io_ok t
       | None \<Rightarrow> io_then (detect_target H source) (\<lambda>t. io_lift (ok_or (''could not read a platform from '' @ display source
           @ ''; pass target explicitly, e.g. '' @ quoted ''linux x86_64'') t))) (\<lambda>target.
     io_then (io_lift (targets C requested)) (\<lambda>ids.
     io_then (new_transfer_id E) (\<lambda>release.
     io_then (new_release_key E) (\<lambda>release_key.
     io_then (io_lift (from_base64 E release_key ''release'')) (\<lambda>cr.
     io_then (io_lift (ok_or ''no agents enrolled'' (case ct_transports C of [] \<Rightarrow> None | (_, T) # _ \<Rightarrow> Some T))) (\<lambda>staging.
     io_ok (target, ids, release, release_key, cr, staging)))))))))))"

definition offer_release :: "'s env \<Rightarrow> 's sqlite \<Rightarrow> controller \<Rightarrow> transport \<Rightarrow> string list \<Rightarrow> update_manifest \<Rightarrow> ('s, json_value) io" where
  "offer_release E S C staging ids m =
     io_then (offer_all E C m ids [] 0) (\<lambda>(rows, delivered).
     if delivered = 0 then
       io_then (io_ignore (delete_release E staging (um_release m))) (\<lambda>_.
       io_lift (bail ''no agent could be given the update; the release was removed''))
     else
       io_then (record_rollout S \<lparr>ro_release = um_release m, ro_version = um_version m, ro_target = um_target m,
         ro_sha256 = um_sha256 m, ro_published_at = um_published_at m\<rparr>) (\<lambda>_.
       io_ok (J_object [(''release'', J_string (um_release m)), (''version'', J_string (um_version m)),
         (''target'', J_string (um_target m)), (''sha256'', J_string (um_sha256 m)),
         (''bytes'', J_int (uint (um_total_bytes m))), (''chunks'', J_int (uint (um_chunks m))),
         (''published_at'', J_int (um_published_at m)), (''agents'', J_list rows)])))"

definition publish :: "'s env \<Rightarrow> 's host \<Rightarrow> 's sqlite \<Rightarrow> 's workshop \<Rightarrow> controller \<Rightarrow> string \<Rightarrow> string list option
    \<Rightarrow> string option \<Rightarrow> string option \<Rightarrow> ('s, json_value) io" where
  "publish E H S W C local_path requested target version =
     (let source = PathBuf local_path; version = (case version of None \<Rightarrow> ws_version W | Some v \<Rightarrow> v) in
      io_then (prepare_release E H W C source requested target) (\<lambda>(target, ids, release, release_key, cr, staging).
      io_then (io_attempt (stage_release E H (ws_concurrency W) staging release cr source)) (\<lambda>staged.
      case staged of
        Inl e \<Rightarrow> io_then (io_ignore (delete_release E staging release)) (\<lambda>_. io_lift (Inl e))
      | Inr (chunks, total_bytes, sha) \<Rightarrow>
          io_then (now_unix E) (\<lambda>published_at.
          offer_release E S C staging ids \<lparr>um_agent_id = [], um_version = version, um_target = target, um_release = release,
            um_chunks = chunks, um_total_bytes = total_bytes, um_sha256 = sha, um_release_key_b64 = release_key,
            um_published_at = published_at\<rparr>))))"

definition tool_publish_update :: "'s env \<Rightarrow> 's host \<Rightarrow> 's sqlite \<Rightarrow> 's workshop \<Rightarrow> controller \<Rightarrow> string \<Rightarrow> string list option
    \<Rightarrow> string option \<Rightarrow> string option \<Rightarrow> 's \<Rightarrow> tool_result \<times> 's" where
  "tool_publish_update E H S W C local_path requested target version s =
     (case publish E H S W C local_path requested target version s of
        (Inr v, s') \<Rightarrow> (Tool_value v, s')
      | (Inl e, s') \<Rightarrow> (Tool_error (''publish failed: '' @ error_alternate e), s'))"

section \<open>Retracting\<close>

text \<open>The releases to delete are a set: one is noted once.\<close>

fun retract_from :: "'s env \<Rightarrow> controller \<Rightarrow> bool \<Rightarrow> string list \<Rightarrow> string list \<Rightarrow> string list \<Rightarrow> 's
    \<Rightarrow> (string, string list \<times> string list) sum \<times> 's" where
  "retract_from E C deleting [] releases retracted s = (Inr (releases, retracted), s)"
| "retract_from E C deleting (agent # rest) releases retracted s = (case transport_for C agent of
     Inl _ \<Rightarrow> retract_from E C deleting rest releases retracted s
   | Inr T \<Rightarrow>
       (case (if deleting then (case read_update_manifest E T agent s of
                (Inr (Some m), s1) \<Rightarrow> ((if um_release m \<in> set releases then releases else releases @ [um_release m]), s1)
              | (_, s1) \<Rightarrow> (releases, s1)) else (releases, s)) of (releases', s1) \<Rightarrow>
        (case delete_update_manifest E T agent s1 of
           (Inr _, s2) \<Rightarrow> retract_from E C deleting rest releases' (retracted @ [agent]) s2
         | (Inl e, s2) \<Rightarrow> (Inl (''could not retract '' @ agent @ '': '' @ error_alternate e), s2))))"

fun delete_releases :: "'s env \<Rightarrow> controller \<Rightarrow> string list \<Rightarrow> string list \<Rightarrow> 's \<Rightarrow> (string, string list) sum \<times> 's" where
  "delete_releases E C [] deleted s = (Inr deleted, s)"
| "delete_releases E C (release # rest) deleted s = (case ct_transports C of
     [] \<Rightarrow> delete_releases E C rest deleted s
   | (_, T) # _ \<Rightarrow> (case delete_release E T release s of
       (Inr _, s1) \<Rightarrow> delete_releases E C rest (deleted @ [release]) s1
     | (Inl e, s1) \<Rightarrow> (Inl (''could not delete release: '' @ error_alternate e), s1)))"

definition tool_retract_update :: "'s env \<Rightarrow> controller \<Rightarrow> string list option \<Rightarrow> bool \<Rightarrow> 's \<Rightarrow> tool_result \<times> 's" where
  "tool_retract_update E C requested deleting s = (case targets C requested of
     Inl e \<Rightarrow> (Tool_error (error_alternate e), s)
   | Inr ids \<Rightarrow> (case retract_from E C deleting ids [] [] s of
       (Inl msg, s1) \<Rightarrow> (Tool_error msg, s1)
     | (Inr (releases, retracted), s1) \<Rightarrow> (case delete_releases E C releases [] s1 of
         (Inl msg, s2) \<Rightarrow> (Tool_error msg, s2)
       | (Inr deleted, s2) \<Rightarrow> (Tool_value (J_object [(''retracted'', J_list (map J_string retracted)),
           (''releases_deleted'', J_list (map J_string deleted))]), s2))))"

section \<open>Following a repository\<close>

fun add_target :: "string \<Rightarrow> string \<Rightarrow> (string \<times> string list) list \<Rightarrow> (string \<times> string list) list" where
  "add_target platform agent [] = [(platform, [agent])]"
| "add_target platform agent ((p, ids) # rest) =
     (if p = platform then (p, ids @ [agent]) # rest else (p, ids) # add_target platform agent rest)"

definition by_target :: "controller \<Rightarrow> seen_agent list \<Rightarrow> (string \<times> string list) list" where
  "by_target C seen = fold (\<lambda>a acc. if sa_id a \<notin> set (ct_allowed_agents C) then acc
     else (case sa_platform a of None \<Rightarrow> acc | Some platform \<Rightarrow> add_target platform (sa_id a) acc)) seen []"

definition publish_asset :: "'s env \<Rightarrow> 's host \<Rightarrow> 's sqlite \<Rightarrow> 's workshop \<Rightarrow> controller \<Rightarrow> string \<Rightarrow> string \<Rightarrow> string list
    \<Rightarrow> asset \<Rightarrow> ('s, unit) io" where
  "publish_asset E H S W C tag target ids found =
     io_then (io_context (''create '' @ display (ws_staging_dir W)) (create_dir_all H (ws_staging_dir W))) (\<lambda>_.
     let downloaded = path_join (ws_staging_dir W) (asset_name target) in
     io_then (download_asset (ws_curl W) found downloaded) (\<lambda>_.
     io_then (detect_target H downloaded) (\<lambda>actual.
     if actual \<noteq> Some (platform_of target) then io_ignore (remove_file H downloaded)
     else
       io_then (io_attempt (publish E H S W C (display downloaded) (Some ids) (Some target) (Some tag))) (\<lambda>published.
       io_then (io_ignore (remove_file H downloaded)) (\<lambda>_.
       io_then (io_lift published) (\<lambda>_. io_ok ()))))))"

fun publish_targets :: "'s env \<Rightarrow> 's host \<Rightarrow> 's sqlite \<Rightarrow> 's workshop \<Rightarrow> controller \<Rightarrow> latest_release
    \<Rightarrow> (string \<times> string list) list \<Rightarrow> ('s, unit) io" where
  "publish_targets E H S W C release [] = io_ok ()"
| "publish_targets E H S W C release ((target, ids) # rest) =
     io_then (already_published S (lr_tag release) target) (\<lambda>known.
     if known then publish_targets E H S W C release rest
     else (case List.find (\<lambda>a. as_name a = asset_name target) (lr_assets release) of
         None \<Rightarrow> publish_targets E H S W C release rest
       | Some found \<Rightarrow> io_then (publish_asset E H S W C (lr_tag release) target ids found) (\<lambda>_.
           publish_targets E H S W C release rest)))"

definition check_for_release :: "'s env \<Rightarrow> 's host \<Rightarrow> 's sqlite \<Rightarrow> 's workshop \<Rightarrow> controller \<Rightarrow> string \<Rightarrow> u64 \<Rightarrow> ('s, unit) io" where
  "check_for_release E H S W C repo seen_window_secs =
     io_then (latest_release_of (ws_curl W) (ws_json W) repo) (\<lambda>release.
     io_then (now_unix E) (\<lambda>now.
     io_then (seen_since S (sat_sub_i64 now (u64_as_i64 seen_window_secs))) (\<lambda>seen.
     publish_targets E H S W C release (by_target C seen))))"

section \<open>Cleaning\<close>

text \<open>One turn of the cleaning loop; what fails is logged and the turn goes on.\<close>

definition cleanup_turn :: "'s env \<Rightarrow> 's sqlite \<Rightarrow> controller \<Rightarrow> sweep_policy \<Rightarrow> 's \<Rightarrow> 's option" where
  "cleanup_turn E S C policy s =
     (case sweep E S (ct_transports C) policy s of (_, s1) \<Rightarrow>
      case share_key E S s1 of (k, s2) \<Rightarrow>
      (case (ct_transports C, res_then k (\<lambda>key. from_base64 E key ''share'')) of
         ((_, T) # _, Inr cr) \<Rightarrow> map_option snd (sweep_shares E T cr s2)
       | _ \<Rightarrow> Some s2))"

end
