(* ===== verification/Policy.thy ===== *)
theory Policy
  imports Config Host
begin

text \<open>
  crates/agent/src/executor.rs, the policy: which paths and programs a command may touch, and
  the limits it runs under. Settings come through \<open>setting\<close> (the look-up of config.rs applied to
  the process's environment and file) and \<open>getenv\<close> (the environment alone).
\<close>

section \<open>The policy and how it is read\<close>

record policy =
  po_allowed_roots :: "path list"
  po_allowed_programs :: "path list"
  po_child_env :: "(string \<times> string) list"
  po_max_job_secs :: u64
  po_max_timeout_secs :: u64
  po_max_file_bytes :: nat
  po_max_output_bytes :: nat
  po_max_blob_bytes :: u64
  po_allow_any_path :: bool
  po_allow_any_program :: bool

definition is_secret_env_name :: "string \<Rightarrow> bool" where
  "is_secret_env_name name = (let upper = to_ascii_uppercase name in
     starts_with upper ''S3_'' \<or> starts_with upper ''RELAY_'' \<or> contains_str upper ''SECRET''
     \<or> contains_str upper ''TOKEN'' \<or> contains_str upper ''PASSWORD'' \<or> contains_str upper ''CREDENTIAL''
     \<or> ends_with upper ''_KEY'')"

definition flag_env :: "(string \<Rightarrow> string option) \<Rightarrow> string \<Rightarrow> bool" where
  "flag_env setting name = (case setting name of None \<Rightarrow> False
     | Some v \<Rightarrow> to_ascii_lowercase v \<in> {''1'', ''true'', ''yes''})"

text \<open>\<open>parse\<close>'s own message comes from the standard library; \<open>invalid\<close> stands for it.\<close>

definition number_env :: "(string \<Rightarrow> string option) \<Rightarrow> string \<Rightarrow> string \<Rightarrow> nat \<Rightarrow> nat res" where
  "number_env setting invalid name fallback = (case setting name of None \<Rightarrow> Inr fallback
     | Some v \<Rightarrow> with_context (''parse '' @ name) (ok_or invalid (parse_unsigned (2 ^ 64) v)))"

definition comma_list :: "string \<Rightarrow> string list" where
  "comma_list v = filter (\<lambda>x. x \<noteq> []) (map trim (split_on (CHR '','') v))"

definition split_paths :: "string \<Rightarrow> path list" where
  "split_paths v = map PathBuf (filter (\<lambda>x. x \<noteq> []) (split_on (CHR '':'') v))"

fun canonical_all :: "'s host \<Rightarrow> string \<Rightarrow> path list \<Rightarrow> ('s, path list) io" where
  "canonical_all H what [] = io_ok []"
| "canonical_all H what (p # ps) =
     io_then (io_context (what @ display p) (canonicalize H p)) (\<lambda>c.
     io_then (canonical_all H what ps) (\<lambda>cs. io_ok (c # cs)))"

fun allowed_program_list :: "'s host \<Rightarrow> string list \<Rightarrow> ('s, path list) io" where
  "allowed_program_list H [] = io_ok []"
| "allowed_program_list H (v # vs) =
     (let p = PathBuf v in
      io_then (io_lift (ensure (is_absolute p)
        (''every AGENT_ALLOWED_PROGRAMS entry must be an absolute path: '' @ v))) (\<lambda>_.
      io_then (io_context (''canonicalize allowed program '' @ display p) (canonicalize H p)) (\<lambda>c.
      io_then (allowed_program_list H vs) (\<lambda>cs. io_ok (c # cs)))))"

fun child_environment :: "(string \<Rightarrow> string option) \<Rightarrow> string list \<Rightarrow> (string \<times> string) list res" where
  "child_environment getenv [] = Inr []"
| "child_environment getenv (n # ns) =
     res_then (ensure (\<not> is_secret_env_name n) (''AGENT_CHILD_ENV_ALLOWLIST may not include secret variable '' @ n)) (\<lambda>_.
     res_then (child_environment getenv ns) (\<lambda>rest.
     Inr (case getenv n of None \<Rightarrow> rest | Some v \<Rightarrow> (n, v) # rest)))"

definition bounded :: "nat \<Rightarrow> nat \<Rightarrow> string \<Rightarrow> unit res" where
  "bounded n hi name = ensure (1 \<le> n \<and> n \<le> hi) (name @ '' must be in 1..='' @ dec hi)"

definition or_default :: "string \<Rightarrow> string option \<Rightarrow> string" where
  "or_default d v = (case v of None \<Rightarrow> d | Some x \<Rightarrow> x)"

definition DEFAULT_CHILD_ENV :: string where
  "DEFAULT_CHILD_ENV = ''LANG,LC_ALL,TZ,SYSTEMROOT,WINDIR,TEMP,TMP''"

definition policy_from_env :: "'s host \<Rightarrow> string \<Rightarrow> (string \<Rightarrow> string option) \<Rightarrow> (string \<Rightarrow> string option) \<Rightarrow> ('s, policy) io" where
  "policy_from_env H invalid setting getenv =
     (let number = number_env setting invalid in
      io_then (canonical_all H ''canonicalize allowed root ''
        (case setting ''AGENT_ALLOWED_ROOTS'' of None \<Rightarrow> [] | Some v \<Rightarrow> split_paths v)) (\<lambda>roots.
      io_then (allowed_program_list H (comma_list (or_default [] (setting ''AGENT_ALLOWED_PROGRAMS'')))) (\<lambda>programs.
      io_lift (
      res_then (child_environment getenv (comma_list (or_default DEFAULT_CHILD_ENV
        (setting ''AGENT_CHILD_ENV_ALLOWLIST'')))) (\<lambda>child_env.
      res_then (number ''AGENT_MAX_TIMEOUT_SECS'' 300) (\<lambda>timeout.
      res_then (number ''AGENT_MAX_FILE_BYTES'' 1048576) (\<lambda>file_bytes.
      res_then (number ''AGENT_MAX_OUTPUT_BYTES'' 1048576) (\<lambda>output_bytes.
      res_then (bounded timeout 3600 ''AGENT_MAX_TIMEOUT_SECS'') (\<lambda>_.
      res_then (bounded file_bytes 1048576 ''AGENT_MAX_FILE_BYTES'') (\<lambda>_.
      res_then (bounded output_bytes 1048576 ''AGENT_MAX_OUTPUT_BYTES'') (\<lambda>_.
      res_then (number ''AGENT_MAX_BLOB_BYTES'' 1073741824) (\<lambda>blob_bytes.
      res_then (bounded blob_bytes 1099511627776 ''AGENT_MAX_BLOB_BYTES'') (\<lambda>_.
      res_then (number ''AGENT_MAX_JOB_SECS'' 86400) (\<lambda>job_secs.
      res_then (bounded job_secs 2592000 ''AGENT_MAX_JOB_SECS'') (\<lambda>_.
      Inr \<lparr>po_allowed_roots = roots, po_allowed_programs = programs, po_child_env = child_env,
        po_max_job_secs = of_nat job_secs, po_max_timeout_secs = of_nat timeout,
        po_max_file_bytes = file_bytes, po_max_output_bytes = output_bytes,
        po_max_blob_bytes = of_nat blob_bytes, po_allow_any_path = flag_env setting ''AGENT_ALLOW_ANY_PATH'',
        po_allow_any_program = flag_env setting ''AGENT_ALLOW_ANY_PROGRAM''\<rparr>)))))))))))))))"

section \<open>Checking a path\<close>

definition within_roots :: "policy \<Rightarrow> path \<Rightarrow> bool" where
  "within_roots pol p \<longleftrightarrow> po_allow_any_path pol \<or> list_ex (path_starts_with p) (po_allowed_roots pol)"

definition check_canonical :: "policy \<Rightarrow> path \<Rightarrow> unit res" where
  "check_canonical pol p = ensure (within_roots pol p) ''path is outside AGENT_ALLOWED_ROOTS''"

definition check_existing_path :: "'s host \<Rightarrow> policy \<Rightarrow> string \<Rightarrow> ('s, path) io" where
  "check_existing_path H pol value =
     io_then (io_context (''canonicalize path '' @ value) (canonicalize H (PathBuf value))) (\<lambda>p.
     io_then (io_lift (check_canonical pol p)) (\<lambda>_. io_ok p))"

definition nonempty_parent :: "path \<Rightarrow> path option" where
  "nonempty_parent p = (case parent p of None \<Rightarrow> None | Some d \<Rightarrow> if is_empty_path d then None else Some d)"

definition check_write_path :: "'s host \<Rightarrow> policy \<Rightarrow> string \<Rightarrow> ('s, path) io" where
  "check_write_path H pol value s =
     (let requested = PathBuf value in
      if path_exists H requested s then check_existing_path H pol value s
      else
        io_then (io_lift (ok_or ''write path must have an existing parent directory'' (nonempty_parent requested))) (\<lambda>dir.
        io_then (io_context (''canonicalize parent '' @ display dir) (canonicalize H dir)) (\<lambda>canonical.
        io_then (io_lift (check_canonical pol canonical)) (\<lambda>_.
        io_then (io_lift (ok_or ''invalid write path'' (file_name requested))) (\<lambda>name.
        io_ok (push_name canonical name))))) s)"

text \<open>The nearest ancestor that exists, \<open>p\<close> itself included.\<close>

function existing_ancestor :: "'s host \<Rightarrow> 's \<Rightarrow> path \<Rightarrow> path option" where
  "existing_ancestor H s p =
     (if path_exists H p s then Some p
      else case nonempty_parent p of None \<Rightarrow> None | Some d \<Rightarrow> existing_ancestor H s d)"
  by pat_completeness auto
termination
  by (relation "measure (\<lambda>(H, s, p). length (components p))")
    (auto simp: nonempty_parent_def parent_def split: if_splits option.splits)

declare existing_ancestor.simps [simp del]

definition prepare_write_path :: "'s host \<Rightarrow> policy \<Rightarrow> string \<Rightarrow> ('s, path) io" where
  "prepare_write_path H pol value s =
     (let requested = PathBuf value in
      if path_exists H requested s then check_existing_path H pol value s
      else
        io_then (io_lift (ok_or ''write path must name a file inside a directory'' (nonempty_parent requested))) (\<lambda>dir.
        io_then (io_lift (ok_or (''no existing ancestor of '' @ display dir) (existing_ancestor H s dir))) (\<lambda>existing.
        io_then (io_context (''canonicalize '' @ display existing) (canonicalize H existing)) (\<lambda>anchor.
        io_then (io_lift (check_canonical pol anchor)) (\<lambda>_.
        io_then (io_context (''create directory '' @ display dir) (create_dir_all H dir)) (\<lambda>_.
        io_then (io_context (''canonicalize '' @ display dir) (canonicalize H dir)) (\<lambda>canonical.
        io_then (io_lift (check_canonical pol canonical)) (\<lambda>_.
        io_then (io_lift (ok_or ''write path must end in a file name'' (file_name requested))) (\<lambda>name.
        io_ok (push_name canonical name))))))))) s)"

definition permit_root :: "'s host \<Rightarrow> path \<Rightarrow> policy \<Rightarrow> ('s, policy) io" where
  "permit_root H root pol =
     io_then (io_context (''canonicalize '' @ display root) (canonicalize H root)) (\<lambda>canonical.
     io_ok (if canonical \<in> set (po_allowed_roots pol) then pol
       else pol\<lparr>po_allowed_roots := po_allowed_roots pol @ [canonical]\<rparr>))"

definition check_program :: "'s host \<Rightarrow> policy \<Rightarrow> string \<Rightarrow> ('s, path) io" where
  "check_program H pol program =
     io_then (io_lift (ensure (program \<noteq> []) ''program must not be empty'')) (\<lambda>_.
     let requested = PathBuf program in
     io_then (io_lift (ensure (is_absolute requested) ''program must be an absolute path'')) (\<lambda>_.
     io_then (io_context (''canonicalize program '' @ display requested) (canonicalize H requested)) (\<lambda>canonical.
     io_then (io_lift (ensure (po_allow_any_program pol \<or> canonical \<in> set (po_allowed_programs pol))
       ''program is not present in AGENT_ALLOWED_PROGRAMS'')) (\<lambda>_. io_ok canonical))))"

section \<open>Facts\<close>

named_theorems confined \<open>paths the policy has checked\<close>

lemma check_canonical_Inr [simp]: "check_canonical pol p = Inr u \<longleftrightarrow> within_roots pol p"
  by (simp add: check_canonical_def)

lemma within_roots_push: "within_roots pol p \<Longrightarrow> within_roots pol (push_name p n)"
  by (auto simp: within_roots_def list_ex_iff)

lemma check_existing_confined [confined]:
  "check_existing_path H pol v s = (Inr p, s') \<Longrightarrow> within_roots pol p"
  by (auto simp: check_existing_path_def io_then_Inr)

lemma check_write_confined [confined]:
  "check_write_path H pol v s = (Inr p, s') \<Longrightarrow> within_roots pol p"
  by (auto simp: check_write_path_def Let_def io_then_Inr confined within_roots_push split: if_splits)

lemma prepare_write_confined [confined]:
  "prepare_write_path H pol v s = (Inr p, s') \<Longrightarrow> within_roots pol p"
  by (auto simp: prepare_write_path_def Let_def io_then_Inr confined within_roots_push split: if_splits)

lemma check_program_confined [confined]:
  "check_program H pol v s = (Inr p, s') \<Longrightarrow> po_allow_any_program pol \<or> p \<in> set (po_allowed_programs pol)"
  by (auto simp: check_program_def io_then_Inr Let_def)

lemma canonicalize_leaves:
  assumes "\<And>p. leaves f (canonicalize H p)"
  shows "leaves f (check_existing_path H pol v)" "leaves f (check_program H pol v)"
  unfolding check_existing_path_def check_program_def Let_def
  by (intro leaves_intros assms)+

lemma leaves_at: "(\<And>s. \<exists>m. g s = m s \<and> leaves f m) \<Longrightarrow> leaves f g"
  by (metis leaves_def)

lemma write_path_leaves:
  assumes "\<And>p. leaves f (canonicalize H p)" and "\<And>p. leaves f (create_dir_all H p)"
  shows "leaves f (check_write_path H pol v)" "leaves f (prepare_write_path H pol v)"
proof -
  show "leaves f (check_write_path H pol v)"
  proof (rule leaves_at)
    fix s
    show "\<exists>m. check_write_path H pol v s = m s \<and> leaves f m"
      unfolding check_write_path_def Let_def
      by (cases "path_exists H (PathBuf v) s"; simp only: if_True if_False)
        ((rule exI, rule conjI, rule refl), intro leaves_intros canonicalize_leaves assms)+
  qed
  show "leaves f (prepare_write_path H pol v)"
  proof (rule leaves_at)
    fix s
    show "\<exists>m. prepare_write_path H pol v s = m s \<and> leaves f m"
      unfolding prepare_write_path_def Let_def
      by (cases "path_exists H (PathBuf v) s"; simp only: if_True if_False)
        ((rule exI, rule conjI, rule refl), intro leaves_intros canonicalize_leaves assms)+
  qed
qed

text \<open>What a policy read from settings guarantees.\<close>

lemma child_environment_public:
  "child_environment getenv ns = Inr env \<Longrightarrow> (n, v) \<in> set env \<Longrightarrow>
   n \<in> set ns \<and> \<not> is_secret_env_name n \<and> getenv n = Some v"
  by (induction ns arbitrary: env) (auto simp: res_then_Inr_iff split: option.splits)

lemma bounded_Inr [simp]: "bounded n hi name = Inr u \<longleftrightarrow> 1 \<le> n \<and> n \<le> hi"
  by (simp add: bounded_def)

end
