(* ===== verification/Executor.thy ===== *)
theory Executor
  imports Policy Jobs Transfers
begin

text \<open>
  crates/agent/src/executor.rs, the execution of commands: one definition per handler, and
  \<open>run\<close>, the dispatch. A handler yields the payload of its response; \<open>run\<close> wraps it. The job
  table is threaded through because three commands work on it. What the operating system does
  beyond files (processes, directory listings, the host's name) are fields of \<open>node\<close>.
\<close>

section \<open>Reading within a limit\<close>

definition bounded_step :: "nat \<Rightarrow> bytes \<times> bool \<Rightarrow> bytes \<Rightarrow> bytes \<times> bool" where
  "bounded_step limit acc chunk = (case acc of (kept, truncated) \<Rightarrow>
     let remaining = limit - length kept; n = min remaining (length chunk) in
     (kept @ take n chunk, truncated \<or> n < length chunk))"

text \<open>
  The loop goes on to the end of the stream even when the limit is reached; on a stream that
  never ends it does not return.
\<close>

partial_function (option) read_bounded :: "('s, bytes) io \<Rightarrow> nat \<Rightarrow> bytes \<times> bool \<Rightarrow> 's \<Rightarrow> ((bytes \<times> bool) res \<times> 's) option" where
  "read_bounded rd limit acc s = (case rd s of
     (Inl e, s') \<Rightarrow> Some (Inl e, s')
   | (Inr chunk, s') \<Rightarrow> if chunk = [] then Some (Inr acc, s')
       else read_bounded rd limit (bounded_step limit acc chunk) s')"

section \<open>The node\<close>

text \<open>
  A program that was run to its end or killed at the deadline: what each of its streams carried,
  as the reads delivered it, and its exit code; \<open>None\<close> where it was killed.
\<close>

record process_run =
  run_stdout :: "bytes list res"
  run_stderr :: "bytes list res"
  run_exit :: "int option option"

record 's node =
  nd_hostname :: string
  nd_os :: string
  nd_version :: string
  nd_jobs_dir :: path
  nd_upload_concurrency :: nat
  nd_exec :: "path \<Rightarrow> string list \<Rightarrow> path option \<Rightarrow> (string \<times> string) list \<Rightarrow> bytes option \<Rightarrow> nat
    \<Rightarrow> ('s, process_run) io"
  nd_spawn :: "'s spawner"
  nd_read_dir :: "path \<Rightarrow> ('s, dir_entry list) io"
  nd_job_read :: "path \<Rightarrow> ('s, bytes option) io"

section \<open>Processes and jobs\<close>

text \<open>\<open>cwd.map(|value| policy.check_existing_path(value)).transpose()\<close>.\<close>

definition check_cwd :: "'s host \<Rightarrow> policy \<Rightarrow> string option \<Rightarrow> ('s, path option) io" where
  "check_cwd H pol cwd = (case cwd of None \<Rightarrow> io_ok None
     | Some v \<Rightarrow> io_then (check_existing_path H pol v) (\<lambda>p. io_ok (Some p)))"

definition decode_stdin :: "'z libs_scheme \<Rightarrow> string option \<Rightarrow> bytes option res" where
  "decode_stdin E stdin_b64 = (case stdin_b64 of None \<Rightarrow> Inr None
     | Some v \<Rightarrow> res_then (with_context ''decode stdin base64'' (b64_decode E v)) (\<lambda>b. Inr (Some b)))"

definition exec_program :: "'s env \<Rightarrow> 's host \<Rightarrow> 's node \<Rightarrow> policy \<Rightarrow> u64 \<Rightarrow> string \<Rightarrow> string list \<Rightarrow> string option
    \<Rightarrow> string option \<Rightarrow> ('s, response_payload) io" where
  "exec_program E H N pol timeout_secs program args cwd stdin_b64 =
     io_then (check_program H pol program) (\<lambda>prog.
     io_then (check_cwd H pol cwd) (\<lambda>dir.
     io_then (io_lift (decode_stdin E stdin_b64)) (\<lambda>stdin.
     io_then (io_lift (ensure (\<not> (case stdin of None \<Rightarrow> False | Some b \<Rightarrow> length b > po_max_file_bytes pol))
       ''stdin exceeds AGENT_MAX_FILE_BYTES'')) (\<lambda>_.
     let duration = max 1 (min timeout_secs (po_max_timeout_secs pol)) in
     io_then (io_context (''spawn '' @ display prog)
       (nd_exec N prog args dir (po_child_env pol) stdin (unat duration))) (\<lambda>r.
     let limit = po_max_output_bytes pol in
     io_then (io_lift (run_stdout r)) (\<lambda>out.
     io_then (io_lift (run_stderr r)) (\<lambda>err.
     let (stdout, stdout_truncated) = foldl (bounded_step limit) ([], False) out;
         (stderr, stderr_truncated) = foldl (bounded_step limit) ([], False) err in
     io_ok (ExecResult (b64_encode E stdout) (b64_encode E stderr) stdout_truncated stderr_truncated
       (case run_exit r of None \<Rightarrow> None | Some code \<Rightarrow> code) (run_exit r = None)))))))))"

definition start_job :: "'s env \<Rightarrow> 's host \<Rightarrow> 's node \<Rightarrow> policy \<Rightarrow> job_table \<Rightarrow> string \<Rightarrow> string \<Rightarrow> string list
    \<Rightarrow> string option \<Rightarrow> u64 \<Rightarrow> string option \<Rightarrow> ('s, response_payload \<times> job_table) io" where
  "start_job E H N pol table job program args cwd max_runtime_secs label =
     io_then (io_lift (with_context ''job id'' (validate_transfer_id (uuid_ok E) job))) (\<lambda>_.
     io_then (check_program H pol program) (\<lambda>prog.
     io_then (check_cwd H pol cwd) (\<lambda>dir.
     io_then (io_lift (ensure (\<not> (max_runtime_secs = 0 \<or> max_runtime_secs > po_max_job_secs pol))
       (''max_runtime_secs must be in 1..='' @ dec (unat (po_max_job_secs pol))))) (\<lambda>_.
     io_then (job_start E H (nd_spawn N) (nd_jobs_dir N) table job prog args dir (po_child_env pol) label) (\<lambda>(pid, table').
     io_ok (JobStarted job pid, table'))))))"

definition job_output :: "'s env \<Rightarrow> 's node \<Rightarrow> job_table \<Rightarrow> string \<Rightarrow> u64 option \<Rightarrow> ('s, response_payload) io" where
  "job_output E N table job tail =
     io_then (io_lift (with_context ''job id'' (validate_transfer_id (uuid_ok E) job))) (\<lambda>_.
     io_then (io_lift (ok_or (''no such job '' @ job) (job_get table job))) (\<lambda>st.
     io_then (job_tail (nd_job_read N) (stdout_path (nd_jobs_dir N) job) (map_option unat tail)) (\<lambda>(out, out_truncated).
     io_then (job_tail (nd_job_read N) (stderr_path (nd_jobs_dir N) job) (map_option unat tail)) (\<lambda>(err, err_truncated).
     io_ok (JobTail out err out_truncated err_truncated (js_stdout_path st) (js_stderr_path st))))))"

section \<open>Files and directories\<close>

definition make_dir :: "'s host \<Rightarrow> policy \<Rightarrow> string \<Rightarrow> bool \<Rightarrow> ('s, response_payload) io" where
  "make_dir H pol value parents s =
     (if path_exists H (PathBuf value) s then
        io_then (check_existing_path H pol value) (\<lambda>p s1.
          if path_is_dir H p s1 then (Inr EmptyPayload, s1)
          else (bail (value @ '' already exists and is not a directory''), s1)) s
      else
        io_then (prepare_write_path H pol value) (\<lambda>target.
        io_then (io_context (''create directory '' @ display target)
          (if parents then create_dir_all H target else create_dir H target)) (\<lambda>_. io_ok EmptyPayload)) s)"

definition remove :: "'s host \<Rightarrow> policy \<Rightarrow> string \<Rightarrow> bool \<Rightarrow> ('s, response_payload) io" where
  "remove H pol value recursive =
     io_then (check_existing_path H pol value) (\<lambda>target s.
       (if path_is_dir H target s then
          io_then (io_context (''remove directory '' @ display target)
            (if recursive then remove_dir_all H target else remove_dir H target)) (\<lambda>_. io_ok EmptyPayload) s
        else
          io_then (io_context (''remove file '' @ display target) (remove_file H target)) (\<lambda>_. io_ok EmptyPayload) s))"

definition move_path :: "'s host \<Rightarrow> policy \<Rightarrow> string \<Rightarrow> string \<Rightarrow> ('s, response_payload) io" where
  "move_path H pol from to =
     io_then (check_existing_path H pol from) (\<lambda>source.
     io_then (prepare_write_path H pol to) (\<lambda>dest.
     io_then (io_context (''move '' @ display source @ '' to '' @ display dest) (rename_path H source dest))
       (\<lambda>_. io_ok EmptyPayload)))"

definition read_file :: "'s env \<Rightarrow> 's host \<Rightarrow> policy \<Rightarrow> string \<Rightarrow> u64 option \<Rightarrow> 's \<Rightarrow> (response_payload res \<times> 's) option" where
  "read_file E H pol value requested s =
     (case io_then (check_existing_path H pol value) (\<lambda>p. io_context (''open '' @ display p) (file_open H p)) s of
        (Inl e, s1) \<Rightarrow> Some (Inl e, s1)
      | (Inr h, s1) \<Rightarrow>
          let limit = min (case requested of None \<Rightarrow> po_max_file_bytes pol | Some n \<Rightarrow> unat n) (po_max_file_bytes pol) in
          (case read_bounded (file_read H h 8192) limit ([], False) s1 of
             None \<Rightarrow> None
           | Some (Inl e, s2) \<Rightarrow> Some (Inl e, s2)
           | Some (Inr (data, truncated), s2) \<Rightarrow> Some (Inr (FileContents (b64_encode E data) truncated), s2)))"

definition write_file :: "'s env \<Rightarrow> 's host \<Rightarrow> policy \<Rightarrow> string \<Rightarrow> string \<Rightarrow> bool \<Rightarrow> ('s, response_payload) io" where
  "write_file E H pol value contents_b64 at_end =
     io_then (check_write_path H pol value) (\<lambda>p.
     io_then (io_lift (with_context ''decode file content base64'' (b64_decode E contents_b64))) (\<lambda>data.
     io_then (io_lift (ensure (\<not> length data > po_max_file_bytes pol) ''write exceeds AGENT_MAX_FILE_BYTES'')) (\<lambda>_.
     io_then (io_context (''open '' @ display p) (if at_end then file_append H p else file_create H p)) (\<lambda>h.
     io_then (io_context (''write '' @ display p) (file_write_all H h data)) (\<lambda>_.
     io_then (file_flush H h) (\<lambda>_.
     io_ok (Written (of_nat (length data)))))))))"

definition list_dir :: "'s host \<Rightarrow> 's node \<Rightarrow> policy \<Rightarrow> string \<Rightarrow> ('s, response_payload) io" where
  "list_dir H N pol value =
     io_then (check_existing_path H pol value) (\<lambda>p.
     io_then (io_context (''read directory '' @ display p) (nd_read_dir N p)) (\<lambda>entries.
     io_then (io_lift (ensure (\<not> length entries > 10000) ''directory has more than 10,000 entries'')) (\<lambda>_.
     io_ok (DirListing (sort_key de_name entries)))))"

section \<open>Transfers and the shared area\<close>

definition push_blob :: "'s env \<Rightarrow> 's host \<Rightarrow> policy \<Rightarrow> transport \<Rightarrow> string \<Rightarrow> string \<Rightarrow> string \<Rightarrow> u32 \<Rightarrow> u64 \<Rightarrow> string
    \<Rightarrow> ('s, response_payload) io" where
  "push_blob E H pol T agent transfer dest_value chunks total_bytes sha =
     io_then (io_lift (ensure (\<not> total_bytes > po_max_blob_bytes pol)
       (''transfer of '' @ dec (unat total_bytes) @ '' bytes exceeds AGENT_MAX_BLOB_BYTES''))) (\<lambda>_.
     io_then (prepare_write_path H pol dest_value) (\<lambda>dest.
     io_then (assemble_file E H T agent transfer \<lparr>mf_chunks = chunks, mf_total_bytes = total_bytes, mf_sha256 = sha\<rparr> dest) (\<lambda>n.
     io_then (io_ignore (delete_blob E T agent transfer)) (\<lambda>_.
     io_ok (BlobWritten n sha)))))"

definition pull_blob :: "'s env \<Rightarrow> 's host \<Rightarrow> 's node \<Rightarrow> policy \<Rightarrow> transport \<Rightarrow> string \<Rightarrow> string \<Rightarrow> string \<Rightarrow> u64
    \<Rightarrow> ('s, response_payload) io" where
  "pull_blob E H N pol T agent transfer value max_bytes =
     io_then (check_existing_path H pol value) (\<lambda>source.
     let limit = min max_bytes (po_max_blob_bytes pol) in
     io_then (io_context (''stat '' @ display source) (file_len H source)) (\<lambda>size.
     io_then (io_lift (ensure (\<not> size > limit)
       (''file is '' @ dec (unat size) @ '' bytes, above the '' @ dec (unat limit) @ '' byte transfer limit''))) (\<lambda>_.
     io_then (io_attempt (stage_file E H (nd_upload_concurrency N) T agent transfer source)) (\<lambda>r.
     case r of
       Inr m \<Rightarrow> io_ok (BlobStaged (mf_chunks m) (mf_total_bytes m) (mf_sha256 m))
     | Inl e \<Rightarrow> io_then (io_ignore (delete_blob E T agent transfer)) (\<lambda>_. io_lift (Inl e))))))"

definition share_put :: "'s env \<Rightarrow> 's host \<Rightarrow> 's node \<Rightarrow> policy \<Rightarrow> transport \<Rightarrow> string \<Rightarrow> string \<Rightarrow> string \<Rightarrow> string \<Rightarrow> int
    \<Rightarrow> ('s, response_payload) io" where
  "share_put E H N pol T agent name value key_b64 expires_at =
     io_then (io_lift (validate_share_name name)) (\<lambda>_.
     io_then (check_existing_path H pol value) (\<lambda>source.
     io_then (file_len H source) (\<lambda>size.
     io_then (io_lift (ensure (\<not> size > po_max_blob_bytes pol) (dec (unat size) @ '' bytes exceeds AGENT_MAX_BLOB_BYTES''))) (\<lambda>_.
     io_then (io_lift (from_base64 E key_b64 ''share'')) (\<lambda>cr.
     io_then (io_attempt (upload_chunks E H source BLOB_CHUNK_BYTES (nd_upload_concurrency N)
       (\<lambda>i d. put_share_chunk E T name i d cr))) (\<lambda>r.
     case r of
       Inl e \<Rightarrow> io_then (io_ignore (delete_share E T name)) (\<lambda>_. io_lift (Inl e))
     | Inr (chunks, total_bytes, sha) \<Rightarrow>
         io_then (now_unix E) (\<lambda>now.
         io_then (put_share_manifest E T \<lparr>sm_name = name, sm_chunks = chunks, sm_total_bytes = total_bytes,
           sm_sha256 = sha, sm_source_agent = agent, sm_created_at = now, sm_expires_at = expires_at\<rparr> cr) (\<lambda>_.
         io_ok (Shared name chunks total_bytes sha)))))))))"

definition share_texts :: copy_texts where
  "share_texts = \<lparr>ct_missing = (\<lambda>i. ''share chunk '' @ dec (unat i) @ '' is missing''),
     ct_too_many = ''share carries more bytes than its manifest declares'',
     ct_write = ''write share chunk'', ct_flush = None,
     ct_short = (\<lambda>w t. ''share assembled '' @ dec (unat w) @ '' bytes, manifest declares '' @ dec (unat t)),
     ct_hash = (\<lambda>m a. ''share hash mismatch: manifest says '' @ m @ '', assembled '' @ a)\<rparr>"

definition share_copy :: "share_manifest \<Rightarrow> manifest" where
  "share_copy m = \<lparr>mf_chunks = sm_chunks m, mf_total_bytes = sm_total_bytes m, mf_sha256 = sm_sha256 m\<rparr>"

definition assemble_share :: "'s env \<Rightarrow> 's host \<Rightarrow> transport \<Rightarrow> share_manifest \<Rightarrow> crypto \<Rightarrow> path \<Rightarrow> ('s, unit) io" where
  "assemble_share E H T m cr temp =
     io_then (verified_copy E H (\<lambda>i. get_share_chunk E T (sm_name m) i cr) share_texts (share_copy m) temp) (\<lambda>_. io_ok ())"

definition share_get :: "'s env \<Rightarrow> 's host \<Rightarrow> policy \<Rightarrow> transport \<Rightarrow> string \<Rightarrow> string \<Rightarrow> string \<Rightarrow> ('s, response_payload) io" where
  "share_get E H pol T name dest_value key_b64 =
     io_then (io_lift (validate_share_name name)) (\<lambda>_.
     io_then (io_lift (from_base64 E key_b64 ''share'')) (\<lambda>cr.
     io_then (read_share_manifest E T name cr) (\<lambda>found.
     io_then (io_lift (ok_or (''nothing named '' @ name @ '' in the shared area'') found)) (\<lambda>m.
     io_then (io_lift (ensure (\<not> sm_total_bytes m > po_max_blob_bytes pol)
       (dec (unat (sm_total_bytes m)) @ '' bytes exceeds AGENT_MAX_BLOB_BYTES''))) (\<lambda>_.
     io_then (prepare_write_path H pol dest_value) (\<lambda>dest.
     let temp = temp_sibling dest in
     io_then (io_attempt (assemble_share E H T m cr temp)) (\<lambda>r.
     case r of
       Inl e \<Rightarrow> io_then (io_ignore (remove_file H temp)) (\<lambda>_. io_lift (Inl e))
     | Inr _ \<Rightarrow> io_then (io_context (''move into '' @ display dest) (rename_path H temp dest)) (\<lambda>_.
         io_ok (Shared (sm_name m) (sm_chunks m) (sm_total_bytes m) (sm_sha256 m))))))))))"

section \<open>Dispatch\<close>

definition with_table :: "job_table \<Rightarrow> ('s, response_payload) io \<Rightarrow> ('s, response_payload \<times> job_table) io" where
  "with_table table m = io_then m (\<lambda>p. io_ok (p, table))"

definition cancel_job :: "job_table \<Rightarrow> string \<Rightarrow> ('s, response_payload \<times> job_table) io" where
  "cancel_job table job = (case job_cancel table job of (r, table') \<Rightarrow>
     io_then (io_lift r) (\<lambda>_. io_ok (EmptyPayload, table')))"

text \<open>Only reading a file may fail to return.\<close>

definition run_command :: "'s env \<Rightarrow> 's host \<Rightarrow> 's node \<Rightarrow> policy \<Rightarrow> transport \<Rightarrow> job_table \<Rightarrow> command
    \<Rightarrow> 's \<Rightarrow> ((response_payload \<times> job_table) res \<times> 's) option" where
  "run_command E H N pol T table cmd s =
     (let plain = (\<lambda>m. Some (with_table table m s)); agent = cmd_agent_id cmd in
      case cmd_kind cmd of
        Ping \<Rightarrow> plain (io_ok (Pong (nd_hostname N) (nd_os N) (nd_version N)))
      | StandDown \<Rightarrow> plain (io_ok EmptyPayload)
      | Exec program args cwd stdin_b64 \<Rightarrow>
          plain (exec_program E H N pol (cmd_timeout_secs cmd) program args cwd stdin_b64)
      | ReadFile value max_bytes \<Rightarrow> (case read_file E H pol value max_bytes s of
          None \<Rightarrow> None
        | Some (r, s') \<Rightarrow> Some (res_then r (\<lambda>p. Inr (p, table)), s'))
      | WriteFile value contents_b64 at_end \<Rightarrow> plain (write_file E H pol value contents_b64 at_end)
      | ListDir value \<Rightarrow> plain (list_dir H N pol value)
      | PushBlob transfer dest_value chunks total_bytes sha \<Rightarrow>
          plain (push_blob E H pol T agent transfer dest_value chunks total_bytes sha)
      | PullBlob transfer value max_bytes \<Rightarrow> plain (pull_blob E H N pol T agent transfer value max_bytes)
      | SharePut name value key_b64 expires_at \<Rightarrow>
          plain (share_put E H N pol T agent name value key_b64 expires_at)
      | ShareGet name dest_value key_b64 \<Rightarrow> plain (share_get E H pol T name dest_value key_b64)
      | StartJob job program args cwd max_runtime_secs label \<Rightarrow>
          Some (start_job E H N pol table job program args cwd max_runtime_secs label s)
      | ListJobs \<Rightarrow> plain (io_ok (JobList (job_list table)))
      | JobOutput job tail \<Rightarrow> plain (job_output E N table job tail)
      | CancelJob job \<Rightarrow> Some (cancel_job table job s)
      | MakeDir value parents \<Rightarrow> plain (make_dir H pol value parents)
      | Remove value recursive \<Rightarrow> plain (remove H pol value recursive)
      | Move from to \<Rightarrow> plain (move_path H pol from to))"

text \<open>Whatever happens, the command is answered.\<close>

definition execute :: "'s env \<Rightarrow> 's host \<Rightarrow> 's node \<Rightarrow> policy \<Rightarrow> transport \<Rightarrow> job_table \<Rightarrow> command
    \<Rightarrow> 's \<Rightarrow> ((response \<times> job_table) \<times> 's) option" where
  "execute E H N pol T table cmd s = (case run_command E H N pol T table cmd s of
     None \<Rightarrow> None
   | Some (r, s1) \<Rightarrow> (case clock_unix E s1 of (now, s2) \<Rightarrow>
       Some ((case r of
           Inr (payload, table') \<Rightarrow> (response_ok now cmd payload, table')
         | Inl e \<Rightarrow> (response_err now cmd (error_alternate e), table)), s2)))"

end
