(* ===== verification/AgentLoop.thy ===== *)
theory AgentLoop
  imports Executor Presence Update
begin

text \<open>
  crates/agent/src/main.rs, the tasks of an agent: the command loop, the heartbeat and the poll
  for updates. Each definition is one turn of a task over the state the tasks share; the
  command loop itself is the recursion \<open>run_loop\<close>, whose end is a signal or an installed
  update. What the supervisor and the clock decide at the end of a turn is the field
  \<open>os_wait\<close> of \<open>agent_os\<close>, and the sample of the machine's load is \<open>os_sample\<close>.
\<close>

section \<open>What the tasks share\<close>

record agent =
  ag_presence :: presence
  ag_events :: "agent_event list"
  ag_jobs :: job_table

definition log_event :: "'s env \<Rightarrow> event_kind \<Rightarrow> string \<Rightarrow> agent \<times> 's \<Rightarrow> agent \<times> 's" where
  "log_event E kind message st = (case st of (a, s) \<Rightarrow> case clock_unix E s of (now, s') \<Rightarrow>
     (a\<lparr>ag_events := record_event now kind message (ag_events a)\<rparr>, s'))"

definition bounded_env :: "(string \<Rightarrow> string option) \<Rightarrow> string \<Rightarrow> string \<Rightarrow> nat \<Rightarrow> nat \<Rightarrow> nat \<Rightarrow> nat res" where
  "bounded_env setting invalid name fallback lo hi =
     res_then (number_env setting invalid name fallback) (\<lambda>value.
     res_then (ensure (lo \<le> value \<and> value \<le> hi) (name @ '' must be in '' @ dec lo @ ''..='' @ dec hi)) (\<lambda>_.
     Inr value))"

section \<open>Sending a response\<close>

text \<open>The delays before the attempts, in seconds.\<close>

definition RETRY_DELAYS :: "nat list" where "RETRY_DELAYS = [0, 1, 2, 4]"

fun retry_send :: "'s env \<Rightarrow> transport \<Rightarrow> response \<Rightarrow> nat list \<Rightarrow> error \<Rightarrow> ('s, unit) io" where
  "retry_send E T resp [] err = io_lift (with_context ''upload response after retries'' (Inl err))"
| "retry_send E T resp (delay # delays) err =
     io_then (if delay > 0 then sleep E (1000 * delay) else io_ok ()) (\<lambda>_.
     io_then (io_attempt (send_response E T resp)) (\<lambda>r.
     case r of Inr _ \<Rightarrow> io_ok () | Inl e \<Rightarrow> retry_send E T resp delays e))"

definition send_response_with_retry :: "'s env \<Rightarrow> transport \<Rightarrow> response \<Rightarrow> ('s, unit) io" where
  "send_response_with_retry E T resp = retry_send E T resp RETRY_DELAYS []"

section \<open>One command\<close>

text \<open>What becomes of a command, before anything is sent.\<close>

datatype verdict =
    Declined response
  | Stood_down response
  | Discarded string
  | Refused response
  | Executed response

definition judge :: "'s env \<Rightarrow> 's host \<Rightarrow> 's node \<Rightarrow> policy \<Rightarrow> transport \<Rightarrow> string \<Rightarrow> command
    \<Rightarrow> agent \<times> 's \<Rightarrow> (verdict \<times> agent \<times> 's) option" where
  "judge E H N pol T agent_id cmd st = (case st of (a, s) \<Rightarrow>
     if suspended (ag_presence a) \<and> cmd_instance cmd = None then
       (case clock_unix E s of (now, s1) \<Rightarrow>
          Some (Declined (response_err now cmd ''agent suspended: another process is using this identity''), a, s1))
     else if cmd_kind cmd = StandDown then
       (case log_event E Ev_Collision ''stood down by operator request''
           (a\<lparr>ag_presence := stand_down (ag_presence a)\<rparr>, s) of (a1, s1) \<Rightarrow>
        case clock_unix E s1 of (now, s2) \<Rightarrow> Some (Stood_down (response_ok now cmd EmptyPayload), a1, s2))
     else (case validate_routing_for (uuid_ok E) cmd agent_id of
         Inl e \<Rightarrow> (case log_event E Ev_Command (''discarded command: '' @ error_alternate e) (a, s) of (a1, s1) \<Rightarrow>
           Some (Discarded (error_alternate e), a1, s1))
       | Inr _ \<Rightarrow> (case clock_unix E s of (now, s1) \<Rightarrow>
           case validate_for_agent (uuid_ok E) now cmd agent_id (po_max_timeout_secs pol) of
             Inl e \<Rightarrow> (case clock_unix E s1 of (t, s2) \<Rightarrow>
               Some (Refused (response_err t cmd (error_to_string e)), a, s2))
           | Inr _ \<Rightarrow> (case execute E H N pol T (ag_jobs a) cmd s1 of
               None \<Rightarrow> None
             | Some ((resp, table), s2) \<Rightarrow> Some (Executed resp, a\<lparr>ag_jobs := table\<rparr>, s2)))))"

definition report_lost :: "'s env \<Rightarrow> transport \<Rightarrow> command \<Rightarrow> response \<Rightarrow> agent \<times> 's \<Rightarrow> agent \<times> 's" where
  "report_lost E T cmd resp st = (case st of (a, s) \<Rightarrow> case send_response_with_retry E T resp s of
     (Inr _, s1) \<Rightarrow> (a, s1)
   | (Inl e, s1) \<Rightarrow> log_event E Ev_Response (''lost response for command '' @ cmd_id cmd @ '': '' @ error_alternate e) (a, s1))"

definition answer :: "'s env \<Rightarrow> transport \<Rightarrow> command \<Rightarrow> verdict \<Rightarrow> agent \<times> 's \<Rightarrow> agent \<times> 's" where
  "answer E T cmd v st = (case v of
     Discarded _ \<Rightarrow> st
   | Declined resp \<Rightarrow> (fst st, snd (send_response_with_retry E T resp (snd st)))
   | Stood_down resp \<Rightarrow> (fst st, snd (send_response_with_retry E T resp (snd st)))
   | Refused resp \<Rightarrow> report_lost E T cmd resp st
   | Executed resp \<Rightarrow> report_lost E T cmd resp st)"

fun handle_commands :: "'s env \<Rightarrow> 's host \<Rightarrow> 's node \<Rightarrow> policy \<Rightarrow> transport \<Rightarrow> string \<Rightarrow> command list
    \<Rightarrow> agent \<times> 's \<Rightarrow> (agent \<times> 's) option" where
  "handle_commands E H N pol T agent_id [] st = Some st"
| "handle_commands E H N pol T agent_id (cmd # cmds) st =
     (case judge E H N pol T agent_id cmd st of
        None \<Rightarrow> None
      | Some (v, st1) \<Rightarrow> handle_commands E H N pol T agent_id cmds (answer E T cmd v st1))"

section \<open>The command loop\<close>

text \<open>Times are milliseconds of the monotonic clock.\<close>

record poll_policy =
  pp_active :: nat
  pp_idle :: nat
  pp_full_scan :: nat
  pp_use_doorbell :: bool

definition poll_from_env :: "(string \<Rightarrow> string option) \<Rightarrow> string \<Rightarrow> poll_policy res" where
  "poll_from_env setting invalid =
     res_then (bounded_env setting invalid ''AGENT_POLL_MS'' 200 100 60000) (\<lambda>active.
     res_then (bounded_env setting invalid ''AGENT_POLL_MAX_MS'' 5000 100 300000) (\<lambda>idle.
     res_then (ensure (\<not> idle < active) ''AGENT_POLL_MAX_MS must be greater than or equal to AGENT_POLL_MS'') (\<lambda>_.
     res_then (bounded_env setting invalid ''AGENT_FULL_SCAN_SECS'' 60 5 3600) (\<lambda>full.
     Inr \<lparr>pp_active = active, pp_idle = idle, pp_full_scan = 1000 * full,
       pp_use_doorbell = (case setting ''AGENT_DOORBELL'' of None \<Rightarrow> True
         | Some v \<Rightarrow> to_ascii_lowercase v \<notin> {''0'', ''false'', ''no''})\<rparr>))))"

record poll_state =
  ps_interval :: nat
  ps_seen_doorbell :: "string option"
  ps_next_full_scan :: nat

text \<open>Whether to list the mailbox this turn, and the doorbell as it was before listing.\<close>

definition look :: "'s env \<Rightarrow> poll_policy \<Rightarrow> transport \<Rightarrow> string \<Rightarrow> poll_state \<Rightarrow> agent \<times> 's
    \<Rightarrow> (bool \<times> string option) \<times> agent \<times> 's" where
  "look E poll T agent_id ps st = (case st of (a, s) \<Rightarrow>
     case (if pp_use_doorbell poll
       then (case instant_ms E s of (now, s1) \<Rightarrow> (ps_next_full_scan ps \<le> now, s1)) else (True, s)) of
       (True, s1) \<Rightarrow> ((True, ps_seen_doorbell ps), a, s1)
     | (False, s1) \<Rightarrow> (case doorbell_tag E T agent_id s1 of
         (Inr tag, s2) \<Rightarrow> ((tag \<noteq> ps_seen_doorbell ps, tag), a, s2)
       | (Inl e, s2) \<Rightarrow> ((True, ps_seen_doorbell ps), log_event E Ev_Doorbell (error_alternate e) (a, s2))))"

definition command_turn :: "'s env \<Rightarrow> 's host \<Rightarrow> 's node \<Rightarrow> policy \<Rightarrow> poll_policy \<Rightarrow> transport \<Rightarrow> string \<Rightarrow> string
    \<Rightarrow> poll_state \<times> agent \<times> 's \<Rightarrow> (poll_state \<times> agent \<times> 's) option" where
  "command_turn E H N pol poll T agent_id instance st = (case st of (ps, a0, s0) \<Rightarrow>
     case look E poll T agent_id ps (a0, s0) of ((scan, doorbell), a1, s1) \<Rightarrow>
     let idle = min (ps_interval ps * 2) (pp_idle poll) in
     if \<not> scan then Some (ps\<lparr>ps_interval := idle\<rparr>, a1, s1)
     else (case instant_ms E s1 of (now, s2) \<Rightarrow>
       let ps1 = ps\<lparr>ps_next_full_scan := now + pp_full_scan poll, ps_seen_doorbell := doorbell\<rparr> in
       (case drain_commands E T agent_id instance s2 of
          (Inl e, s3) \<Rightarrow> Some (ps1\<lparr>ps_interval := idle\<rparr>, log_event E Ev_Poll (error_alternate e) (a1, s3))
        | (Inr cmds, s3) \<Rightarrow> (case handle_commands E H N pol T agent_id cmds (a1, s3) of
            None \<Rightarrow> None
          | Some st' \<Rightarrow> Some (ps1\<lparr>ps_interval := if cmds \<noteq> [] then pp_active poll else idle\<rparr>, st')))))"

datatype wake = Signalled | Update_ready string | Slept

datatype shutdown = Shutdown_Signal | Shutdown_Updated string

record 's agent_os =
  os_wait :: "nat \<Rightarrow> 's \<Rightarrow> wake \<times> 's"
  os_sample :: "'s \<Rightarrow> metrics \<times> 's"

partial_function (option) run_turns :: "'s env \<Rightarrow> 's host \<Rightarrow> 's node \<Rightarrow> 's agent_os \<Rightarrow> policy \<Rightarrow> poll_policy \<Rightarrow> transport
    \<Rightarrow> string \<Rightarrow> string \<Rightarrow> poll_state \<times> agent \<times> 's \<Rightarrow> (shutdown \<times> agent \<times> 's) option" where
  "run_turns E H N W pol poll T agent_id instance st =
     (case command_turn E H N pol poll T agent_id instance st of
        None \<Rightarrow> None
      | Some (ps, a, s) \<Rightarrow> (case os_wait W (ps_interval ps) s of
          (Signalled, s1) \<Rightarrow> Some (Shutdown_Signal, a, s1)
        | (Update_ready version, s1) \<Rightarrow> Some (Shutdown_Updated version, a, s1)
        | (Slept, s1) \<Rightarrow> run_turns E H N W pol poll T agent_id instance (ps, a, s1)))"

definition run_loop :: "'s env \<Rightarrow> 's host \<Rightarrow> 's node \<Rightarrow> 's agent_os \<Rightarrow> policy \<Rightarrow> poll_policy \<Rightarrow> transport
    \<Rightarrow> string \<Rightarrow> string \<Rightarrow> agent \<times> 's \<Rightarrow> (shutdown \<times> agent \<times> 's) option" where
  "run_loop E H N W pol poll T agent_id instance st = (case st of (a, s) \<Rightarrow>
     case instant_ms E s of (now, s1) \<Rightarrow>
     run_turns E H N W pol poll T agent_id instance
       (\<lparr>ps_interval = pp_active poll, ps_seen_doorbell = None, ps_next_full_scan = now\<rparr>, a, s1))"

section \<open>The heartbeat\<close>

record identity =
  id_agent_id :: string
  id_instance :: string
  id_started_at :: int
  id_ttl_secs :: int
  id_binary_sha256 :: "string option"

definition collision_message :: "presence \<Rightarrow> heartbeat \<Rightarrow> string" where
  "collision_message pr seen = ''identity also held by instance '' @ hb_instance seen @ '' on '' @ hb_hostname seen
     @ ''; this process is '' @ (if suspended pr then ''standing down'' else ''continuing'')"

definition look_for_others :: "'s env \<Rightarrow> transport \<Rightarrow> identity \<Rightarrow> agent \<times> 's \<Rightarrow> agent \<times> 's" where
  "look_for_others E T me st = (case st of (a, s) \<Rightarrow>
     case read_heartbeat E T (id_agent_id me) s of
       (Inl _, s1) \<Rightarrow> (a, s1)
     | (Inr seen, s1) \<Rightarrow> (case read_back (id_instance me) (id_started_at me) seen (ag_presence a) of (newly, pr) \<Rightarrow>
         let a1 = a\<lparr>ag_presence := pr\<rparr> in
         (case seen of
            Some hb \<Rightarrow> if newly then log_event E Ev_Collision (collision_message pr hb) (a1, s1) else (a1, s1)
          | None \<Rightarrow> (a1, s1))))"

definition heartbeat_of :: "'s node \<Rightarrow> identity \<Rightarrow> agent \<Rightarrow> metrics \<Rightarrow> int \<Rightarrow> heartbeat" where
  "heartbeat_of N me a sampled now = (case presence_snapshot (ag_presence a) of (conflict, susp) \<Rightarrow>
     \<lparr>hb_agent_id = id_agent_id me, hb_hostname = nd_hostname N, hb_os = nd_os N, hb_agent_version = nd_version N,
      hb_binary_sha256 = id_binary_sha256 me, hb_instance = id_instance me, hb_conflict_with = conflict,
      hb_suspended = susp, hb_at = now, hb_ttl_secs = id_ttl_secs me, hb_recent_errors = ag_events a,
      hb_jobs_running = running_count (ag_jobs a), hb_jobs_finished = recently_finished (ag_jobs a),
      hb_metrics = Some sampled\<rparr>)"

definition heartbeat_turn :: "'s env \<Rightarrow> 's node \<Rightarrow> 's agent_os \<Rightarrow> transport \<Rightarrow> identity \<Rightarrow> agent \<times> 's \<Rightarrow> agent \<times> 's" where
  "heartbeat_turn E N W T me st =
     (case look_for_others E T me st of (a, s1) \<Rightarrow>
      case os_sample W s1 of (sampled, s2) \<Rightarrow>
      case clock_unix E s2 of (now, s3) \<Rightarrow>
      case write_heartbeat E T (heartbeat_of N me a sampled now) s3 of
        (Inr _, s4) \<Rightarrow> (a, s4)
      | (Inl e, s4) \<Rightarrow> log_event E Ev_Heartbeat (error_alternate e) (a, s4))"

section \<open>Watching for updates\<close>

text \<open>The manifest tags whose outcome is decided, and announced; the outer \<open>None\<close> is none yet.\<close>

record update_watch =
  uw_settled :: "string option option"
  uw_announced :: "string option option"

definition announce :: "'s env \<Rightarrow> string option \<Rightarrow> string \<Rightarrow> update_watch \<times> agent \<times> 's \<Rightarrow> update_watch \<times> agent \<times> 's" where
  "announce E tag message st = (case st of (w, a, s) \<Rightarrow>
     if uw_announced w = Some tag then (w, a, s)
     else (w\<lparr>uw_announced := Some tag\<rparr>, log_event E Ev_Update message (a, s)))"

text \<open>One check: the version that was installed, if one was, and what is remembered.\<close>

definition update_turn :: "'s env \<Rightarrow> 's host \<Rightarrow> 's updater \<Rightarrow> transport \<Rightarrow> string \<Rightarrow> path
    \<Rightarrow> update_watch \<times> agent \<times> 's \<Rightarrow> (string option \<times> update_watch \<times> agent \<times> 's) option" where
  "update_turn E H U T agent_id state_path st = (case st of (w, a, s) \<Rightarrow>
     (case update_manifest_tag E T agent_id s of
        (Inl e, s1) \<Rightarrow> Some (None, w, log_event E Ev_Update (''update check failed: '' @ error_alternate e) (a, s1))
      | (Inr tag, s1) \<Rightarrow>
          if uw_settled w = Some tag then Some (None, w, a, s1)
          else (case check_and_apply E H U T agent_id state_path (running_count (ag_jobs a)) s1 of
            None \<Rightarrow> None
          | Some (Inl e, s2) \<Rightarrow> Some (None, w, log_event E Ev_Update (''update failed: '' @ error_alternate e) (a, s2))
          | Some (Inr (Applied version _), s2) \<Rightarrow> Some (Some version, w, a, s2)
          | Some (Inr outcome, s2) \<Rightarrow>
              (case (case outcome of
                   Deferred n \<Rightarrow> announce E tag (''update ready; waiting for '' @ dec (unat n) @ '' running job(s)'') (w, a, s2)
                 | Skipped reason \<Rightarrow> announce E tag (''update skipped: '' @ reason) (w, a, s2)
                 | _ \<Rightarrow> (w, a, s2)) of (w1, a1, s3) \<Rightarrow>
               Some (None, (if is_settled outcome then w1\<lparr>uw_settled := Some tag\<rparr> else w1), a1, s3)))))"

end
