(* ===== verification/Metrics.thy ===== *)
theory Metrics
  imports Config Utf8 Host
begin

text \<open>
  crates/agent/src/metrics.rs: the machine's health as the heartbeat carries it. What the kernel
  and the driver's tool report is text, read through \<open>gauges\<close>; how the text is read is modelled
  in full. No reading can fail a sample: one that is not available is left out.
\<close>

section \<open>The machine\<close>

text \<open>
  \<open>ga_parse_f32\<close> gives the bits of \<open>str::parse::<f32>\<close>; \<open>ga_statvfs\<close> the fragment size, the blocks
  and the blocks an ordinary process may use; \<open>ga_run\<close> runs a program to its end, or to the deadline
  in seconds (\<open>None\<close>), and gives whether it succeeded and its standard output.
\<close>

record 's gauges =
  ga_read_to_string :: "path \<Rightarrow> ('s, string) io"
  ga_parse_f32 :: "string \<Rightarrow> u32 option"
  ga_parallelism :: "('s, nat) io"
  ga_is_file :: "path \<Rightarrow> 's \<Rightarrow> bool"
  ga_statvfs :: "path \<Rightarrow> ('s, u64 \<times> u64 \<times> u64) io"
  ga_run :: "path \<Rightarrow> string list \<Rightarrow> nat \<Rightarrow> ('s, (bool \<times> bytes) option) io"

definition GPU_QUERY_TIMEOUT :: nat where "GPU_QUERY_TIMEOUT = 5"

record collector =
  co_disk_path :: path
  co_nvidia_smi :: "path option"

section \<open>Text\<close>

text \<open>
  \<open>str::lines\<close>: an ending line feed opens no further line, and a carriage return before a line
  feed belongs to it.
\<close>

definition LF :: char where "LF = CHR 0x0A"
definition CR :: char where "CR = CHR 0x0D"

definition chop_cr :: "string \<Rightarrow> string" where
  "chop_cr l = (case strip_suffix [CR] l of None \<Rightarrow> l | Some m \<Rightarrow> m)"

definition lines :: "string \<Rightarrow> string list" where
  "lines text = (let ps = split_on LF text in
     map chop_cr (butlast ps) @ (if last ps = [] then [] else [last ps]))"

text \<open>\<open>split_whitespace().next()\<close>.\<close>

definition first_word :: "string \<Rightarrow> string option" where
  "first_word s = (let t = dropWhile is_space s in
     if t = [] then None else Some (takeWhile (\<lambda>c. \<not> is_space c) t))"

definition parse_u64 :: "string \<Rightarrow> u64 option" where
  "parse_u64 s = map_option of_nat (parse_unsigned (2 ^ 64) s)"

definition parse_u32 :: "string \<Rightarrow> u32 option" where
  "parse_u32 s = map_option of_nat (parse_unsigned (2 ^ 32) s)"

section \<open>Readings\<close>

definition parse_gpu_row :: "string \<Rightarrow> gpu_metrics option" where
  "parse_gpu_row line =
     (let fields = map trim (split_on (CHR '','') line) in
      if length fields < 6 then None
      else case parse_u32 (fields ! 0) of None \<Rightarrow> None
      | Some index \<Rightarrow> Some \<lparr>gm_index = index, gm_name = fields ! 1,
          gm_utilization_pct = parse_u32 (fields ! 2), gm_memory_used_mb = parse_u64 (fields ! 3),
          gm_memory_total_mb = parse_u64 (fields ! 4), gm_temperature_c = parse_u32 (fields ! 5)\<rparr>)"

definition parse_gpu_csv :: "string \<Rightarrow> gpu_metrics list" where
  "parse_gpu_csv text = List.map_filter parse_gpu_row (filter (\<lambda>l. trim l \<noteq> []) (lines text))"

definition gpu_query_args :: "string list" where
  "gpu_query_args = [''--query-gpu=index,name,utilization.gpu,memory.used,memory.total,temperature.gpu'',
     ''--format=csv,noheader,nounits'']"

definition query_gpus :: "'s gauges \<Rightarrow> path \<Rightarrow> 's \<Rightarrow> gpu_metrics list \<times> 's" where
  "query_gpus G tool s = (case ga_run G tool gpu_query_args GPU_QUERY_TIMEOUT s of
     (Inr (Some (True, out)), s') \<Rightarrow> (parse_gpu_csv (of_bytes (from_utf8_lossy out)), s')
   | (_, s') \<Rightarrow> ([], s'))"

definition find_nvidia_smi :: "'s gauges \<Rightarrow> 's \<Rightarrow> path option" where
  "find_nvidia_smi G s = find (\<lambda>p. ga_is_file G p s)
     (map PathBuf [''/usr/bin/nvidia-smi'', ''/usr/local/bin/nvidia-smi'', ''/bin/nvidia-smi''])"

definition collector_new :: "'s gauges \<Rightarrow> path \<Rightarrow> bool \<Rightarrow> 's \<Rightarrow> collector" where
  "collector_new G disk_path gpu_enabled s = \<lparr>co_disk_path = disk_path,
     co_nvidia_smi = (if gpu_enabled then find_nvidia_smi G s else None)\<rparr>"

definition load_and_cpus :: "'s gauges \<Rightarrow> 's \<Rightarrow> (u32 option \<times> u32 option) \<times> 's" where
  "load_and_cpus G s =
     (case ga_read_to_string G (PathBuf ''/proc/loadavg'') s of (text, s1) \<Rightarrow>
      case ga_parallelism G s1 of (n, s2) \<Rightarrow>
      (((case text of Inl _ \<Rightarrow> None | Inr t \<Rightarrow> Option.bind (first_word t) (ga_parse_f32 G)),
        (case n of Inl _ \<Rightarrow> None | Inr k \<Rightarrow> Some (of_nat k))), s2))"

text \<open>A line of /proc/meminfo, and the loop over them, which ends when both values are known.\<close>

definition meminfo_entry :: "string \<Rightarrow> (string \<times> u64 option) option" where
  "meminfo_entry line = (case split_once (CHR '':'') line of None \<Rightarrow> None
     | Some (key, rest) \<Rightarrow> Some (key, Option.bind (first_word rest) parse_u64))"

fun meminfo_loop :: "string list \<Rightarrow> u64 option \<Rightarrow> u64 option \<Rightarrow> u64 option \<times> u64 option" where
  "meminfo_loop [] tot avail = (tot, avail)"
| "meminfo_loop (line # ls) tot avail = (case meminfo_entry line of
     None \<Rightarrow> meminfo_loop ls tot avail
   | Some (key, kb) \<Rightarrow>
       let tot = (if key = ''MemTotal'' then map_option (\<lambda>k. k div 1024) kb else tot);
           avail = (if key = ''MemAvailable'' then map_option (\<lambda>k. k div 1024) kb else avail) in
       if tot \<noteq> None \<and> avail \<noteq> None then (tot, avail)
       else meminfo_loop ls tot avail)"

definition memory_mb :: "'s gauges \<Rightarrow> 's \<Rightarrow> (u64 option \<times> u64 option) \<times> 's" where
  "memory_mb G s = (case ga_read_to_string G (PathBuf ''/proc/meminfo'') s of
     (Inl _, s') \<Rightarrow> ((None, None), s')
   | (Inr text, s') \<Rightarrow> (meminfo_loop (lines text) None None, s'))"

text \<open>A path with a NUL is no C string; otherwise the counts of the file system, in MiB.\<close>

definition disk_mb :: "'s gauges \<Rightarrow> path \<Rightarrow> 's \<Rightarrow> (u64 option \<times> u64 option) \<times> 's" where
  "disk_mb G p s = (if CHR 0x00 \<in> set (display p) then ((None, None), s)
     else case ga_statvfs G p s of
       (Inl _, s') \<Rightarrow> ((None, None), s')
     | (Inr (block, blocks, bavail), s') \<Rightarrow>
         ((Some (sat_mul_u64 blocks block div (1024 * 1024)),
           Some (sat_mul_u64 bavail block div (1024 * 1024))), s'))"

definition sample :: "'s gauges \<Rightarrow> collector \<Rightarrow> 's \<Rightarrow> metrics \<times> 's" where
  "sample G c s =
     (case load_and_cpus G s of ((load, cpus), s1) \<Rightarrow>
      case memory_mb G s1 of ((mem_total, mem_available), s2) \<Rightarrow>
      case disk_mb G (co_disk_path c) s2 of ((disk_total, disk_free), s3) \<Rightarrow>
      case (case co_nvidia_smi c of Some tool \<Rightarrow> query_gpus G tool s3 | None \<Rightarrow> ([], s3)) of (gpus, s4) \<Rightarrow>
      (\<lparr>mt_load_1m = load, mt_cpu_count = cpus, mt_mem_total_mb = mem_total, mt_mem_available_mb = mem_available,
        mt_disk_total_mb = disk_total, mt_disk_free_mb = disk_free, mt_gpus = gpus\<rparr>, s4))"

section \<open>Numbers\<close>

lemma digits_value_append: "digits_value (s @ [c]) = 10 * digits_value s + (of_char c - 48)"
  by (simp add: digits_value_def)

lemma dec_digits: "all_digits (dec n)"
  using set_dec [of n]
  by (auto simp: all_digits_def list_all_iff is_ascii_digit_def in_range_def subset_iff image_iff)

lemma digits_value_dec: "digits_value (dec n) = n"
proof (induction n rule: dec.induct)
  case (1 n)
  then show ?case
    by (subst dec.simps) (auto simp: digits_value_append, simp add: digits_value_def)
qed

lemma parse_unsigned_dec: "n < bound \<Longrightarrow> parse_unsigned bound (dec n) = Some n"
proof -
  have "\<not> starts_with (dec n) ''+''"
    using dec_digits [of n]
    by (cases "dec n") (auto simp: all_digits_def is_ascii_digit_def in_range_def prefix_Cons)
  then show "n < bound \<Longrightarrow> ?thesis"
    by (simp add: parse_unsigned_def dec_digits digits_value_dec)
qed

lemma parse_number_dec: "parse_u32 (dec (unat x)) = Some x" "parse_u64 (dec (unat y)) = Some y"
  using unat_u32_less [of x] unat_u64_less [of y]
  by (simp_all add: parse_u32_def parse_u64_def parse_unsigned_dec)

lemma dec_chars: "c \<in> set (dec n) \<Longrightarrow> is_ascii_digit c"
  using dec_digits [of n] by (simp add: all_digits_def list_all_iff)

lemma dec_plain: "list_all (\<lambda>c. \<not> is_space c) (dec n)"
  by (auto simp: list_all_iff is_space_def is_ascii_digit_def in_range_def dest: dec_chars)

section \<open>Lines and fields\<close>

lemma split_on_append: "c \<notin> set a \<Longrightarrow> split_on c (a @ c # b) = a # split_on c b"
  by (induction a) auto

lemma split_on_single: "c \<notin> set a \<Longrightarrow> split_on c a = [a]"
  by (induction a) auto

lemma split_on_lines: "\<forall>l \<in> set ls. c \<notin> set l \<Longrightarrow> split_on c (concat (map (\<lambda>l. l @ [c]) ls)) = ls @ [[]]"
  by (induction ls) (auto simp: split_on_append)

lemma chop_cr_plain: "\<not> suffix [CR] l \<Longrightarrow> chop_cr l = l"
  by (simp add: chop_cr_def strip_suffix_def)

lemma lines_concat:
  "\<forall>l \<in> set ls. LF \<notin> set l \<and> \<not> suffix [CR] l \<Longrightarrow> lines (concat (map (\<lambda>l. l @ [LF]) ls)) = ls"
  by (simp add: lines_def split_on_lines map_idI chop_cr_plain)

lemma trim_blank: "trim (CHR '' '' # s) = trim s"
  by (simp add: trim_def is_space_def in_range_def)

section \<open>What nvidia-smi writes\<close>

text \<open>
  One line of the report in the format that was asked for: the fields separated by a comma and a
  blank, a reading the card does not have as \<open>[N/A]\<close>.
\<close>

definition gpu_reading :: "nat option \<Rightarrow> string" where
  "gpu_reading r = (case r of None \<Rightarrow> ''[N/A]'' | Some n \<Rightarrow> dec n)"

definition gpu_line :: "gpu_metrics \<Rightarrow> string" where
  "gpu_line g = join '', '' [dec (unat (gm_index g)), gm_name g,
     gpu_reading (map_option unat (gm_utilization_pct g)), gpu_reading (map_option unat (gm_memory_used_mb g)),
     gpu_reading (map_option unat (gm_memory_total_mb g)), gpu_reading (map_option unat (gm_temperature_c g))]"

definition plain_name :: "string \<Rightarrow> bool" where
  "plain_name n \<longleftrightarrow> trim n = n \<and> CHR '','' \<notin> set n \<and> LF \<notin> set n"

text \<open>The characters of a reading: none of those that structure the report.\<close>

definition report_char :: "char \<Rightarrow> bool" where
  "report_char c \<longleftrightarrow> is_ascii_digit c \<or> c \<in> set ''[N/A]''"

lemma report_charD: "report_char c \<Longrightarrow> \<not> is_space c \<and> c \<noteq> CHR '','' \<and> c \<noteq> LF \<and> c \<noteq> CR"
  by (auto simp: report_char_def is_ascii_digit_def is_space_def in_range_def LF_def CR_def)

lemma dec_report: "list_all report_char (dec n)"
  by (auto simp: list_all_iff report_char_def dest: dec_chars)

lemma reading_report: "list_all report_char (gpu_reading r)" "gpu_reading r \<noteq> []"
  by (cases r; simp add: gpu_reading_def dec_report; simp add: report_char_def)+

lemma report_plain:
  assumes "list_all report_char s"
  shows "trim s = s" "CHR '','' \<notin> set s" "LF \<notin> set s" "CR \<notin> set s"
proof -
  have all: "\<forall>c \<in> set s. \<not> is_space c \<and> c \<noteq> CHR '','' \<and> c \<noteq> LF \<and> c \<noteq> CR"
    using assms report_charD unfolding list_all_iff by blast
  then show "CHR '','' \<notin> set s" "LF \<notin> set s" "CR \<notin> set s" by blast+
  from all show "trim s = s" by (intro trim_plain) (simp add: list_all_iff)
qed

lemmas field_plain = report_plain [OF dec_report] report_plain [OF reading_report(1)]

lemma suffix_single: "suffix [x] l \<longleftrightarrow> l \<noteq> [] \<and> last l = x"
  by (cases l rule: rev_cases) (auto simp: suffix_def)

lemma trim_empty: "trim s = [] \<longleftrightarrow> list_all is_space s"
proof
  define t where "t = dropWhile is_space s"
  assume "trim s = []"
  then have t: "\<forall>x \<in> set t. is_space x" by (simp add: trim_def t_def dropWhile_eq_Nil_conv)
  show "list_all is_space s"
  proof (cases "t = []")
    case True
    then show ?thesis by (simp add: t_def dropWhile_eq_Nil_conv list_all_iff)
  next
    case False
    then have "\<not> is_space (hd t)" unfolding t_def by (rule hd_dropWhile)
    with t False show ?thesis by simp
  qed
next
  assume "list_all is_space s"
  then show "trim s = []" by (auto simp: trim_def dropWhile_eq_Nil_conv list_all_iff dest: set_dropWhileD)
qed

lemma parse_reading:
  "parse_u32 (gpu_reading (map_option unat x)) = x" "parse_u64 (gpu_reading (map_option unat y)) = y"
proof -
  have "parse_unsigned b ''[N/A]'' = None" for b
    by (simp add: parse_unsigned_def all_digits_def is_ascii_digit_def in_range_def)
  then show "parse_u32 (gpu_reading (map_option unat x)) = x" "parse_u64 (gpu_reading (map_option unat y)) = y"
    by (cases x; cases y; simp add: gpu_reading_def parse_number_dec; simp add: parse_u32_def parse_u64_def)+
qed

lemma gpu_line_facts:
  assumes "plain_name (gm_name g)"
  shows "LF \<notin> set (gpu_line g) \<and> \<not> suffix [CR] (gpu_line g) \<and> trim (gpu_line g) \<noteq> []
    \<and> parse_gpu_row (gpu_line g) = Some g"
proof -
  define d u m t c where "d = dec (unat (gm_index g))"
    and "u = gpu_reading (map_option unat (gm_utilization_pct g))"
    and "m = gpu_reading (map_option unat (gm_memory_used_mb g))"
    and "t = gpu_reading (map_option unat (gm_memory_total_mb g))"
    and "c = gpu_reading (map_option unat (gm_temperature_c g))"
  note defs = d_def u_def m_def t_def c_def
  have body: "gpu_line g = d @ CHR '','' # (CHR '' '' # gm_name g) @ CHR '','' # (CHR '' '' # u)
    @ CHR '','' # (CHR '' '' # m) @ CHR '','' # (CHR '' '' # t) @ CHR '','' # (CHR '' '' # c)"
    by (simp add: gpu_line_def defs)
  have free: "CHR '','' \<notin> set d" "CHR '','' \<notin> set (CHR '' '' # gm_name g)" "CHR '','' \<notin> set (CHR '' '' # u)"
    "CHR '','' \<notin> set (CHR '' '' # m)" "CHR '','' \<notin> set (CHR '' '' # t)" "CHR '','' \<notin> set (CHR '' '' # c)"
    using assms by (simp_all add: defs field_plain plain_name_def)
  have split: "split_on (CHR '','') (gpu_line g) = [d, CHR '' '' # gm_name g, CHR '' '' # u, CHR '' '' # m, CHR '' '' # t, CHR '' '' # c]"
    unfolding body by (simp only: split_on_append free split_on_single not_False_eq_True)
  have trims: "trim d = d" "trim u = u" "trim m = m" "trim t = t" "trim c = c" "trim (gm_name g) = gm_name g"
    using assms by (simp_all add: defs field_plain plain_name_def)
  have row: "parse_gpu_row (gpu_line g) = Some g"
    unfolding parse_gpu_row_def split
    by (simp add: trim_blank trims, simp add: defs parse_reading parse_number_dec)
  have "LF \<notin> set d" "LF \<notin> set (gm_name g)" "LF \<notin> set u" "LF \<notin> set m" "LF \<notin> set t" "LF \<notin> set c"
    using assms by (simp_all add: defs field_plain plain_name_def)
  then have nolf: "LF \<notin> set (gpu_line g)" by (simp add: body, simp add: LF_def)
  have "c \<noteq> []" "CR \<notin> set c" by (simp_all add: c_def reading_report field_plain)
  then have "last c \<noteq> CR" using last_in_set by metis
  with \<open>c \<noteq> []\<close> have nocr: "\<not> suffix [CR] (gpu_line g)" by (simp add: suffix_single body)
  have "d \<noteq> []" "\<forall>x \<in> set d. \<not> is_space x"
    using dec_plain [of "unat (gm_index g)"] by (simp_all add: d_def list_all_iff)
  then have "\<not> list_all is_space (gpu_line g)" by (cases d) (auto simp: body)
  with nolf nocr row show ?thesis by (simp add: trim_empty)
qed

lemma map_filter_all: "\<forall>x \<in> set xs. f (g x) = Some x \<Longrightarrow> List.map_filter f (map g xs) = xs"
  by (induction xs) auto

section \<open>Properties\<close>


text \<open>The two cards of the module's own test, one of them with readings it does not have.\<close>

definition sample_gpus :: "gpu_metrics list" where
  "sample_gpus = [\<lparr>gm_index = 0, gm_name = ''A100'', gm_utilization_pct = Some 97, gm_memory_used_mb = Some 38912,
     gm_memory_total_mb = Some 40960, gm_temperature_c = Some 71\<rparr>,
     \<lparr>gm_index = 1, gm_name = ''RTX 3090'', gm_utilization_pct = None, gm_memory_used_mb = Some 1024,
     gm_memory_total_mb = Some 24576, gm_temperature_c = None\<rparr>]"


text \<open>
  The loop over /proc/meminfo, which stops early and keeps what it last saw, finds the two values a
  plain look-up finds, wherever their lines are, provided no key occurs twice.
\<close>

definition meminfo_value :: "string list \<Rightarrow> string \<Rightarrow> u64 option" where
  "meminfo_value ls key = map_option (\<lambda>k. k div 1024)
     (Option.bind (map_of (List.map_filter meminfo_entry ls) key) id)"

lemma meminfo_loop_absent:
  "key \<notin> fst ` set (List.map_filter meminfo_entry ls) \<Longrightarrow> map_of (List.map_filter meminfo_entry ls) key = None"
  by (simp add: map_of_eq_None_iff)

lemma meminfo_loop_looks_up:
  assumes "distinct (map fst (List.map_filter meminfo_entry ls))"
    and "tot \<noteq> None \<longrightarrow> ''MemTotal'' \<notin> fst ` set (List.map_filter meminfo_entry ls)"
    and "avail \<noteq> None \<longrightarrow> ''MemAvailable'' \<notin> fst ` set (List.map_filter meminfo_entry ls)"
  shows "meminfo_loop ls tot avail =
    (case tot of None \<Rightarrow> meminfo_value ls ''MemTotal'' | Some _ \<Rightarrow> tot,
     case avail of None \<Rightarrow> meminfo_value ls ''MemAvailable'' | Some _ \<Rightarrow> avail)"
  using assms
proof (induction ls arbitrary: tot avail)
  case Nil
  then show ?case by (cases tot; cases avail) (simp_all add: meminfo_value_def)
next
  case (Cons line ls)
  show ?case
  proof (cases "meminfo_entry line")
    case None
    then have "meminfo_value (line # ls) k = meminfo_value ls k" for k
      by (simp add: meminfo_value_def List.map_filter_simps)
    with None Cons show ?thesis by (cases tot; cases avail) (simp_all add: List.map_filter_simps)
  next
    case (Some e)
    obtain key kb where e: "e = (key, kb)" by (cases e)
    have new: "key \<notin> fst ` set (List.map_filter meminfo_entry ls)"
      "distinct (map fst (List.map_filter meminfo_entry ls))"
      using Cons.prems(1) Some e by (simp_all add: List.map_filter_simps)
    have looked: "meminfo_value (line # ls) k =
        (if k = key then map_option (\<lambda>k. k div 1024) kb else meminfo_value ls k)" for k
      using Some e by (simp add: meminfo_value_def List.map_filter_simps)
    have gone: "meminfo_value ls key = None" using new(1) by (simp add: meminfo_value_def meminfo_loop_absent)
    note IH = Cons.IH [OF new(2)]
    show ?thesis
      using Cons.prems(2,3) Some e new(1) gone
      by (cases tot; cases avail; cases kb) (auto simp: looked IH Let_def List.map_filter_simps)
  qed
qed

theorem memory_is_looked_up:
  assumes "distinct (map fst (List.map_filter meminfo_entry (lines text)))"
  shows "meminfo_loop (lines text) None None = (meminfo_value (lines text) ''MemTotal'', meminfo_value (lines text) ''MemAvailable'')"
  using meminfo_loop_looks_up [OF assms, of None None] by simp

definition sample_meminfo :: string where
  "sample_meminfo = ''MemTotal:       16316536 kB'' @ [LF] @ ''MemFree:  2048 kB'' @ [LF]
     @ ''MemAvailable:   4096 kB'' @ [LF]"

theorem memory_is_looked_up_witness:
  "meminfo_loop (lines sample_meminfo) None None = (Some 15934, Some 4)"
proof -
  have parsed: "parse_unsigned 18446744073709551616 ''16316536'' = Some 16316536"
      "parse_unsigned 18446744073709551616 ''2048'' = Some 2048" "parse_unsigned 18446744073709551616 ''4096'' = Some 4096"
    by (simp_all add: parse_unsigned_def all_digits_def is_ascii_digit_def in_range_def digits_value_def)
  have lines: "lines sample_meminfo =
      [''MemTotal:       16316536 kB'', ''MemFree:  2048 kB'', ''MemAvailable:   4096 kB'']"
    by code_simp
  have entries: "List.map_filter meminfo_entry (lines sample_meminfo) =
      [(''MemTotal'', Some 16316536), (''MemFree'', Some 2048), (''MemAvailable'', Some 4096)]"
    by (simp add: lines List.map_filter_simps meminfo_entry_def first_word_def is_space_def in_range_def
        parse_u64_def parsed)
  have "meminfo_loop (lines sample_meminfo) None None =
    (meminfo_value (lines sample_meminfo) ''MemTotal'', meminfo_value (lines sample_meminfo) ''MemAvailable'')"
    by (rule memory_is_looked_up) (simp add: entries)
  then show ?thesis by (simp add: meminfo_value_def entries)
qed

text \<open>
  The space reported free is never more than the space reported in all, also where the product of
  blocks and block size does not fit into 64 bits.
\<close>

theorem disk_free_within_total:
  assumes "disk_mb G p s = ((Some tot, Some free), s')" and "ga_statvfs G p s = (Inr (block, blocks, bavail), s')"
    and "bavail \<le> blocks"
  shows "free \<le> tot"
proof -
  let ?f = "sat_mul_u64 bavail block" and ?t = "sat_mul_u64 blocks block"
  have "unat bavail * unat block \<le> unat blocks * unat block"
    using assms(3) by (intro mult_le_mono1) (simp add: word_le_nat_alt)
  then have "unat ?f \<le> unat ?t" unfolding unat_sat_mul_u64 by (intro min.mono) auto
  then have "?f div (1024 * 1024) \<le> ?t div (1024 * 1024)"
    unfolding word_le_nat_alt unat_div by (rule div_le_mono)
  moreover have "free = ?f div (1024 * 1024)" "tot = ?t div (1024 * 1024)"
    using assms(1,2) unfolding disk_mb_def by (simp_all split: if_splits)
  ultimately show ?thesis by simp
qed

end
