(* ===== verification/LogShip.thy ===== *)
theory LogShip
  imports Update
begin

text \<open>
  The way of a log from an agent to the controller: crates/agent/src/log_shipper.rs, which
  publishes a log in chunks and remembers how far it is, and crates/controller/src/log_store.rs,
  which appends the chunks to a copy. File access at an offset is \<open>log_disk\<close>; the SQLite table
  of offsets is \<open>log_db\<close>, an argument like every other library.
\<close>

section \<open>Disk and database\<close>

text \<open>
  \<open>ld_open_rw\<close> is \<open>OpenOptions::new().create(true).write(true).read(true).open\<close>, which does not
  truncate; \<open>ld_write_all\<close> writes at the position of the handle.
\<close>

record 's log_disk =
  ld_read_dir :: "path \<Rightarrow> ('s, path list) io"
  ld_metadata_len :: "path \<Rightarrow> ('s, u64) io"
  ld_read_to_string :: "path \<Rightarrow> ('s, string) io"
  ld_seek :: "nat \<Rightarrow> nat \<Rightarrow> ('s, unit) io"
  ld_read_exact :: "nat \<Rightarrow> nat \<Rightarrow> ('s, bytes) io"
  ld_open_rw :: "path \<Rightarrow> ('s, nat) io"
  ld_write_all :: "nat \<Rightarrow> bytes \<Rightarrow> ('s, unit) io"
  ld_sync_data :: "nat \<Rightarrow> ('s, unit) io"

text \<open>The columns of \<open>log_offsets\<close> besides its key: the next offset, the path, the time.\<close>

record 's log_db =
  db_open :: "('s, unit) io"
  db_next_offset :: "string \<Rightarrow> string \<Rightarrow> ('s, int option) io"
  db_upsert_offset :: "string \<Rightarrow> string \<Rightarrow> int \<Rightarrow> string \<Rightarrow> int \<Rightarrow> ('s, unit) io"

section \<open>Shipping\<close>

type_synonym offsets = "path \<Rightarrow> u64 option"

definition MARKER_SUFFIX :: string where "MARKER_SUFFIX = ''.shipped''"
definition MAX_SOURCE_BYTES :: nat where "MAX_SOURCE_BYTES = 96"

text \<open>The suffix is added to the text of the whole path, so to its last component.\<close>

definition marker_path :: "path \<Rightarrow> path" where
  "marker_path p = Path (is_absolute p) (if components p = [] then [MARKER_SUFFIX]
     else butlast (components p) @ [last (components p) @ MARKER_SUFFIX])"

definition read_marker :: "'s log_disk \<Rightarrow> path \<Rightarrow> ('s, u64) io" where
  "read_marker D p = io_then (io_attempt (ld_read_to_string D (marker_path p))) (\<lambda>r. io_ok
     (case r of Inl _ \<Rightarrow> 0
      | Inr t \<Rightarrow> (case parse_unsigned (2 ^ 64) (trim t) of None \<Rightarrow> 0 | Some n \<Rightarrow> of_nat n)))"

definition safe_source :: "path \<Rightarrow> string option" where
  "safe_source p = (case file_name p of None \<Rightarrow> None
     | Some name \<Rightarrow>
         if ends_with name MARKER_SUFFIX then None
         else
           let job_log = extension p = Some ''out'' \<or> extension p = Some ''err'';
               agent_log = starts_with name ''agent.log.'' in
           if (job_log \<or> agent_log) \<and> length name \<le> MAX_SOURCE_BYTES \<and> list_all log_source_char name
           then Some name else None)"

definition ship_file :: "'s env \<Rightarrow> 's host \<Rightarrow> 's log_disk \<Rightarrow> transport \<Rightarrow> string \<Rightarrow> nat \<Rightarrow> path \<Rightarrow> string \<Rightarrow> offsets
    \<Rightarrow> ('s, offsets) io" where
  "ship_file E H D T agent chunk_bytes p source offs =
     io_then (case offs p of Some n \<Rightarrow> io_ok n | None \<Rightarrow> read_marker D p) (\<lambda>offset.
     io_then (ld_metadata_len D p) (\<lambda>size.
     if size \<le> offset then io_ok offs
     else
       let read_len = min (size - offset) (of_nat chunk_bytes) in
       io_then (file_open H p) (\<lambda>h.
       io_then (ld_seek D h (unat offset)) (\<lambda>_.
       io_then (ld_read_exact D h (unat read_len)) (\<lambda>data.
       io_then (now_unix E) (\<lambda>now.
       io_then (publish_log_chunk E T \<lparr>lc_agent_id = agent, lc_source = source, lc_offset = offset,
         lc_data_b64 = b64_encode E data, lc_at = now\<rparr>) (\<lambda>_.
       let next = offset + read_len in
       io_then (fs_write H (marker_path p) (as_bytes (dec (unat next)))) (\<lambda>_.
       io_ok (offs(p \<mapsto> next))))))))))"

text \<open>The table of offsets keeps what was reached before an error.\<close>

fun ship_entries :: "'s env \<Rightarrow> 's host \<Rightarrow> 's log_disk \<Rightarrow> transport \<Rightarrow> string \<Rightarrow> nat \<Rightarrow> path list \<Rightarrow> offsets \<Rightarrow> 's
    \<Rightarrow> (unit res \<times> offsets) \<times> 's" where
  "ship_entries E H D T agent chunk_bytes [] offs s = ((Inr (), offs), s)"
| "ship_entries E H D T agent chunk_bytes (p # ps) offs s =
     (case safe_source p of
        None \<Rightarrow> ship_entries E H D T agent chunk_bytes ps offs s
      | Some source \<Rightarrow> (case ship_file E H D T agent chunk_bytes p source offs s of
          (Inl e, s') \<Rightarrow> ((Inl e, offs), s')
        | (Inr offs', s') \<Rightarrow> ship_entries E H D T agent chunk_bytes ps offs' s'))"

definition ship_once :: "'s env \<Rightarrow> 's host \<Rightarrow> 's log_disk \<Rightarrow> transport \<Rightarrow> string \<Rightarrow> nat \<Rightarrow> path \<Rightarrow> offsets \<Rightarrow> 's
    \<Rightarrow> (unit res \<times> offsets) \<times> 's" where
  "ship_once E H D T agent chunk_bytes dir offs s =
     (case io_context (''scan '' @ display dir) (ld_read_dir D dir) s of
        (Inl e, s') \<Rightarrow> ((Inl e, offs), s')
      | (Inr ps, s') \<Rightarrow> ship_entries E H D T agent chunk_bytes ps offs s')"

section \<open>Storing\<close>

definition store_path :: "path \<Rightarrow> string \<Rightarrow> string \<Rightarrow> path" where
  "store_path root agent source = path_join (path_join root agent) source"

definition next_offset :: "int option \<Rightarrow> nat" where
  "next_offset row = nat (max 0 (case row of None \<Rightarrow> 0 | Some n \<Rightarrow> n))"

definition append_chunk :: "'s log_disk \<Rightarrow> path \<Rightarrow> nat \<Rightarrow> bytes \<Rightarrow> ('s, unit) io" where
  "append_chunk D p offset data =
     io_then (ld_open_rw D p) (\<lambda>h.
     io_then (ld_seek D h offset) (\<lambda>_.
     io_then (ld_write_all D h data) (\<lambda>_.
     ld_sync_data D h)))"

definition ingest :: "'s env \<Rightarrow> 's host \<Rightarrow> 's log_disk \<Rightarrow> 's log_db \<Rightarrow> path \<Rightarrow> log_chunk \<Rightarrow> ('s, unit) io" where
  "ingest E H D B root chunk =
     (let agent = lc_agent_id chunk; source = lc_source chunk; offset = unat (lc_offset chunk) in
      io_then (io_lift (validate_agent_id agent)) (\<lambda>_.
      io_then (io_lift (ensure (\<not> (source = [] \<or> \<not> list_all log_source_char source)) ''unsafe log source'')) (\<lambda>_.
      io_then (io_lift (with_context ''decode log chunk'' (b64_decode E (lc_data_b64 chunk)))) (\<lambda>data.
      io_then (create_dir_all H (path_join root agent)) (\<lambda>_.
      let p = store_path root agent source in
      io_then (db_open B) (\<lambda>_.
      io_then (db_next_offset B agent source) (\<lambda>row.
      let next = next_offset row in
      io_then (io_lift (ensure (\<not> offset > next) (''log chunk gap for '' @ agent @ ''/'' @ source
        @ '': expected '' @ dec next @ '', got '' @ dec offset))) (\<lambda>_.
      if offset = next then
        io_then (append_chunk D p offset data) (\<lambda>_.
        db_upsert_offset B agent source (u64_as_i64 (sat_add_u64 (of_nat next) (of_nat (length data)))) (display p) (lc_at chunk))
      else io_ok ()))))))))"

end
