(* ===== verification/StatusCache.thy ===== *)
theory StatusCache
  imports Registry LogShip
begin

text \<open>
  crates/controller/src/status_cache.rs: one refresh of the controller. It reads every agent's
  heartbeat, enters what it reports in the database, takes in the logs that wait in the bucket
  and replaces the status file. How the file's contents are written as JSON is an argument.
\<close>

section \<open>The status file\<close>

record agent_status =
  as_id :: string
  as_hostname :: string
  as_os :: string
  as_version :: string
  as_last_seen_secs :: int
  as_jobs_running :: u32
  as_jobs_finished :: "job_status list"
  as_metrics :: "metrics option"
  as_errors :: "agent_event list"

record status_file =
  sf_updated_at :: int
  sf_interval_secs :: u64
  sf_agents :: "agent_status list"

definition default_path :: "(string \<Rightarrow> string option) \<Rightarrow> path" where
  "default_path var_os = (case var_os ''XDG_RUNTIME_DIR'' of
     Some runtime \<Rightarrow> path_join (PathBuf runtime) ''relay/status.json''
   | None \<Rightarrow> (case (case var_os ''HOME'' of None \<Rightarrow> var_os ''USERPROFILE'' | Some h \<Rightarrow> Some h) of
       Some home \<Rightarrow> path_join (PathBuf home) ''.cache/relay/status.json''
     | None \<Rightarrow> PathBuf ''relay-status.json''))"

section \<open>One refresh\<close>

text \<open>\<open>{:?}\<close> of the kind of an event.\<close>

definition kind_text :: "event_kind \<Rightarrow> string" where
  "kind_text k = (case k of
     Ev_Heartbeat \<Rightarrow> ''Heartbeat'' | Ev_Poll \<Rightarrow> ''Poll'' | Ev_Doorbell \<Rightarrow> ''Doorbell'' | Ev_Response \<Rightarrow> ''Response''
   | Ev_Command \<Rightarrow> ''Command'' | Ev_Transfer \<Rightarrow> ''Transfer'' | Ev_Update \<Rightarrow> ''Update'' | Ev_Collision \<Rightarrow> ''Collision'')"

fun store_events :: "'s sqlite \<Rightarrow> string \<Rightarrow> agent_event list \<Rightarrow> ('s, unit) io" where
  "store_events S agent [] = io_ok ()"
| "store_events S agent (ev # evs) =
     io_then (event S agent (ev_at ev) (kind_text (ev_kind ev)) (ev_message ev)) (\<lambda>_. store_events S agent evs)"

definition seen_now :: "string \<Rightarrow> heartbeat \<Rightarrow> seen_agent" where
  "seen_now agent hb = \<lparr>sa_id = agent, sa_last_seen = hb_at hb, sa_version = Some (hb_agent_version hb),
     sa_binary_sha256 = hb_binary_sha256 hb, sa_platform = Some (hb_os hb)\<rparr>"

definition status_of :: "int \<Rightarrow> heartbeat \<Rightarrow> agent_status" where
  "status_of now hb = \<lparr>as_id = hb_agent_id hb, as_hostname = hb_hostname hb, as_os = hb_os hb,
     as_version = hb_agent_version hb, as_last_seen_secs = sat_sub_i64 now (hb_at hb), as_jobs_running = hb_jobs_running hb,
     as_jobs_finished = hb_jobs_finished hb, as_metrics = hb_metrics hb, as_errors = hb_recent_errors hb\<rparr>"

definition take_heartbeat :: "'s env \<Rightarrow> 's sqlite \<Rightarrow> transport \<Rightarrow> int \<Rightarrow> string \<Rightarrow> ('s, agent_status list) io" where
  "take_heartbeat E S T now agent =
     io_then (read_heartbeat E T agent) (\<lambda>r. case r of
       None \<Rightarrow> io_ok []
     | Some hb \<Rightarrow>
         io_then (store_events S agent (hb_recent_errors hb)) (\<lambda>_.
         io_then (mark_seen S (seen_now agent hb)) (\<lambda>_. io_ok [status_of now hb])))"

fun take_logs :: "'s env \<Rightarrow> 's host \<Rightarrow> 's log_disk \<Rightarrow> 's log_db \<Rightarrow> path \<Rightarrow> transport \<Rightarrow> (string \<times> log_chunk) list \<Rightarrow> ('s, unit) io" where
  "take_logs E H D B root T [] = io_ok ()"
| "take_logs E H D B root T ((key, chunk) # rest) =
     io_then (ingest E H D B root chunk) (\<lambda>_.
     io_then (acknowledge_log_chunk E T key) (\<lambda>_.
     take_logs E H D B root T rest))"

fun take_agents :: "'s env \<Rightarrow> 's host \<Rightarrow> 's log_disk \<Rightarrow> 's log_db \<Rightarrow> 's sqlite \<Rightarrow> path \<Rightarrow> (string \<times> transport) list \<Rightarrow> int
    \<Rightarrow> string list \<Rightarrow> agent_status list \<Rightarrow> ('s, agent_status list) io" where
  "take_agents E H D B S root fleet now [] acc = io_ok acc"
| "take_agents E H D B S root fleet now (agent # rest) acc = (case map_of fleet agent of
     None \<Rightarrow> take_agents E H D B S root fleet now rest acc
   | Some T \<Rightarrow>
       io_then (take_heartbeat E S T now agent) (\<lambda>row.
       io_then (pending_log_chunks E T agent) (\<lambda>chunks.
       io_then (take_logs E H D B root T chunks) (\<lambda>_.
       take_agents E H D B S root fleet now rest (acc @ row)))))"

definition refresh :: "'s env \<Rightarrow> 's host \<Rightarrow> 's log_disk \<Rightarrow> 's log_db \<Rightarrow> 's sqlite \<Rightarrow> (status_file \<Rightarrow> bytes res) \<Rightarrow> path
    \<Rightarrow> (string \<times> transport) list \<Rightarrow> string list \<Rightarrow> path \<Rightarrow> u64 \<Rightarrow> ('s, unit) io" where
  "refresh E H D B S encode root fleet allowed p interval_secs =
     io_then (now_unix E) (\<lambda>now.
     io_then (take_agents E H D B S root fleet now allowed []) (\<lambda>rows.
     let status = \<lparr>sf_updated_at = now, sf_interval_secs = interval_secs, sf_agents = sort_key as_id rows\<rparr> in
     io_then (case parent p of None \<Rightarrow> io_ok () | Some d \<Rightarrow> create_dir_all H d) (\<lambda>_.
     let tmp = with_extension p ''tmp'' in
     io_then (io_lift (encode status)) (\<lambda>b.
     io_then (io_context ''write status cache'' (fs_write H tmp b)) (\<lambda>_.
     io_context ''install status cache'' (rename_path H tmp p))))))"

end
