(* ===== verification/Startup.thy ===== *)
theory Startup
  imports Publishing AgentLoop Metrics StatusCache "HOL-Library.Multiset"
begin

text \<open>
  What the two programs do before they serve: crates/agent/src/main.rs and
  crates/controller/src/main.rs, \<open>main\<close>. The settings, with their bounds, the transport of the
  agent, the fleet of the controller, and which of the background tasks run. The tasks themselves
  are AgentLoop, LogShip, Publishing and StatusCache; starting them, logging and the MCP server are
  left to the libraries.
\<close>

section \<open>Switches and transports\<close>

text \<open>A setting that is on unless it says no.\<close>

definition on_unless_no :: "(string \<Rightarrow> string option) \<Rightarrow> string \<Rightarrow> bool" where
  "on_unless_no setting name = (case setting name of None \<Rightarrow> True
     | Some v \<Rightarrow> to_ascii_lowercase v \<notin> {''0'', ''false'', ''no''})"

text \<open>\<open>connect\<close>: what the transport keeps of the settings once they are valid.\<close>

definition connect :: "s3_config \<Rightarrow> crypto \<Rightarrow> transport res" where
  "connect c cr = res_then (s3_validate c) (\<lambda>_. Inr \<lparr>tp_prefix = s3_prefix c, tp_crypto = cr\<rparr>)"

section \<open>The agent\<close>

text \<open>Durations in seconds.\<close>

record agent_settings =
  se_agent_id :: string
  se_job_dir :: path
  se_policy :: policy
  se_poll :: poll_policy
  se_heartbeat_secs :: nat
  se_heartbeat_ttl :: int
  se_transport :: transport
  se_ship_chunk_bytes :: nat
  se_retention_secs :: u64
  se_max_total_bytes :: u64
  se_cleanup_interval_secs :: nat

definition job_directory :: "(string \<Rightarrow> string option) \<Rightarrow> path" where
  "job_directory setting = PathBuf (or_default ''/var/lib/relay-agent/jobs'' (setting ''AGENT_JOB_DIR''))"

definition heartbeat_settings :: "(string \<Rightarrow> string option) \<Rightarrow> string \<Rightarrow> (nat \<times> int) res" where
  "heartbeat_settings setting invalid =
     res_then (bounded_env setting invalid ''AGENT_HEARTBEAT_SECS'' 15 5 1800) (\<lambda>every.
     res_then (bounded_env setting invalid ''AGENT_HEARTBEAT_TTL_SECS'' 45 10 3600) (\<lambda>ttl.
     res_then (ensure (\<not> ttl < every * 2)
       ''AGENT_HEARTBEAT_TTL_SECS must be at least twice AGENT_HEARTBEAT_SECS'') (\<lambda>_.
     Inr (every, int ttl))))"

definition agent_settings_from :: "'s env \<Rightarrow> 's host \<Rightarrow> (string \<Rightarrow> string option) \<Rightarrow> table option \<Rightarrow> string
    \<Rightarrow> ('s, agent_settings) io" where
  "agent_settings_from E H getenv file invalid =
     (let setting = optional_env getenv file; required = required_env getenv file;
          job_dir = job_directory setting in
      io_then (create_dir_all H job_dir) (\<lambda>_.
      io_then (io_lift (required ''RELAY_AGENT_ID'')) (\<lambda>agent_id.
      io_then (io_lift (validate_agent_id agent_id)) (\<lambda>_.
      io_then (policy_from_env H invalid setting getenv) (\<lambda>pol.
      io_then (io_lift (poll_from_env setting invalid)) (\<lambda>poll.
      io_then (io_context (''create job directory '' @ display job_dir) (create_dir_all H job_dir)) (\<lambda>_.
      io_then (permit_root H job_dir pol) (\<lambda>pol.
      io_lift (
      res_then (heartbeat_settings setting invalid) (\<lambda>(every, ttl).
      res_then (s3_from_env getenv file) (\<lambda>s3.
      res_then (crypto_from_env E setting required) (\<lambda>cr.
      res_then (connect s3 cr) (\<lambda>T.
      res_then (bounded_env setting invalid ''AGENT_JOB_SHIP_CHUNK_BYTES'' 131072 4096 524288) (\<lambda>chunk.
      res_then (bounded_env setting invalid ''AGENT_JOB_RETENTION_DAYS'' 7 1 365) (\<lambda>days.
      res_then (bounded_env setting invalid ''AGENT_JOB_MAX_TOTAL_BYTES'' 1073741824 1048576 (2 ^ 64 - 1)) (\<lambda>bytes.
      res_then (bounded_env setting invalid ''AGENT_JOB_CLEANUP_INTERVAL_SECS'' 21600 300 604800) (\<lambda>interval.
      Inr \<lparr>se_agent_id = agent_id, se_job_dir = job_dir, se_policy = pol, se_poll = poll, se_heartbeat_secs = every,
        se_heartbeat_ttl = ttl, se_transport = T, se_ship_chunk_bytes = chunk,
        se_retention_secs = sat_mul_u64 (of_nat days) 86400, se_max_total_bytes = of_nat bytes,
        se_cleanup_interval_secs = interval\<rparr>)))))))))))))))))"

text \<open>The hash of the running binary, where it can be read.\<close>

definition running_sha256 :: "'s env \<Rightarrow> 's host \<Rightarrow> 's updater \<Rightarrow> ('s, string option) waiting_io" where
  "running_sha256 E H U =
     w_then (w_attempt (w_io (up_current_exe U))) (\<lambda>exe. case exe of
       Inl _ \<Rightarrow> w_io (io_ok None)
     | Inr p \<Rightarrow> w_then (w_attempt (file_sha256 E H p)) (\<lambda>r.
         w_io (io_ok (case r of Inl _ \<Rightarrow> None | Inr sha \<Rightarrow> Some sha))))"

text \<open>What is handed to the tasks: the identity of the heartbeat, and how often updates are looked for.\<close>

record agent_tasks =
  at_settings :: agent_settings
  at_collector :: collector
  at_identity :: identity
  at_update_every :: "nat option"

definition agent_setup :: "'s env \<Rightarrow> 's host \<Rightarrow> 's gauges \<Rightarrow> 's updater \<Rightarrow> (string \<Rightarrow> string option) \<Rightarrow> table option
    \<Rightarrow> string \<Rightarrow> ('s, agent_tasks) waiting_io" where
  "agent_setup E H G U getenv file invalid =
     (let setting = optional_env getenv file in
      w_then (w_io (agent_settings_from E H getenv file invalid)) (\<lambda>se.
      w_then (w_io (\<lambda>s. (Inr (collector_new G (se_job_dir se) (on_unless_no setting ''AGENT_GPU_METRICS'') s), s))) (\<lambda>c.
      w_then (running_sha256 E H U) (\<lambda>sha.
      w_then (w_io (new_transfer_id E)) (\<lambda>instance.
      w_then (w_io (now_unix E)) (\<lambda>started.
      w_io (io_lift (
      res_then (if on_unless_no setting ''AGENT_AUTO_UPDATE''
          then res_then (bounded_env setting invalid ''AGENT_UPDATE_CHECK_SECS'' 300 60 86400) (\<lambda>n. Inr (Some n))
          else Inr None) (\<lambda>every.
      Inr \<lparr>at_settings = se, at_collector = c,
        at_identity = \<lparr>id_agent_id = se_agent_id se, id_instance = instance, id_started_at = started,
          id_ttl_secs = se_heartbeat_ttl se, id_binary_sha256 = sha\<rparr>,
        at_update_every = every\<rparr>)))))))))"

text \<open>
  The end: the heartbeat is taken back, as far as that works, and an update leaves the exit code
  that makes the supervisor start the new binary.
\<close>

datatype exit = Exit_success | Exit_code int

definition agent_end :: "'s env \<Rightarrow> transport \<Rightarrow> string \<Rightarrow> shutdown \<Rightarrow> 's \<Rightarrow> exit \<times> 's" where
  "agent_end E T agent_id result s = (case delete_heartbeat E T agent_id s of (_, s') \<Rightarrow>
     ((case result of Shutdown_Signal \<Rightarrow> Exit_success | Shutdown_Updated _ \<Rightarrow> Exit_code EXIT_UPDATED), s'))"

section \<open>The controller\<close>

definition config_path :: "(string \<Rightarrow> string option) \<Rightarrow> string \<Rightarrow> path" where
  "config_path getenv role = (case getenv ''RELAY_CONFIG'' of
     Some p \<Rightarrow> PathBuf p
   | None \<Rightarrow> path_join (path_join (path_join
       (case (case getenv ''HOME'' of None \<Rightarrow> getenv ''USERPROFILE'' | Some h \<Rightarrow> Some h) of
          Some home \<Rightarrow> PathBuf home | None \<Rightarrow> PathBuf ''.'') ''.config'') ''relay'') (role @ ''.toml''))"

definition registry_default_path :: "(string \<Rightarrow> string option) \<Rightarrow> path" where
  "registry_default_path getenv =
     (case Option.bind (map_option PathBuf (getenv ''RELAY_CONFIG'')) parent of
        Some d \<Rightarrow> path_join d ''controller.db''
      | None \<Rightarrow> with_extension (config_path getenv ''controller'') ''db'')"

text \<open>
  \<open>registry_open\<close> and \<open>log_store_new\<close>: \<open>create p\<close> opens the file of the database and creates the
  tables that are missing.
\<close>

definition registry_open :: "'s host \<Rightarrow> (path \<Rightarrow> ('s, unit) io) \<Rightarrow> path \<Rightarrow> ('s, unit) io" where
  "registry_open H create p = io_then (case parent p of None \<Rightarrow> io_ok () | Some d \<Rightarrow> create_dir_all H d) (\<lambda>_. create p)"

definition log_store_new :: "'s host \<Rightarrow> (path \<Rightarrow> ('s, unit) io) \<Rightarrow> path \<Rightarrow> path \<Rightarrow> ('s, unit) io" where
  "log_store_new H create root db = io_then (create_dir_all H root) (\<lambda>_. create db)"

fun legacy_fleet :: "s3_config \<Rightarrow> crypto \<Rightarrow> string list \<Rightarrow> fleet \<Rightarrow> fleet res" where
  "legacy_fleet s3 cr [] m = Inr m"
| "legacy_fleet s3 cr (a # as) m =
     res_then (validate_agent_id a) (\<lambda>_.
     res_then (connect s3 cr) (\<lambda>T. legacy_fleet s3 cr as (AList.update a T m)))"

fun paired_fleet :: "'z libs_scheme \<Rightarrow> s3_config \<Rightarrow> string \<Rightarrow> enrolled_key list \<Rightarrow> fleet \<Rightarrow> fleet res" where
  "paired_fleet E s3 private [] m = Inr m"
| "paired_fleet E s3 private (k # ks) m =
     res_then (validate_agent_id (ak_id k)) (\<lambda>_.
     res_then (derive_key E private (ak_public_key k) (ak_id k)) (\<lambda>shared.
     res_then (from_base64 E shared PAIRED_KEY_ID) (\<lambda>cr.
     res_then (connect s3 cr) (\<lambda>T. paired_fleet E s3 private ks (AList.update (ak_id k) T m)))))"

definition controller_fleet :: "'s env \<Rightarrow> 's sqlite \<Rightarrow> (string list \<Rightarrow> string list) \<Rightarrow> (string \<Rightarrow> string option)
    \<Rightarrow> (string \<Rightarrow> string res) \<Rightarrow> s3_config \<Rightarrow> ('s, fleet) io" where
  "controller_fleet E S order setting required s3 =
     io_then (agents S) (\<lambda>paired. io_lift
       (if paired = [] then
          res_then (with_context ''no paired agents; legacy RELAY_SHARED_KEY is required''
            (crypto_from_env E setting required)) (\<lambda>cr.
          legacy_fleet s3 cr (order (remdups (comma_list (or_default [] (setting ''CONTROL_ALLOWED_AGENTS''))))) [])
        else
          res_then (required ''CONTROL_PRIVATE_KEY'') (\<lambda>private. paired_fleet E s3 private paired [])))"

text \<open>The iteration order of a hash map is \<open>order\<close> of its keys.\<close>

definition in_order :: "(string list \<Rightarrow> string list) \<Rightarrow> fleet \<Rightarrow> fleet" where
  "in_order order m = List.map_filter (\<lambda>a. map_option (Pair a) (map_of m a)) (order (map fst m))"

definition controller_limits :: "(string \<Rightarrow> string option) \<Rightarrow> string \<Rightarrow> fleet \<Rightarrow> controller res" where
  "controller_limits setting invalid fleet =
     (let bounded = bounded_env setting invalid in
      res_then (bounded ''CONTROL_QUEUE_TTL_SECS'' 120 1 3600) (\<lambda>queue.
      res_then (bounded ''CONTROL_MAX_EXEC_SECS'' 300 1 3600) (\<lambda>exec.
      res_then (bounded ''CONTROL_MAX_WAIT_SECS'' 430 10 7200) (\<lambda>wait.
      res_then (bounded ''CONTROL_MAX_TRANSFER_SECS'' 1800 10 86400) (\<lambda>transfer.
      res_then (bounded ''CONTROL_SHARE_RETENTION_DAYS'' 7 0 3650) (\<lambda>days.
      res_then (bounded ''CONTROL_POLL_MS'' 200 100 60000) (\<lambda>poll.
      Inr \<lparr>ct_transports = fleet, ct_allowed_agents = map fst fleet, ct_queue_ttl_secs = of_nat queue,
        ct_max_exec_secs = of_nat exec, ct_max_wait_secs = of_nat wait, ct_max_transfer_secs = of_nat transfer,
        ct_share_retention_days = of_nat days, ct_poll_interval = poll\<rparr>)))))))"

text \<open>
  The controller and its tasks: where the status file is and how often it is written, the window
  within which an agent counts, how often is cleaned, and which repository is followed how often.
\<close>

record controller_tasks =
  cs_controller :: controller
  cs_database :: path
  cs_status :: "(path \<times> path \<times> nat) option"
  cs_seen_window_secs :: u64
  cs_cleanup_secs :: "nat option"
  cs_publish :: "(string \<times> nat) option"

definition status_task :: "'s host \<Rightarrow> (path \<Rightarrow> ('s, unit) io) \<Rightarrow> (string \<Rightarrow> string option) \<Rightarrow> (string \<Rightarrow> string option)
    \<Rightarrow> string \<Rightarrow> path \<Rightarrow> ('s, (path \<times> path \<times> nat) option) io" where
  "status_task H create getenv setting invalid db =
     io_then (io_lift (bounded_env setting invalid ''RELAY_STATUS_INTERVAL_SECS'' 30 0 3600)) (\<lambda>interval.
     if interval = 0 then io_ok None
     else
       let p = (case setting ''RELAY_STATUS_FILE'' of None \<Rightarrow> default_path getenv | Some v \<Rightarrow> PathBuf v);
           log_dir = (case setting ''CONTROL_LOG_DIR'' of Some v \<Rightarrow> PathBuf v
             | None \<Rightarrow> path_join (case parent db of None \<Rightarrow> PathBuf ''.'' | Some d \<Rightarrow> d) ''logs'') in
       io_then (log_store_new H create log_dir db) (\<lambda>_. io_ok (Some (p, log_dir, interval))))"

definition background_tasks :: "(string \<Rightarrow> string option) \<Rightarrow> string \<Rightarrow> (u64 \<times> nat option \<times> (string \<times> nat) option) res" where
  "background_tasks setting invalid =
     res_then (bounded_env setting invalid ''CONTROL_UPDATE_SEEN_DAYS'' 3 1 365) (\<lambda>days.
     res_then (if on_unless_no setting ''CONTROL_AUTO_CLEANUP''
       then res_then (bounded_env setting invalid ''CONTROL_CLEANUP_CHECK_SECS'' 300 30 86400) (\<lambda>n. Inr (Some n))
       else Inr None) (\<lambda>cleanup.
     res_then (case setting ''CONTROL_AUTO_PUBLISH_REPO'' of None \<Rightarrow> Inr None
       | Some repo \<Rightarrow>
           res_then (validate_repo repo) (\<lambda>_.
           res_then (bounded_env setting invalid ''CONTROL_AUTO_PUBLISH_CHECK_SECS'' 3600 300 604800) (\<lambda>n.
           Inr (Some (repo, n))))) (\<lambda>follow.
     Inr (sat_mul_u64 (of_nat days) 86400, cleanup, follow))))"

definition controller_setup :: "'s env \<Rightarrow> 's host \<Rightarrow> 's sqlite \<Rightarrow> (path \<Rightarrow> ('s, unit) io) \<Rightarrow> (path \<Rightarrow> ('s, unit) io)
    \<Rightarrow> (string list \<Rightarrow> string list) \<Rightarrow> (string \<Rightarrow> string option) \<Rightarrow> table option \<Rightarrow> string \<Rightarrow> ('s, controller_tasks) io" where
  "controller_setup E H S create_registry create_logs order getenv file invalid =
     (let setting = optional_env getenv file; required = required_env getenv file in
      io_then (io_lift (s3_from_env getenv file)) (\<lambda>s3.
      let db = (case setting ''CONTROL_DATABASE'' of None \<Rightarrow> registry_default_path getenv | Some v \<Rightarrow> PathBuf v) in
      io_then (registry_open H create_registry db) (\<lambda>_.
      io_then (controller_fleet E S order setting required s3) (\<lambda>m.
      io_then (io_lift (ensure (m \<noteq> []) ''no agents enrolled; run s3-relay-mcp add <pairing-code>'')) (\<lambda>_.
      io_then (io_lift (controller_limits setting invalid (in_order order m))) (\<lambda>C.
      io_then (status_task H create_logs getenv setting invalid db) (\<lambda>status.
      io_then (io_lift (background_tasks setting invalid)) (\<lambda>(window, cleanup, follow).
      io_ok \<lparr>cs_controller = C, cs_database = db, cs_status = status, cs_seen_window_secs = window,
        cs_cleanup_secs = cleanup, cs_publish = follow\<rparr>))))))))"

section \<open>Bounds\<close>

lemma bounded_env_Inr: "bounded_env setting invalid name fallback lo hi = Inr n \<Longrightarrow> lo \<le> n \<and> n \<le> hi"
  by (simp add: bounded_env_def res_then_Inr_iff)

lemma unat_of_nat_u64: "n < 2 ^ 64 \<Longrightarrow> unat (of_nat n :: u64) = n"
  by (simp add: unat_of_nat)

lemma heartbeat_settings_Inr:
  "heartbeat_settings setting invalid = Inr (every, ttl) \<Longrightarrow>
   5 \<le> every \<and> every \<le> 1800 \<and> 2 * int every \<le> ttl \<and> ttl \<le> 3600"
  by (auto simp: heartbeat_settings_def res_then_Inr_iff dest!: bounded_env_Inr)

lemma not_stale_within:
  assumes "now \<le> hb_at hb + n" and "0 \<le> n" and "n \<le> hb_ttl_secs hb"
  shows "\<not> is_stale now hb"
  using assms by (auto simp: is_stale_def sat_sub_i64_def clamp_i64_def i64_bounds)

lemma agent_settings_Inr:
  assumes "agent_settings_from E H getenv file invalid s = (Inr se, s')"
  shows "validate_agent_id (se_agent_id se) = Inr ()
    \<and> heartbeat_settings (optional_env getenv file) invalid = Inr (se_heartbeat_secs se, se_heartbeat_ttl se)
    \<and> (\<exists>s3 cr. s3_from_env getenv file = Inr s3 \<and> connect s3 cr = Inr (se_transport se)
        \<and> crypto_from_env E (optional_env getenv file) (required_env getenv file) = Inr cr)
    \<and> 4096 \<le> se_ship_chunk_bytes se \<and> se_ship_chunk_bytes se \<le> 524288"
  using assms
  by (auto simp: agent_settings_from_def Let_def io_then_Inr res_then_Inr_iff dest!: bounded_env_Inr)

lemma agent_settings_id:
  "agent_settings_from E H getenv file invalid s = (Inr se, s') \<Longrightarrow>
   required_env getenv file ''RELAY_AGENT_ID'' = Inr (se_agent_id se)"
  by (auto simp: agent_settings_from_def Let_def io_then_Inr res_then_Inr_iff)

lemma agent_setup_Inr:
  assumes "agent_setup E H G U getenv file invalid s = Some (Inr tasks, s')"
  shows "(\<exists>s1. agent_settings_from E H getenv file invalid s = (Inr (at_settings tasks), s1))
    \<and> id_agent_id (at_identity tasks) = se_agent_id (at_settings tasks)
    \<and> id_ttl_secs (at_identity tasks) = se_heartbeat_ttl (at_settings tasks)
    \<and> (\<forall>n. at_update_every tasks = Some n \<longrightarrow> 60 \<le> n \<and> n \<le> 86400)"
  using assms
  by (auto simp: agent_setup_def Let_def w_then_Inr res_then_Inr_iff dest!: bounded_env_Inr split: if_splits)

section \<open>The fleet\<close>

lemma connect_Inr: "connect s3 cr = Inr T \<longleftrightarrow> s3_validate s3 = Inr () \<and> T = \<lparr>tp_prefix = s3_prefix s3, tp_crypto = cr\<rparr>"
  by (auto simp: connect_def res_then_Inr_iff)

text \<open>The transport of an agent that is enrolled.\<close>

definition paired_transport :: "'z libs_scheme \<Rightarrow> s3_config \<Rightarrow> string \<Rightarrow> enrolled_key \<Rightarrow> transport res" where
  "paired_transport E s3 private k =
     res_then (validate_agent_id (ak_id k)) (\<lambda>_.
     res_then (derive_key E private (ak_public_key k) (ak_id k)) (\<lambda>shared.
     res_then (from_base64 E shared PAIRED_KEY_ID) (\<lambda>cr. connect s3 cr)))"

lemma paired_fleet_Cons:
  "paired_fleet E s3 private (k # ks) m = Inr out \<longleftrightarrow>
     (\<exists>T. paired_transport E s3 private k = Inr T \<and> paired_fleet E s3 private ks (AList.update (ak_id k) T m) = Inr out)"
  by (auto simp: paired_transport_def res_then_Inr_iff)

lemma paired_fleet_Inr:
  assumes "paired_fleet E s3 private ks m = Inr out" and "distinct (map ak_id ks)" and "distinct (map fst m)"
  shows "fst ` set out = fst ` set m \<union> ak_id ` set ks \<and> distinct (map fst out)
    \<and> (\<forall>a. a \<notin> ak_id ` set ks \<longrightarrow> map_of out a = map_of m a)
    \<and> (\<forall>k \<in> set ks. \<exists>T. map_of out (ak_id k) = Some T \<and> paired_transport E s3 private k = Inr T)"
  using assms
proof (induction ks arbitrary: m)
  case Nil
  then show ?case by simp
next
  case (Cons k ks)
  from Cons.prems(1) obtain T where T: "paired_transport E s3 private k = Inr T"
    and rest: "paired_fleet E s3 private ks (AList.update (ak_id k) T m) = Inr out"
    unfolding paired_fleet_Cons by blast
  have IH: "fst ` set out = fst ` set (AList.update (ak_id k) T m) \<union> ak_id ` set ks \<and> distinct (map fst out)
    \<and> (\<forall>a. a \<notin> ak_id ` set ks \<longrightarrow> map_of out a = map_of (AList.update (ak_id k) T m) a)
    \<and> (\<forall>k' \<in> set ks. \<exists>T'. map_of out (ak_id k') = Some T' \<and> paired_transport E s3 private k' = Inr T')"
    using Cons.prems(2) by (intro Cons.IH [OF rest _ distinct_update [OF Cons.prems(3)]]) simp
  moreover have "map_of out (ak_id k) = Some T"
    using IH Cons.prems(2) by (simp add: update_conv')
  ultimately show ?case using T by (auto simp: dom_update update_conv')
qed

lemma legacy_fleet_Inr:
  assumes "legacy_fleet s3 cr as m = Inr out" and "distinct (map fst m)"
  shows "fst ` set out = fst ` set m \<union> set as \<and> distinct (map fst out)
    \<and> (\<forall>a \<in> set as. validate_agent_id a = Inr ())"
  using assms
proof (induction as arbitrary: m)
  case (Cons a as)
  then obtain T where "validate_agent_id a = Inr ()" "legacy_fleet s3 cr as (AList.update a T m) = Inr out"
    by (auto simp: res_then_Inr_iff)
  with Cons.IH [OF this(2) distinct_update [OF Cons.prems(2)]] show ?case
    by (auto simp: dom_update)
qed simp

lemma in_order_facts:
  assumes "distinct (map fst m)" and "\<And>xs. mset (order xs) = mset xs"
  shows "map fst (in_order order m) = order (map fst m)" "map_of (in_order order m) = map_of m"
    "distinct (map fst (in_order order m))"
proof -
  have set: "set (order (map fst m)) = fst ` set m" using assms(2) by (metis list.set_map mset_eq_setD)
  have "map fst (List.map_filter (\<lambda>a. map_option (Pair a) (map_of m a)) xs) = xs" if "set xs \<subseteq> fst ` set m" for xs
    using that by (induction xs) (auto simp: List.map_filter_simps map_of_eq_None_iff split: option.splits)
  then show keys: "map fst (in_order order m) = order (map fst m)" using set by (simp add: in_order_def)
  show "map_of (in_order order m) = map_of m"
  proof
    have look: "map_of (List.map_filter (\<lambda>a. map_option (Pair a) (map_of m a)) xs) a =
        (if a \<in> set xs then map_of m a else None)" for xs a
      by (induction xs) (auto simp: List.map_filter_simps split: option.splits)
    show "map_of (in_order order m) a = map_of m a" for a
      by (simp add: in_order_def look set) (metis image_eqI map_of_eq_None_iff)
  qed
  show "distinct (map fst (in_order order m))"
    using keys assms by (metis mset_eq_imp_distinct_iff)
qed

lemma agents_rows:
  assumes "database S tables_of" and "agents S s = (Inr ks, s')"
  shows "set ks = (\<lambda>(a, row). \<lparr>ak_id = a, ak_public_key = ar_public_key row\<rparr>) ` set (rg_agents (tables_of s))
    \<and> (registry_ok (tables_of s) \<longrightarrow> distinct (map ak_id ks))"
proof -
  from assms(2) obtain r where q: "sql_query S s = (Inr r, s')"
    and ks: "ks = sort_key ak_id (map (\<lambda>(a, row). \<lparr>ak_id = a, ak_public_key = ar_public_key row\<rparr>) (rg_agents r))"
    by (auto simp: agents_def io_then_Inr)
  have "r = tables_of s" by (rule database.query_ok [OF assms(1) q])
  moreover have "map ak_id (map (\<lambda>(a, row). \<lparr>ak_id = a, ak_public_key = ar_public_key row\<rparr>) (rg_agents r)) = map fst (rg_agents r)"
    by auto
  ultimately show ?thesis
    using ks unfolding registry_ok_def
    by (metis (no_types, lifting) distinct_map distinct_sort set_map set_sort)
qed

text \<open>Every agent of the fleet is there once and has a valid name; an enrolled one has its own key.\<close>

lemma controller_fleet_Inr:
  assumes "database S tables_of" and "registry_ok (tables_of s)"
    and "controller_fleet E S order setting required s3 s = (Inr m, s')" and "\<And>xs. mset (order xs) = mset xs"
  shows "distinct (map fst m) \<and> (\<forall>a \<in> fst ` set m. validate_agent_id a = Inr ())
    \<and> (\<forall>a row. (a, row) \<in> set (rg_agents (tables_of s)) \<longrightarrow> (\<exists>private T. required ''CONTROL_PRIVATE_KEY'' = Inr private
          \<and> map_of m a = Some T
          \<and> paired_transport E s3 private \<lparr>ak_id = a, ak_public_key = ar_public_key row\<rparr> = Inr T))"
proof -
  from assms(3) obtain ks where ks: "agents S s = (Inr ks, s')"
    and fleet: "(if ks = [] then
          res_then (with_context ''no paired agents; legacy RELAY_SHARED_KEY is required'' (crypto_from_env E setting required)) (\<lambda>cr.
          legacy_fleet s3 cr (order (remdups (comma_list (or_default [] (setting ''CONTROL_ALLOWED_AGENTS''))))) [])
        else res_then (required ''CONTROL_PRIVATE_KEY'') (\<lambda>private. paired_fleet E s3 private ks [])) = Inr m"
    unfolding controller_fleet_def io_then_Inr io_lift_eq by blast
  note rows = agents_rows [OF assms(1) ks]
  show ?thesis
  proof (cases "ks = []")
    case True
    with fleet obtain cr as where "legacy_fleet s3 cr as [] = Inr m" by (auto simp: res_then_Inr_iff)
    from legacy_fleet_Inr [OF this] True rows show ?thesis by auto
  next
    case False
    with fleet obtain key where key: "required ''CONTROL_PRIVATE_KEY'' = Inr key" "paired_fleet E s3 key ks [] = Inr m"
      by (auto simp: res_then_Inr_iff)
    note f = paired_fleet_Inr [OF key(2)]
    have "distinct (map ak_id ks)" using rows assms(2) by simp
    note f = f [OF this, simplified]
    have "validate_agent_id (ak_id k) = Inr ()" if "k \<in> set ks" for k
      using f that by (auto simp: paired_transport_def res_then_Inr_iff)
    moreover have "\<exists>T. map_of m a = Some T \<and> paired_transport E s3 key \<lparr>ak_id = a, ak_public_key = ar_public_key row\<rparr> = Inr T"
      if "(a, row) \<in> set (rg_agents (tables_of s))" for a row
    proof -
      have "\<lparr>ak_id = a, ak_public_key = ar_public_key row\<rparr> \<in> set ks" using rows that by (auto intro: rev_image_eqI)
      with f show ?thesis by (metis enrolled_key.select_convs(1))
    qed
    ultimately show ?thesis using f key(1) by auto
  qed
qed

lemma controller_limits_Inr:
  assumes "controller_limits setting invalid m = Inr C"
  shows "ct_transports C = m \<and> ct_allowed_agents C = map fst m \<and> 1 \<le> ct_max_exec_secs C
    \<and> unat (ct_max_exec_secs C) \<le> 3600 \<and> 100 \<le> ct_poll_interval C \<and> 10 \<le> unat (ct_max_wait_secs C)
    \<and> unat (ct_queue_ttl_secs C) \<in> {1..3600}"
proof -
  from assms obtain queue exec wait transfer days poll where
    b: "1 \<le> queue" "queue \<le> 3600" "1 \<le> exec" "exec \<le> 3600" "10 \<le> wait" "wait \<le> 7200" "100 \<le> poll"
    and C: "C = \<lparr>ct_transports = m, ct_allowed_agents = map fst m, ct_queue_ttl_secs = of_nat queue,
        ct_max_exec_secs = of_nat exec, ct_max_wait_secs = of_nat wait, ct_max_transfer_secs = of_nat transfer,
        ct_share_retention_days = of_nat days, ct_poll_interval = poll\<rparr>"
    by (auto simp: controller_limits_def Let_def res_then_Inr_iff dest!: bounded_env_Inr)
  have "unat (of_nat queue :: u64) = queue" "unat (of_nat exec :: u64) = exec" "unat (of_nat wait :: u64) = wait"
    using b by (simp_all add: unat_of_nat)
  with b C show ?thesis by (simp add: word_le_nat_alt)
qed

lemma controller_setup_Inr:
  assumes "controller_setup E H S create_registry create_logs order getenv file invalid s = (Inr ct, s')"
  shows "\<exists>s3 db s1 m s2. s3_from_env getenv file = Inr s3 \<and> registry_open H create_registry db s = (Inr (), s1)
    \<and> controller_fleet E S order (optional_env getenv file) (required_env getenv file) s3 s1 = (Inr m, s2)
    \<and> m \<noteq> [] \<and> controller_limits (optional_env getenv file) invalid (in_order order m) = Inr (cs_controller ct)"
  using assms unfolding controller_setup_def Let_def io_then_Inr io_lift_eq io_ok_eq
  by (auto simp: ensure_Inr_iff split: prod.splits) blast+

end
