(* ===== verification/Admin.thy ===== *)
theory Admin
  imports Startup
begin

text \<open>
  crates/agent/src/admin.rs and crates/controller/src/admin.rs, the commands an operator types, and
  the part of crates/common/src/pairing.rs they share: prompts, the file that is readable to its
  owner alone, and replacing the program from a download. The terminal, the toml crate and the
  programs that are run are the fields of \<open>console\<close>.
\<close>

section \<open>The console\<close>

text \<open>
  \<open>cn_ask\<close> shows a prompt, \<open>cn_echo\<close> is the one run of stty, whose failure is ignored, and for echo on
  the line break after it; \<open>cn_quote\<close> writes a TOML string; \<open>cn_registry p\<close> is the connection to the database in the file \<open>p\<close>, which
  \<open>cn_create p\<close> opens and completes. \<open>cn_curl\<close> runs curl and tells whether it succeeded.
\<close>

record 's console =
  cn_print :: "string \<Rightarrow> 's \<Rightarrow> 's"
  cn_ask :: "string \<Rightarrow> ('s, unit) io"
  cn_echo :: "bool \<Rightarrow> 's \<Rightarrow> 's"
  cn_read_line :: "('s, string) io"
  cn_set_mode :: "path \<Rightarrow> nat \<Rightarrow> ('s, unit) io"
  cn_read_to_string :: "path \<Rightarrow> ('s, string) io"
  cn_quote :: "string \<Rightarrow> string"
  cn_parse :: "string \<Rightarrow> table res"
  cn_registry :: "path \<Rightarrow> 's sqlite"
  cn_create :: "path \<Rightarrow> ('s, unit) io"
  cn_curl :: "string list \<Rightarrow> ('s, bool) io"
  cn_current_exe :: "('s, path) io"
  cn_version :: string
  cn_target :: string
  cn_os :: string
  cn_arch :: string
  cn_update_base :: "string option"

definition println :: "'s console \<Rightarrow> string \<Rightarrow> ('s, unit) io" where
  "println C text s = (Inr (), cn_print C text s)"

definition prompt :: "'s console \<Rightarrow> string \<Rightarrow> bool \<Rightarrow> ('s, string) io" where
  "prompt C label secret = io_then (cn_ask C (label @ '': '')) (\<lambda>_ s.
     (case cn_read_line C (if secret then cn_echo C False s else s) of
        (Inl e, s1) \<Rightarrow> (Inl e, s1)
      | (Inr line, s1) \<Rightarrow>
          (res_then (ensure (trim line \<noteq> []) (label @ '' must not be empty'')) (\<lambda>_. Inr (trim line)),
           if secret then cn_echo C True s1 else s1)))"

definition path_present :: "'s host \<Rightarrow> path \<Rightarrow> ('s, bool) io" where
  "path_present H p s = (Inr (path_exists H p s), s)"

section \<open>Shared commands\<close>

text \<open>The emoji of the verification code, in UTF-8.\<close>

definition EMOJI :: "bytes list" where
  "EMOJI = [[0xF0, 0x9F, 0x90, 0x9F], [0xF0, 0x9F, 0x8C, 0xB2], [0xF0, 0x9F, 0x9A, 0x80], [0xF0, 0x9F, 0x94, 0x91],
     [0xF0, 0x9F, 0x90, 0xBC], [0xF0, 0x9F, 0x8D, 0x8B], [0xF0, 0x9F, 0xA7, 0x8A], [0xF0, 0x9F, 0x8C, 0x99],
     [0xF0, 0x9F, 0xA6, 0x8A], [0xE2, 0x9A, 0x99, 0xEF, 0xB8, 0x8F], [0xF0, 0x9F, 0x8C, 0x8A], [0xF0, 0x9F, 0x8D, 0x80],
     [0xF0, 0x9F, 0xA7, 0xAD], [0xF0, 0x9F, 0x94, 0xA5], [0xF0, 0x9F, 0x90, 0x99], [0xE2, 0xAD, 0x90]]"

definition fingerprint :: "'z libs_scheme \<Rightarrow> string \<Rightarrow> string res" where
  "fingerprint E public_key = res_then (b64_decode E (trim public_key)) (\<lambda>raw.
     let digest = sha256 E raw in
     Inr (of_bytes (concat (map (\<lambda>i. EMOJI ! unat (and (digest ! i) 0x0F)) [0..<6]))))"

definition write_private :: "'s host \<Rightarrow> 's console \<Rightarrow> path \<Rightarrow> string \<Rightarrow> ('s, unit) io" where
  "write_private H C p text =
     io_then (case parent p of None \<Rightarrow> io_ok () | Some d \<Rightarrow> create_dir_all H d) (\<lambda>_.
     let tmp = with_extension p ''tmp'' in
     io_then (io_context (''write '' @ display tmp) (fs_write H tmp (as_bytes text))) (\<lambda>_.
     io_then (cn_set_mode C tmp 384) (\<lambda>_.
     io_context (''install '' @ display p) (rename_path H tmp p))))"

definition trim_end_slashes :: "string \<Rightarrow> string" where
  "trim_end_slashes s = rev (dropWhile (\<lambda>c. c = CHR ''/'') (rev s))"

definition replace_program :: "'s host \<Rightarrow> 's console \<Rightarrow> (string \<Rightarrow> string option) \<Rightarrow> string \<Rightarrow> ('s, unit) io" where
  "replace_program H C getenv binary =
     io_then (io_lift (ok_or ''this build has no update source; set RELAY_UPDATE_BASE_URL''
       (case getenv ''RELAY_UPDATE_BASE_URL'' of Some b \<Rightarrow> Some b | None \<Rightarrow> cn_update_base C))) (\<lambda>base.
     let url = trim_end_slashes base @ ''/'' @ binary @ ''-'' @ cn_os C @ ''-'' @ cn_arch C in
     io_then (cn_current_exe C) (\<lambda>current.
     let downloaded = with_extension current ''update'' in
     io_then (io_context ''run curl'' (cn_curl C
       [''-fL'', ''--proto'', ''=https'', ''--tlsv1.2'', ''-o'', display downloaded, url])) (\<lambda>ok.
     io_then (io_lift (ensure ok (''download failed: '' @ url))) (\<lambda>_.
     io_then (cn_set_mode C downloaded 493) (\<lambda>_.
     io_then (io_context ''replace current binary'' (rename_path H downloaded current)) (\<lambda>_.
     println C (''updated '' @ display current @ '' from '' @ url)))))))"

definition text_of_lines :: "string list \<Rightarrow> string" where
  "text_of_lines ls = concat (map (\<lambda>l. l @ [LF]) ls)"

text \<open>The answers about the bucket that both ends ask for.\<close>

record bucket_answers =
  ba_endpoint :: string
  ba_region :: string
  ba_bucket :: string
  ba_access :: string
  ba_secret :: string

definition ask_bucket :: "'s console \<Rightarrow> ('s, bucket_answers) io" where
  "ask_bucket C =
     io_then (prompt C ''RainYun S3 endpoint'' False) (\<lambda>endpoint.
     io_then (prompt C ''RainYun region'' False) (\<lambda>region.
     io_then (prompt C ''RainYun bucket'' False) (\<lambda>bkt.
     io_then (prompt C ''RainYun access key id'' False) (\<lambda>access.
     io_then (prompt C ''RainYun secret access key'' True) (\<lambda>secret.
     io_ok \<lparr>ba_endpoint = endpoint, ba_region = region, ba_bucket = bkt, ba_access = access, ba_secret = secret\<rparr>)))))"

definition bucket_lines :: "(string \<Rightarrow> string) \<Rightarrow> bucket_answers \<Rightarrow> string list" where
  \<open>bucket_lines q b = [''[s3]'', ''endpoint = '' @ q (ba_endpoint b), ''region = '' @ q (ba_region b),
     ''bucket = '' @ q (ba_bucket b), ''prefix = "relay-prod/"'', ''force_path_style = true'',
     ''access_key_id = '' @ q (ba_access b), ''secret_access_key = '' @ q (ba_secret b)]\<close>

section \<open>The agent's commands\<close>

record agent_enrolment =
  ae_bucket :: bucket_answers
  ae_agent_id :: string
  ae_private :: string
  ae_public :: string
  ae_controller_public :: string

definition agent_config_text :: "(string \<Rightarrow> string) \<Rightarrow> agent_enrolment \<Rightarrow> string" where
  "agent_config_text q a = text_of_lines (bucket_lines q (ae_bucket a) @ [[],
     ''[agent]'', ''id = '' @ q (ae_agent_id a), ''private_key = '' @ q (ae_private a),
     ''public_key = '' @ q (ae_public a), ''controller_public_key = '' @ q (ae_controller_public a),
     ''allow_any_path = false'', ''allow_any_program = false'', ''allowed_roots = []'', ''allowed_programs = []'',
     ''job_retention_days = 7'', ''job_max_total_bytes = 1073741824'', ''job_cleanup_interval_secs = 21600'',
     ''job_ship_chunk_bytes = 131072''])"

text \<open>
  The name is asked for before the argument is looked at: \<open>unwrap_or\<close> evaluates its argument.
\<close>

definition agent_enrol :: "'s env \<Rightarrow> 's console \<Rightarrow> string option \<Rightarrow> ('s, agent_enrolment) io" where
  "agent_enrol E C suggested =
     io_then (prompt C ''Agent name'' False) (\<lambda>prompted.
     let agent_id = (case suggested of Some name \<Rightarrow> name | None \<Rightarrow> prompted) in
     io_then (io_lift (validate_agent_id agent_id)) (\<lambda>_.
     io_then (ask_bucket C) (\<lambda>b.
     io_then (prompt C ''Controller public key'' False) (\<lambda>controller_public.
     io_then (generate_keypair E) (\<lambda>(private, public).
     io_then (io_lift (derive_key E private controller_public agent_id)) (\<lambda>_.
     io_ok \<lparr>ae_bucket = b, ae_agent_id = agent_id, ae_private = private, ae_public = public,
       ae_controller_public = controller_public\<rparr>))))))"

definition agent_init :: "'s env \<Rightarrow> 's host \<Rightarrow> 's console \<Rightarrow> (string \<Rightarrow> string option) \<Rightarrow> string option
    \<Rightarrow> ('s, agent_enrolment \<times> string) io" where
  "agent_init E H C getenv suggested =
     (let p = config_path getenv ''agent'' in
      io_then (path_present H p) (\<lambda>present.
      io_then (io_lift (ensure (\<not> present) (display p @ '' already exists; use reset first''))) (\<lambda>_.
      io_then (agent_enrol E C suggested) (\<lambda>a.
      io_then (write_private H C p (agent_config_text (cn_quote C) a)) (\<lambda>_.
      io_then (io_lift (encode_enrollment E (ae_agent_id a) (ae_public a))) (\<lambda>code.
      io_then (println C (''wrote '' @ display p @ '' (owner-only)'')) (\<lambda>_.
      io_then (io_lift (fingerprint E (ae_public a))) (\<lambda>f.
      io_then (println C (''verification: '' @ f)) (\<lambda>_.
      io_then (println C (''On the controller run:'' @ [LF] @ ''  s3-relay-mcp add '' @ code)) (\<lambda>_.
      io_ok (a, code)))))))))))"

definition agent_reset :: "'s host \<Rightarrow> 's console \<Rightarrow> (string \<Rightarrow> string option) \<Rightarrow> ('s, unit) io" where
  "agent_reset H C getenv =
     (let p = config_path getenv ''agent'' in
      io_then (prompt C ''Type RESET to delete the agent identity'' False) (\<lambda>confirm.
      io_then (io_lift (ensure (confirm = ''RESET'') ''reset cancelled'')) (\<lambda>_.
      io_then (path_present H p) (\<lambda>present.
      io_then (if present then io_context (''remove '' @ display p) (remove_file H p) else io_ok ()) (\<lambda>_.
      println C ''agent identity reset'')))))"

definition read_table :: "'s console \<Rightarrow> path \<Rightarrow> ('s, table) io" where
  "read_table C p = io_then (cn_read_to_string C p) (\<lambda>text. io_lift (cn_parse C text))"

definition section_text :: "table \<Rightarrow> string \<Rightarrow> string \<Rightarrow> string option" where
  "section_text t section field = Option.bind (Option.bind (map_of t section) as_table)
     (\<lambda>fields. Option.bind (map_of fields field) as_str)"

definition agent_status_line :: "'s host \<Rightarrow> 's console \<Rightarrow> (string \<Rightarrow> string option) \<Rightarrow> ('s, unit) io" where
  "agent_status_line H C getenv =
     (let p = config_path getenv ''agent'' in
      io_then (path_present H p) (\<lambda>present.
      if \<not> present then println C (''not initialized ('' @ display p @ '')'')
      else io_then (read_table C p) (\<lambda>t.
        println C (''agent='' @ or_default ''unknown'' (section_text t ''agent'' ''id'') @ '' config='' @ display p
          @ '' initialized=yes''))))"

definition agent_admin :: "'s env \<Rightarrow> 's host \<Rightarrow> 's console \<Rightarrow> (string \<Rightarrow> string option) \<Rightarrow> string list \<Rightarrow> ('s, bool) io" where
  "agent_admin E H C getenv args = (case args of [] \<Rightarrow> io_ok False
   | cmd # rest \<Rightarrow> io_then
      (if cmd = ''init'' then io_then (agent_init E H C getenv (case rest of [] \<Rightarrow> None | n # _ \<Rightarrow> Some n)) (\<lambda>_. io_ok ())
       else if cmd = ''reset'' then agent_reset H C getenv
       else if cmd = ''status'' then agent_status_line H C getenv
       else if cmd = ''update'' then replace_program H C getenv ''relay-agent''
       else if cmd \<in> {''--version'', ''-V'', ''version''}
         then println C (''relay-agent '' @ cn_version C @ '' ('' @ cn_target C @ '')'')
       else if cmd \<in> {''-h'', ''--help'', ''help''}
         then println C (''relay-agent [init [name] | reset | status | update | version]'' @ [LF]
           @ ''Run without arguments to start the agent.'')
       else io_lift (bail (''unknown command '' @ cmd
         @ ''; use init, reset, status, update, version, or run without arguments''))) (\<lambda>_. io_ok True))"

section \<open>The controller's commands\<close>

record controller_enrolment =
  ce_bucket :: bucket_answers
  ce_private :: string
  ce_public :: string
  ce_database :: path
  ce_log_dir :: path

definition log_dir_beside :: "path \<Rightarrow> path" where
  "log_dir_beside p = path_join (case parent p of None \<Rightarrow> PathBuf ''.'' | Some d \<Rightarrow> d) ''logs''"

definition controller_config_text :: "(string \<Rightarrow> string) \<Rightarrow> controller_enrolment \<Rightarrow> string" where
  "controller_config_text q c = text_of_lines (bucket_lines q (ce_bucket c) @ [[],
     ''[controller]'', ''private_key = '' @ q (ce_private c), ''public_key = '' @ q (ce_public c),
     ''database = '' @ q (display (ce_database c)), ''log_dir = '' @ q (display (ce_log_dir c)),
     ''queue_ttl_secs = 120'', ''max_exec_secs = 300'', ''max_wait_secs = 430'', ''max_transfer_secs = 1800'',
     ''poll_ms = 200''])"

definition controller_init :: "'s env \<Rightarrow> 's host \<Rightarrow> 's console \<Rightarrow> (string \<Rightarrow> string option) \<Rightarrow> ('s, controller_enrolment) io" where
  "controller_init E H C getenv =
     (let p = config_path getenv ''controller'' in
      io_then (path_present H p) (\<lambda>present.
      io_then (io_lift (ensure (\<not> present) (display p @ '' already exists; use reset first''))) (\<lambda>_.
      io_then (ask_bucket C) (\<lambda>b.
      io_then (generate_keypair E) (\<lambda>(private, public).
      let c = \<lparr>ce_bucket = b, ce_private = private, ce_public = public, ce_database = with_extension p ''db'',
        ce_log_dir = log_dir_beside p\<rparr> in
      io_then (write_private H C p (controller_config_text (cn_quote C) c)) (\<lambda>_.
      io_then (registry_open H (cn_create C) (ce_database c)) (\<lambda>_.
      io_then (println C (''wrote '' @ display p @ '' (owner-only)'')) (\<lambda>_.
      io_then (println C (''Controller public key (enter this during agent init):'' @ [LF] @ public)) (\<lambda>_.
      io_then (io_lift (fingerprint E public)) (\<lambda>f.
      io_then (println C (''verification: '' @ f)) (\<lambda>_.
      io_ok c)))))))))))"

text \<open>The private key, the database and the directory of the logs, from the controller's file.\<close>

definition controller_table :: "(string \<Rightarrow> string option) \<Rightarrow> table \<Rightarrow> (string \<times> path \<times> path) res" where
  "controller_table getenv t =
     res_then (ok_or ''missing [controller]'' (Option.bind (map_of t ''controller'') as_table)) (\<lambda>_.
     res_then (ok_or ''missing controller.private_key'' (section_text t ''controller'' ''private_key'')) (\<lambda>private.
     let db = (case section_text t ''controller'' ''database'' of
         None \<Rightarrow> registry_default_path getenv | Some d \<Rightarrow> PathBuf d);
       logs = (case section_text t ''controller'' ''log_dir'' of None \<Rightarrow> log_dir_beside db | Some d \<Rightarrow> PathBuf d) in
     Inr (private, db, logs)))"

definition controller_paths :: "'s console \<Rightarrow> (string \<Rightarrow> string option) \<Rightarrow> ('s, string \<times> path \<times> path) io" where
  "controller_paths C getenv = io_then (read_table C (config_path getenv ''controller'')) (\<lambda>t.
     io_lift (controller_table getenv t))"

definition report_added :: "'s env \<Rightarrow> 's console \<Rightarrow> enrollment \<Rightarrow> ('s, unit) io" where
  "report_added E C en =
     io_then (println C (''added agent '' @ enr_agent_id en)) (\<lambda>_.
     io_then (io_lift (fingerprint E (enr_public_key en))) (\<lambda>f.
     io_then (println C (''verification: '' @ f)) (\<lambda>_.
     println C ''Restart the MCP session; the agent will then appear in list_agents.'')))"

definition controller_add :: "'s env \<Rightarrow> 's host \<Rightarrow> 's console \<Rightarrow> (string \<Rightarrow> string option) \<Rightarrow> string \<Rightarrow> ('s, unit) io" where
  "controller_add E H C getenv code =
     io_then (io_lift (decode_enrollment E code)) (\<lambda>en.
     io_then (controller_paths C getenv) (\<lambda>(private, db, _).
     io_then (io_lift (derive_key E private (enr_public_key en) (enr_agent_id en))) (\<lambda>_.
     io_then (registry_open H (cn_create C) db) (\<lambda>_.
     io_then (add E (cn_registry C db) \<lparr>ak_id = enr_agent_id en, ak_public_key = enr_public_key en\<rparr>) (\<lambda>_.
     report_added E C en)))))"

fun remove_present :: "'s host \<Rightarrow> path list \<Rightarrow> ('s, unit) io" where
  "remove_present H [] = io_ok ()"
| "remove_present H (p # ps) = io_then (path_present H p) (\<lambda>present.
     io_then (if present then remove_file H p else io_ok ()) (\<lambda>_. remove_present H ps))"

definition controller_reset :: "'s host \<Rightarrow> 's console \<Rightarrow> (string \<Rightarrow> string option) \<Rightarrow> ('s, unit) io" where
  "controller_reset H C getenv =
     io_then (io_attempt (controller_paths C getenv)) (\<lambda>r.
     let db = (case r of Inl _ \<Rightarrow> registry_default_path getenv | Inr (_, db, _) \<Rightarrow> db) in
     io_then (prompt C ''Type RESET to delete controller configuration and enrolled nodes'' False) (\<lambda>confirm.
     io_then (io_lift (ensure (confirm = ''RESET'') ''reset cancelled'')) (\<lambda>_.
     io_then (remove_present H [config_path getenv ''controller'', db, PathBuf (display db @ ''-wal''),
       PathBuf (display db @ ''-shm'')]) (\<lambda>_.
     println C ''controller reset''))))"

definition controller_status_line :: "'s host \<Rightarrow> 's console \<Rightarrow> (string \<Rightarrow> string option) \<Rightarrow> ('s, unit) io" where
  "controller_status_line H C getenv =
     (let p = config_path getenv ''controller'' in
      io_then (path_present H p) (\<lambda>present.
      if \<not> present then println C (''not initialized ('' @ display p @ '')'')
      else io_then (controller_paths C getenv) (\<lambda>(_, db, logs).
        io_then (registry_open H (cn_create C) db) (\<lambda>_.
        io_then (agents (cn_registry C db)) (\<lambda>rows.
        println C (''initialized=yes config='' @ display p @ '' database='' @ display db @ '' log_dir='' @ display logs
          @ '' agents='' @ dec (length rows)))))))"

definition controller_admin :: "'s env \<Rightarrow> 's host \<Rightarrow> 's console \<Rightarrow> (string \<Rightarrow> string option) \<Rightarrow> string list \<Rightarrow> ('s, bool) io" where
  "controller_admin E H C getenv args = (case args of [] \<Rightarrow> io_ok False
   | cmd # rest \<Rightarrow> io_then
      (if cmd = ''init'' then io_then (controller_init E H C getenv) (\<lambda>_. io_ok ())
       else if cmd = ''add'' then io_then (io_lift (ok_or ''usage: s3-relay-mcp add <pairing-code>''
           (case rest of [] \<Rightarrow> None | c # _ \<Rightarrow> Some c))) (\<lambda>code. controller_add E H C getenv code)
       else if cmd = ''reset'' then controller_reset H C getenv
       else if cmd = ''status'' then controller_status_line H C getenv
       else if cmd = ''update'' then replace_program H C getenv ''s3-relay-mcp''
       else if cmd \<in> {''-h'', ''--help'', ''help''}
         then println C (''s3-relay-mcp [init | add <pairing-code> | reset | status | update]'' @ [LF]
           @ ''Run without arguments to start the MCP server.'')
       else io_lift (bail (''unknown command '' @ cmd
         @ ''; use init, add, reset, status, update, or run without arguments''))) (\<lambda>_. io_ok True))"

end
