(* ===== verification/Programs.thy ===== *)
theory Programs
  imports Admin
begin

text \<open>
  The two programs from their command line on: crates/agent/src/main.rs and
  crates/controller/src/main.rs, the beginning of \<open>main\<close> and \<open>init_logging\<close>. A command of the operator
  ends the program; without one it reads its configuration file and starts to serve.
\<close>

text \<open>
  \<open>init_config\<close> on the machine: the file is read where it exists. The file's mode, which is only
  warned about, is left out.
\<close>

definition config_file :: "(string \<Rightarrow> string option) \<Rightarrow> string" where
  "config_file getenv = (case getenv ''RELAY_CONFIG'' of None \<Rightarrow> ''relay.toml''
     | Some v \<Rightarrow> if v = [] then ''relay.toml'' else v)"

definition load_config :: "'s host \<Rightarrow> 's console \<Rightarrow> (string \<Rightarrow> string option) \<Rightarrow> ('s, table option) io" where
  "load_config H C getenv s =
     (let p = PathBuf (config_file getenv);
          (text, s') = (if path_exists H p s then cn_read_to_string C p s else (Inl [], s)) in
      (map_sum id (map_option snd)
         (init_config getenv (\<lambda>q. path_exists H (PathBuf q) s) (\<lambda>_. text) (cn_parse C) None), s'))"

text \<open>\<open>init_logging\<close>: \<open>open_log p\<close> opens \<open>p\<close> for appending and creates it where it is missing.\<close>

definition init_logging :: "'s host \<Rightarrow> (path \<Rightarrow> ('s, unit) io) \<Rightarrow> (string \<Rightarrow> string option) \<Rightarrow> ('s, path option) io" where
  "init_logging H open_log getenv =
     (case getenv ''RELAY_LOG_FILE'' of
        None \<Rightarrow> io_ok None
      | Some v \<Rightarrow> if v = [] then io_ok None
          else let p = PathBuf v in
            io_then (case nonempty_parent p of None \<Rightarrow> io_ok ()
              | Some d \<Rightarrow> io_context (''create log directory '' @ display d) (create_dir_all H d)) (\<lambda>_.
            io_then (io_context (''open log file '' @ display p) (open_log p)) (\<lambda>_. io_ok (Some p))))"

text \<open>\<open>None\<close>: the program was given a command and is done.\<close>

definition agent_program :: "'s env \<Rightarrow> 's host \<Rightarrow> 's console \<Rightarrow> 's gauges \<Rightarrow> 's updater \<Rightarrow> (string \<Rightarrow> string option)
    \<Rightarrow> string list \<Rightarrow> string \<Rightarrow> ('s, agent_tasks option) waiting_io" where
  "agent_program E H C G U getenv args invalid =
     w_then (w_io (agent_admin E H C getenv args)) (\<lambda>handled.
     if handled then w_io (io_ok None)
     else w_then (w_io (load_config H C getenv)) (\<lambda>file.
       w_then (agent_setup E H G U getenv file invalid) (\<lambda>tasks. w_io (io_ok (Some tasks)))))"

text \<open>The connection of the controller is the one to the database that the settings name.\<close>

definition controller_program :: "'s env \<Rightarrow> 's host \<Rightarrow> 's console \<Rightarrow> (path \<Rightarrow> ('s, unit) io) \<Rightarrow> (path \<Rightarrow> ('s, unit) io)
    \<Rightarrow> (string list \<Rightarrow> string list) \<Rightarrow> (string \<Rightarrow> string option) \<Rightarrow> string list \<Rightarrow> string \<Rightarrow> ('s, controller_tasks option) io" where
  "controller_program E H C open_log create_logs order getenv args invalid =
     io_then (controller_admin E H C getenv args) (\<lambda>handled.
     if handled then io_ok None
     else io_then (init_logging H open_log getenv) (\<lambda>_.
       io_then (load_config H C getenv) (\<lambda>file.
       let db = (case optional_env getenv file ''CONTROL_DATABASE'' of
           None \<Rightarrow> registry_default_path getenv | Some v \<Rightarrow> PathBuf v) in
       io_then (controller_setup E H (cn_registry C db) (cn_create C) create_logs order getenv file invalid) (\<lambda>ct.
       io_ok (Some ct)))))"

section \<open>Facts\<close>

lemma map_sum_Inr: "map_sum id f r = Inr y \<longleftrightarrow> (\<exists>x. r = Inr x \<and> y = f x)"
  by (cases r) auto

lemma load_config_Inr:
  assumes "load_config H C getenv s = (Inr (Some t), s')"
  shows "\<exists>text. cn_read_to_string C (PathBuf (config_file getenv)) s = (Inr text, s')
    \<and> cn_parse C text = Inr t \<and> validate_table (config_file getenv) t = Inr ()"
  using assms
  by (auto simp: load_config_def init_config_def config_file_def Let_def map_sum_Inr res_then_Inr_iff with_context_Inr_iff
      split: if_splits prod.splits option.splits)

lemma load_config_None:
  assumes "load_config H C getenv s = (Inr None, s')"
  shows "\<not> path_exists H (PathBuf (config_file getenv)) s"
  using assms
  by (auto simp: load_config_def init_config_def config_file_def Let_def map_sum_Inr res_then_Inr_iff with_context_Inr_iff
      split: if_splits prod.splits option.splits)

lemma load_config_explicit:
  assumes "load_config H C getenv s = (Inr file, s')" and "getenv ''RELAY_CONFIG'' = Some v" and "v \<noteq> []"
  shows "file \<noteq> None"
  using assms
  by (auto simp: load_config_def init_config_def config_file_def Let_def map_sum_Inr res_then_Inr_iff with_context_Inr_iff bail_def
      split: if_splits prod.splits)

lemma agent_program_starts:
  assumes "agent_program E H C G U getenv args invalid s = Some (Inr (Some tasks), s')"
  shows "\<exists>file s1. load_config H C getenv s = (Inr file, s1)
    \<and> agent_setup E H G U getenv file invalid s1 = Some (Inr tasks, s')"
  using assms
  by (auto simp: agent_program_def agent_admin_def w_then_Inr io_then_Inr split: list.splits if_splits)

lemma controller_program_starts:
  assumes "controller_program E H C open_log create_logs order getenv args invalid s = (Inr (Some ct), s')"
  shows "\<exists>log s1 file s2. init_logging H open_log getenv s = (Inr log, s1) \<and> load_config H C getenv s1 = (Inr file, s2)
    \<and> controller_setup E H (cn_registry C (case optional_env getenv file ''CONTROL_DATABASE'' of
           None \<Rightarrow> registry_default_path getenv | Some v \<Rightarrow> PathBuf v)) (cn_create C) create_logs order getenv file invalid s2
      = (Inr ct, s')"
  using assms
  by (auto simp: controller_program_def controller_admin_def io_then_Inr Let_def split: list.splits if_splits)

end
