(* ===== verification/Confinement.thy ===== *)
theory Confinement
  imports Executor
begin

text \<open>
  What the policy gives: the commands that do not run programs change no file outside the
  allowed roots, programs run only as the policy allows, and every command is answered. The
  interface \<open>executing\<close> is what the operating system promises for paths that are canonical: the
  model of files has no links, so a path names one file.
\<close>

section \<open>The interface\<close>

locale executing = machine E view rest H files unread target
  for E :: "'s env" and view :: "'s \<Rightarrow> string \<Rightarrow> bytes option"
    and rest :: "(string \<Rightarrow> bytes option) \<Rightarrow> string \<Rightarrow> string option \<Rightarrow> string list"
    and H :: "'s host" and files :: "'s \<Rightarrow> path \<Rightarrow> bytes option"
    and unread :: "'s \<Rightarrow> nat \<Rightarrow> bytes" and target :: "'s \<Rightarrow> nat \<Rightarrow> path option" +
  fixes N :: "'s node"
  assumes canonicalize_local: "leaves files (canonicalize H p)"
    and len_local: "leaves files (file_len H p)"
    and create_dir_local: "leaves files (create_dir H p)" "leaves files (create_dir_all H p)"
    and remove_dir_local: "leaves files (remove_dir H p)"
    and remove_dir_all_below: "remove_dir_all H p s = (r, s') \<Longrightarrow> \<not> path_starts_with q p \<Longrightarrow> files s' q = files s q"
    and rename_below: "rename_path H p p' s = (r, s') \<Longrightarrow> \<not> path_starts_with q p \<Longrightarrow> \<not> path_starts_with q p' \<Longrightarrow>
      files s' q = files s q"
    and append_ok: "file_append H p s = (Inr h, s') \<Longrightarrow>
      files s' = (files s)(p \<mapsto> case files s p of None \<Rightarrow> [] | Some b \<Rightarrow> b) \<and> target s' h = Some p"
    and append_err: "file_append H p s = (Inl e, s') \<Longrightarrow> q \<noteq> p \<Longrightarrow> files s' q = files s q"
    and read_dir_local: "leaves files (nd_read_dir N p)"
    and job_read_local: "leaves files (nd_job_read N p)"

section \<open>Everything leaves a file alone that is not below the checked path\<close>

lemma leaves_part: "leaves f m \<Longrightarrow> leaves (\<lambda>s. g (f s)) m"
  by (simp add: leaves_def)

lemma leaves_then_result:
  assumes "leaves f m" and "\<And>x s s'. m s = (Inr x, s') \<Longrightarrow> leaves f (g x)"
  shows "leaves f (io_then m g)"
  unfolding leaves_def io_then_def
proof
  fix s
  obtain r s' where m: "m s = (r, s')" by (cases "m s")
  with assms(1) have "f s' = f s" by (auto dest: leavesD)
  then show "f (snd (case m s of (Inl e, s') \<Rightarrow> (Inl e, s') | (Inr x, s') \<Rightarrow> g x s')) = f s"
    using assms(2) [of s _ s'] by (cases r) (simp_all add: m leaves_def)
qed

context chunk_store
begin

lemma fill_files: "files (snd (fill H h room acc s)) = files s"
proof (induction room arbitrary: acc s rule: less_induct)
  case (less room)
  obtain r s1 where r: "file_read H h room s = (r, s1)" by fastforce
  from read_frame [OF r] have s1: "files s1 = files s" .
  show ?case
  proof (cases "room = 0 \<or> (\<exists>e. r = Inl e) \<or> r = Inr []")
    case True
    with r s1 show ?thesis by (subst fill.simps) auto
  next
    case False
    then obtain c where c: "r = Inr c" "c \<noteq> []" by (cases r) auto
    then have "room - length c < room" using False by (cases c) auto
    from less [OF this, of "acc @ c" s1] r c s1 False show ?thesis by (subst fill.simps) simp
  qed
qed

lemma join_next_files: "inflight \<noteq> [] \<Longrightarrow> files (snd (join_next H put inflight s)) = files s"
proof -
  obtain n s1 where n: "schedule H (length inflight) s = (n, s1)" by fastforce
  then have s1: "files s1 = files s" using schedule_frame by blast
  let ?t = "inflight ! (n mod length inflight)"
  obtain r s2 where r: "put (fst ?t) (snd ?t) s1 = (r, s2)" by fastforce
  with put_files s1 n show ?thesis
    by (cases r) (auto simp: join_next_def Let_def io_then_def io_ok_def)
qed

lemma join_while_files: "files (snd (join_while H put limit inflight s)) = files s"
proof (induction "length inflight" arbitrary: inflight s rule: less_induct)
  case less
  show ?case
  proof (cases "inflight = [] \<or> length inflight < limit")
    case True
    then show ?thesis by (subst join_while.simps) auto
  next
    case False
    obtain r s1 where r: "join_next H put inflight s = (r, s1)" by fastforce
    have s1: "files s1 = files s" using join_next_files [of inflight s] r False by simp
    show ?thesis
    proof (cases r)
      case (Inl e)
      with False r s1 show ?thesis by (subst join_while.simps) simp
    next
      case (Inr mid)
      have "length mid < length inflight"
        using join_next_shorter [of mid s1 H put inflight s] r Inr False by simp
      from less [OF this, of s1] False r Inr s1 show ?thesis by (subst join_while.simps) simp
    qed
  qed
qed

lemma upload_loop_files:
  "files (snd (upload_loop H h chunk_size concurrency put hasher chunks sent inflight s)) = files s"
proof (induction "2 ^ 32 - unat chunks" arbitrary: hasher chunks sent inflight s rule: less_induct)
  case less
  obtain r s1 where r: "fill H h chunk_size [] s = (r, s1)" by fastforce
  have s1: "files s1 = files s" using fill_files [of h chunk_size "[]" s] r by simp
  show ?case
  proof (cases "\<exists>buf chunks'. r = Inr buf \<and> \<not> (buf = [] \<and> chunks > 0) \<and> checked_add_u32 chunks 1 = Some chunks'")
    case False
    with r s1 show ?thesis
      by (cases r; cases "checked_add_u32 chunks 1") (subst upload_loop.simps; auto simp: Let_def)+
  next
    case True
    then obtain buf chunks' where buf: "r = Inr buf" "\<not> (buf = [] \<and> chunks > 0)" "checked_add_u32 chunks 1 = Some chunks'"
      by blast
    obtain q s2 where q: "join_while H put concurrency (inflight @ [(chunks, buf)]) s1 = (q, s2)" by fastforce
    have s2: "files s2 = files s" using join_while_files [of concurrency "inflight @ [(chunks, buf)]" s1] q s1 by simp
    show ?thesis
    proof (cases "\<exists>mid. q = Inr mid \<and> \<not> length buf < chunk_size")
      case False
      with r buf q s2 show ?thesis
        by (cases q) (subst upload_loop.simps; auto simp: Let_def)+
    next
      case True
      then obtain mid where mid: "q = Inr mid" "\<not> length buf < chunk_size" by blast
      have "2 ^ 32 - unat chunks' < 2 ^ 32 - unat chunks"
        using unat_checked_add_u32 [OF buf(3)] unat_u32_less [of chunks'] by simp
      from less [OF this] r buf q s1 s2 mid show ?thesis by (subst upload_loop.simps) (simp add: Let_def)
    qed
  qed
qed

lemma upload_chunks_files: "leaves files (upload_chunks E H source chunk_size concurrency put)"
  unfolding upload_chunks_def Let_def
proof (intro leaves_intros)
  show "leaves files (file_open H source)" using open_frame by (auto simp: leaves_def) (metis prod.collapse)
  show "leaves files (upload_loop H h chunk_size c put hasher_new 0 0 [])" for h c
    by (simp add: leaves_def upload_loop_files)
  show "leaves files (join_while H put 1 rest)" for rest by (simp add: leaves_def join_while_files)
qed

end

context machine
begin

lemma transport_disk:
  "leaves disk (list_loop E p fuel t acc)" "leaves disk (delete_each E ks)" "leaves disk (list_keys E p)"
  "leaves disk (delete_blob E T a t')" "leaves disk (delete_share E T n)"
  "leaves disk (put_share_manifest E T m cr)" "leaves disk (read_share_manifest E T n cr)"
proof -
  show l: "leaves disk (list_loop E p fuel t acc)" for p fuel t acc
    by (induction fuel arbitrary: t acc)
      (simp add: leaves_intros, simp only: list_loop.simps, intro leaves_intros list_local)
  show d: "leaves disk (delete_each E ks)" for ks
    by (induction ks)
      (simp add: leaves_intros, simp only: delete_each.simps delete_key_def, intro leaves_intros delete_object_local)
  show k: "leaves disk (list_keys E p)" for p
    unfolding list_keys_def by (rule l)
  show "leaves disk (delete_blob E T a t')" "leaves disk (delete_share E T n)"
    "leaves disk (put_share_manifest E T m cr)" "leaves disk (read_share_manifest E T n cr)"
    unfolding delete_blob_def delete_share_def put_share_manifest_def read_share_manifest_def Let_def
      delete_key_def seal_def put_raw_def get_raw_def
    by (intro leaves_intros d k delete_object_local put_object_local get_object_local random_local)+
qed

lemma stage_file_local: "leaves files (stage_file E H c T a t source)"
  unfolding stage_file_def by (intro leaves_intros blob.upload_chunks_files)

end

lemma temp_sibling_under:
  assumes "path_starts_with p r" and "p \<noteq> r"
  shows "path_starts_with (temp_sibling p) r"
proof (cases "file_name p")
  case None
  with assms(1) show ?thesis by (simp add: temp_sibling_def with_file_name_def path_starts_with_push)
next
  case (Some n)
  have "components r \<noteq> components p"
    using assms by (cases p; cases r) (auto simp: path_starts_with_def)
  with with_file_name_starts [OF Some assms(1)] Some show ?thesis by (simp add: temp_sibling_def)
qed

text \<open>Outside the roots, and not the temporary file a transfer to a root itself makes beside it.\<close>

definition outside :: "policy \<Rightarrow> path \<Rightarrow> bool" where
  "outside pol q \<longleftrightarrow> \<not> po_allow_any_path pol
     \<and> list_all (\<lambda>r. \<not> path_starts_with q r \<and> q \<noteq> temp_sibling r) (po_allowed_roots pol)"

lemma outside_checked:
  assumes "outside pol q" and "within_roots pol p"
  shows "q \<noteq> p" "\<not> path_starts_with q p" "q \<noteq> temp_sibling p"
proof -
  obtain r where r: "r \<in> set (po_allowed_roots pol)" "path_starts_with p r"
    using assms by (auto simp: within_roots_def outside_def list_ex_iff)
  then have q: "\<not> path_starts_with q r" "q \<noteq> temp_sibling r"
    using assms(1) by (auto simp: outside_def list_all_iff)
  show "q \<noteq> p" "\<not> path_starts_with q p" using q(1) r(2) path_starts_with_trans by auto
  show "q \<noteq> temp_sibling p"
    using q r(2) temp_sibling_under [of p r] by (cases "p = r") auto
qed

definition runs_program :: "command_kind \<Rightarrow> bool" where
  "runs_program k = (case k of Exec _ _ _ _ \<Rightarrow> True | StartJob _ _ _ _ _ _ \<Rightarrow> True | _ \<Rightarrow> False)"

context executing
begin

text \<open>The contents of one file, as a part of the state.\<close>

abbreviation at :: "path \<Rightarrow> 's \<Rightarrow> bytes option" where "at q \<equiv> \<lambda>s. files s q"

lemma at_files: "leaves files m \<Longrightarrow> leaves (at q) m"
  by (simp add: leaves_def)

lemma at_disk: "leaves disk m \<Longrightarrow> leaves (at q) m"
  by (simp add: leaves_def)

lemma check_local:
  "leaves files (check_existing_path H pol v)" "leaves files (check_write_path H pol v)"
  "leaves files (prepare_write_path H pol v)"
  by (intro canonicalize_leaves write_path_leaves canonicalize_local create_dir_local)+

lemma open_local: "leaves files (file_open H p)"
  using open_frame unfolding leaves_def by (metis prod.collapse)

lemma remove_file_at: "q \<noteq> p \<Longrightarrow> leaves (at q) (remove_file H p)"
  unfolding leaves_def
proof
  fix s assume "q \<noteq> p"
  then show "files (snd (remove_file H p s)) q = files s q"
    using remove_file_ok [of p s "()" "snd (remove_file H p s)"]
      remove_file_err [of p s _ "snd (remove_file H p s)"] by (cases "remove_file H p s"; cases "fst (remove_file H p s)") auto
qed

text \<open>Opening for writing, writing and flushing touches the file that was opened.\<close>

lemma write_out_at:
  assumes "opener = file_create H p \<or> opener = file_append H p" and "q \<noteq> p"
  shows "leaves (at q) (io_then (io_context c opener) (\<lambda>h.
    io_then (io_context c' (file_write_all H h data)) (\<lambda>_. io_then (file_flush H h) (\<lambda>_. io_ok x))))"
  unfolding leaves_def
proof
  fix s
  obtain o' s1 where o': "opener s = (o', s1)" by fastforce
  show "files (snd (io_then (io_context c opener) (\<lambda>h. io_then (io_context c' (file_write_all H h data))
      (\<lambda>_. io_then (file_flush H h) (\<lambda>_. io_ok x))) s)) q = files s q"
  proof (cases o')
    case (Inl e)
    then have "files s1 q = files s q"
      using o' assms create_err [of p s e s1] append_err [of p s e s1] by auto
    with o' Inl show ?thesis by (simp add: io_then_def io_context_def)
  next
    case (Inr h)
    then obtain old where s1: "files s1 = (files s)(p \<mapsto> old)" "target s1 h = Some p"
      using o' assms create_ok [of p s h s1] append_ok [of p s h s1] by blast
    obtain w s2 where w: "file_write_all H h data s1 = (w, s2)" by fastforce
    obtain fl s3 where fl: "file_flush H h s2 = (fl, s3)" by fastforce
    have "files s2 q = files s1 q"
    proof (cases w)
      case (Inl e)
      with write_err w s1 assms(2) show ?thesis by blast
    next
      case (Inr u)
      have "files s1 p = Some old" using s1 by simp
      from write_ok [OF w [unfolded Inr] s1(2) this] assms(2) show ?thesis by simp
    qed
    moreover have "files s3 = files s2" by (rule flush_ok [OF fl])
    ultimately show ?thesis using o' Inr w fl s1 assms(2)
      by (cases w; cases fl) (auto simp: io_then_def io_context_def io_ok_def)
  qed
qed

lemma assemble_file_at:
  assumes "q \<noteq> dest" and "q \<noteq> temp_sibling dest"
  shows "leaves (at q) (assemble_file E H T a t m dest)"
  unfolding leaves_def
proof
  fix s
  obtain r s' where r: "assemble_file E H T a t m dest s = (r, s')" by fastforce
  show "files (snd (assemble_file E H T a t m dest s)) q = files s q"
  proof (cases r)
    case (Inl e)
    with assemble_file_Inl r assms(2) show ?thesis by simp
  next
    case (Inr w)
    with assemble_file_Inr [of T a t m dest s w s'] r assms show ?thesis by auto
  qed
qed

lemma share_assembled_at:
  assumes "q \<noteq> dest" and "q \<noteq> temp_sibling dest"
  shows "leaves (at q) (io_then (io_attempt (assemble_share E H T m cr (temp_sibling dest))) (\<lambda>r.
     case r of
       Inl e \<Rightarrow> io_then (io_ignore (remove_file H (temp_sibling dest))) (\<lambda>_. io_lift (Inl e))
     | Inr _ \<Rightarrow> io_then (io_context c (rename_path H (temp_sibling dest) dest)) (\<lambda>_. io_ok x)))"
  unfolding leaves_def
proof
  fix s
  let ?temp = "temp_sibling dest"
  obtain r s1 where r: "verified_copy E H (\<lambda>i. get_share_chunk E T (sm_name m) i cr) share_texts (share_copy m) ?temp s
    = (r, s1)" by fastforce
  note kept = share.verified_copy_frame [OF r assms(2)]
  show "files (snd (io_then (io_attempt (assemble_share E H T m cr ?temp)) (\<lambda>r.
     case r of
       Inl e \<Rightarrow> io_then (io_ignore (remove_file H ?temp)) (\<lambda>_. io_lift (Inl e))
     | Inr _ \<Rightarrow> io_then (io_context c (rename_path H ?temp dest)) (\<lambda>_. io_ok x)) s)) q = files s q"
  proof (cases r)
    case (Inl e)
    have "files (snd (remove_file H ?temp s1)) q = files s1 q"
      using remove_file_at [OF assms(2)] by (simp add: leaves_def)
    with r Inl kept show ?thesis
      by (simp add: assemble_share_def io_then_def io_attempt_def io_ignore_def io_lift_def)
  next
    case (Inr w)
    from share.verified_copy_Inr [OF r [unfolded Inr]] obtain b where "files s1 ?temp = Some b" by auto
    moreover obtain y s2 where y: "rename_path H ?temp dest s1 = (y, s2)" by fastforce
    ultimately have "files s2 q = files s1 q"
      using rename_ok [of ?temp dest s1 "()" s2 b] rename_err [of ?temp dest s1 _ s2] temp_sibling_neq [of dest] assms
      by (cases y) auto
    with r Inr kept y show ?thesis
      by (cases y) (simp_all add: assemble_share_def io_then_def io_attempt_def io_context_def io_ok_def)
  qed
qed

lemma write_file_at: "outside pol q \<Longrightarrow> leaves (at q) (write_file E H pol v c e)"
  unfolding write_file_def
  by (intro leaves_then_result [of _ "check_write_path H pol v"] leaves_then [of _ "io_lift r" for r]
      leaves_basic at_files check_local write_out_at)
    (auto dest: outside_checked(1) check_write_confined)

lemma make_dir_at: "leaves (at q) (make_dir H pol v ps)"
proof (rule leaves_at)
  fix s
  have "leaves files (io_then (check_existing_path H pol v) (\<lambda>p s1.
      if path_is_dir H p s1 then (Inr EmptyPayload, s1)
      else (bail (v @ '' already exists and is not a directory''), s1)))"
    by (intro leaves_then check_local) (simp add: leaves_def)
  moreover have "leaves files (io_then (prepare_write_path H pol v) (\<lambda>target.
      io_then (io_context (''create directory '' @ display target)
        (if ps then create_dir_all H target else create_dir H target)) (\<lambda>_. io_ok EmptyPayload)))"
    by (intro leaves_intros check_local create_dir_local)
  ultimately show "\<exists>m. make_dir H pol v ps s = m s \<and> leaves (at q) m"
    unfolding make_dir_def by (cases "path_exists H (PathBuf v) s") (auto intro: at_files)
qed

lemma remove_at:
  assumes "outside pol q"
  shows "leaves (at q) (remove H pol v recursive)"
  unfolding remove_def
proof (rule leaves_then_result [OF at_files [OF check_local(1)]], rule leaves_at)
  fix target s0 s0' s assume "check_existing_path H pol v s0 = (Inr target, s0')"
  note ne = outside_checked [OF assms check_existing_confined [OF this]]
  have "leaves (at q) (remove_dir_all H target)"
    unfolding leaves_def using remove_dir_all_below [OF _ ne(2)] by (metis prod.collapse)
  then have "leaves (at q) (if recursive then remove_dir_all H target else remove_dir H target)"
    using at_files [OF remove_dir_local] by simp
  then have "leaves (at q) (io_then (io_context c (if recursive then remove_dir_all H target else remove_dir H target))
      (\<lambda>_. io_ok EmptyPayload))" for c
    by (intro leaves_then leaves_wrapped leaves_basic)
  moreover have "leaves (at q) (io_then (io_context c (remove_file H target)) (\<lambda>_. io_ok EmptyPayload))" for c
    by (intro leaves_intros remove_file_at ne)
  ultimately show "\<exists>m. (if path_is_dir H target s
      then io_then (io_context (''remove directory '' @ display target)
        (if recursive then remove_dir_all H target else remove_dir H target)) (\<lambda>_. io_ok EmptyPayload) s
      else io_then (io_context (''remove file '' @ display target) (remove_file H target)) (\<lambda>_. io_ok EmptyPayload) s)
    = m s \<and> leaves (at q) m"
    by (cases "path_is_dir H target s") auto
qed

lemma move_path_at:
  assumes "outside pol q"
  shows "leaves (at q) (move_path H pol a b)"
  unfolding move_path_def
proof (rule leaves_then_result [OF at_files [OF check_local(1)]], rule leaves_then_result [OF at_files [OF check_local(3)]])
  fix p s s' p' s1 s1'
  assume p: "check_existing_path H pol a s = (Inr p, s')" and p': "prepare_write_path H pol b s1 = (Inr p', s1')"
  have "\<not> path_starts_with q p" "\<not> path_starts_with q p'"
    by (rule outside_checked(2) [OF assms check_existing_confined [OF p]])
      (rule outside_checked(2) [OF assms prepare_write_confined [OF p']])
  then have "leaves (at q) (rename_path H p p')"
    unfolding leaves_def by (auto intro: rename_below prod.collapse [symmetric])
  then show "leaves (at q) (io_then (io_context (''move '' @ display p @ '' to '' @ display p') (rename_path H p p'))
      (\<lambda>_. io_ok EmptyPayload))"
    by (intro leaves_intros)
qed

lemma push_blob_at:
  assumes "outside pol q"
  shows "leaves (at q) (push_blob E H pol T agent t v n sz sha)"
  unfolding push_blob_def
proof (rule leaves_then [OF leaves_basic(2)], rule leaves_then_result [OF at_files [OF check_local(3)]])
  fix dest s s' assume "prepare_write_path H pol v s = (Inr dest, s')"
  note ne = outside_checked [OF assms prepare_write_confined [OF this]]
  show "leaves (at q) (io_then (assemble_file E H T agent t \<lparr>mf_chunks = n, mf_total_bytes = sz, mf_sha256 = sha\<rparr> dest)
      (\<lambda>w. io_then (io_ignore (delete_blob E T agent t)) (\<lambda>_. io_ok (BlobWritten w sha))))"
    by (intro leaves_intros assemble_file_at ne(1,3) at_disk transport_disk)
qed

lemma share_get_at:
  assumes "outside pol q"
  shows "leaves (at q) (share_get E H pol T n v k)"
  unfolding share_get_def Let_def
proof (rule leaves_then [OF leaves_basic(2)], rule leaves_then [OF leaves_basic(2)],
    rule leaves_then [OF at_disk [OF transport_disk(7)]], rule leaves_then [OF leaves_basic(2)],
    rule leaves_then [OF leaves_basic(2)], rule leaves_then_result [OF at_files [OF check_local(3)]])
  fix cr m dest s s' assume "prepare_write_path H pol v s = (Inr dest, s')"
  note ne = outside_checked [OF assms prepare_write_confined [OF this]]
  show "leaves (at q) (io_then (io_attempt (assemble_share E H T m cr (temp_sibling dest))) (\<lambda>r.
     case r of
       Inl e \<Rightarrow> io_then (io_ignore (remove_file H (temp_sibling dest))) (\<lambda>_. io_lift (Inl e))
     | Inr _ \<Rightarrow> io_then (io_context (''move into '' @ display dest) (rename_path H (temp_sibling dest) dest)) (\<lambda>_.
         io_ok (Shared (sm_name m) (sm_chunks m) (sm_total_bytes m) (sm_sha256 m)))))"
    by (rule share_assembled_at [OF ne(1,3)])
qed

lemma other_handlers_local:
  "leaves files (list_dir H N pol v)" "leaves files (pull_blob E H N pol T agent t v n)"
  "leaves files (share_put E H N pol T agent nm v k x)" "leaves files (job_output E N table j l)"
proof -
  have d: "leaves files m" if "leaves disk m" for m :: "('s, 'b) io"
    using that by (simp add: leaves_def)
  have tail: "leaves files (job_tail (nd_job_read N) p l)" for p l
    unfolding job_tail_def by (intro leaves_intros job_read_local)
  show "leaves files (list_dir H N pol v)" "leaves files (pull_blob E H N pol T agent t v n)"
    "leaves files (share_put E H N pol T agent nm v k x)" "leaves files (job_output E N table j l)"
    unfolding list_dir_def pull_blob_def share_put_def job_output_def Let_def
    by (intro leaves_intros check_local read_dir_local len_local stage_file_local share.upload_chunks_files tail d
        transport_disk now_local)+
qed

lemma read_bounded_returns:
  "\<exists>r s'. read_bounded (file_read H h n) limit acc s = Some (r, s') \<and> files s' = files s
    \<and> (n \<noteq> 0 \<longrightarrow> (\<forall>out. r = Inr out \<longrightarrow> (\<exists>cs. concat cs = unread s h \<and> out = foldl (bounded_step limit) acc cs)))"
proof (induction "length (unread s h)" arbitrary: s acc rule: less_induct)
  case less
  obtain r s1 where r: "file_read H h n s = (r, s1)" by fastforce
  show ?case
  proof (cases r)
    case (Inl e)
    with r read_frame [OF r] show ?thesis by (subst read_bounded.simps) simp
  next
    case (Inr c)
    note rd = read_ok [OF r [unfolded Inr]] read_frame [OF r]
    show ?thesis
    proof (cases "c = []")
      case True
      then have "n \<noteq> 0 \<longrightarrow> unread s h = []" using rd(1) by auto
      with True r Inr rd(2) show ?thesis
        by (subst read_bounded.simps) (auto intro: exI [of _ "[]"])
    next
      case False
      then have "length (unread s1 h) < length (unread s h)" using rd by simp
      from less [OF this, of "bounded_step limit acc c"] obtain q s2 where q:
        "read_bounded (file_read H h n) limit (bounded_step limit acc c) s1 = Some (q, s2)" "files s2 = files s1"
        "n \<noteq> 0 \<longrightarrow> (\<forall>out. q = Inr out \<longrightarrow> (\<exists>cs. concat cs = unread s1 h \<and>
          out = foldl (bounded_step limit) (bounded_step limit acc c) cs))" by blast
      have "\<exists>cs. concat cs = unread s h \<and> out = foldl (bounded_step limit) acc cs"
        if ne: "n \<noteq> 0" and out: "q = Inr out" for out
      proof -
        obtain cs where "concat cs = unread s1 h" "out = foldl (bounded_step limit) (bounded_step limit acc c) cs"
          using q(3) ne out by blast
        with rd(1) show ?thesis by (intro exI [of _ "c # cs"]) simp
      qed
      with q r Inr rd(2) False show ?thesis by (subst read_bounded.simps) simp
    qed
  qed
qed

lemma read_file_returns: "\<exists>r s'. read_file E H pol v n s = Some (r, s') \<and> files s' = files s"
proof -
  have o': "leaves files (io_then (check_existing_path H pol v) (\<lambda>p. io_context (''open '' @ display p) (file_open H p)))"
    by (intro leaves_intros check_local open_local)
  obtain r s1 where r: "io_then (check_existing_path H pol v) (\<lambda>p. io_context (''open '' @ display p) (file_open H p)) s
    = (r, s1)" by fastforce
  have s1: "files s1 = files s" by (rule leavesD [OF o' r])
  show ?thesis
  proof (cases r)
    case (Inl e)
    with r s1 show ?thesis by (simp add: read_file_def)
  next
    case (Inr h)
    let ?limit = "min (case n of None \<Rightarrow> po_max_file_bytes pol | Some n \<Rightarrow> unat n) (po_max_file_bytes pol)"
    obtain q s2 where "read_bounded (file_read H h 8192) ?limit ([], False) s1 = Some (q, s2)" "files s2 = files s1"
      using read_bounded_returns [of h 8192 ?limit "([], False)" s1] by blast
    with r Inr s1 show ?thesis by (cases q) (auto simp: read_file_def Let_def)
  qed
qed

lemma with_table_at: "leaves f m \<Longrightarrow> leaves f (with_table table m)"
  unfolding with_table_def by (intro leaves_intros)

text \<open>The dispatch: no command that runs no program changes a file outside.\<close>

lemma run_command_at:
  assumes "outside pol q" and "\<not> runs_program (cmd_kind cmd)"
    and "run_command E H N pol T table cmd s = Some (r, s')"
  shows "files s' q = files s q"
proof -
  have plain: "files s' q = files s q" if "Some (with_table table m s) = Some (r, s')" "leaves (at q) m" for m
    using with_table_at [OF that(2), of table] that(1) by (auto simp: leaves_def) (metis snd_conv)
  have none: "leaves (at q) (io_ok x)" for x :: response_payload by (rule leaves_basic)
  note handlers = none write_file_at [OF assms(1)] make_dir_at remove_at [OF assms(1)] move_path_at [OF assms(1)]
    push_blob_at [OF assms(1)] share_get_at [OF assms(1)] other_handlers_local [THEN at_files]
  show ?thesis
  proof (cases "cmd_kind cmd")
    case (ReadFile v n)
    obtain y s2 where "read_file E H pol v n s = Some (y, s2)" "files s2 = files s"
      using read_file_returns by blast
    with ReadFile assms(3) show ?thesis by (simp add: run_command_def)
  next
    case (CancelJob j)
    with assms(3) show ?thesis
      by (auto simp: run_command_def cancel_job_def io_then_def io_lift_def io_ok_def split: prod.splits sum.splits)
  qed (use assms(2,3) handlers in \<open>simp_all add: run_command_def Let_def runs_program_def plain\<close>)
qed

lemma run_command_returns: "\<exists>r s'. run_command E H N pol T table cmd s = Some (r, s')"
proof (cases "cmd_kind cmd")
  case (ReadFile v n)
  with read_file_returns [of pol v n s] show ?thesis by (auto simp: run_command_def)
qed (simp_all add: run_command_def Let_def prod_eq_iff [symmetric] split_paired_Ex [symmetric] del: split_paired_Ex)

end

text \<open>What is kept of a stream is its beginning.\<close>

lemma bounded_fold:
  "foldl (bounded_step limit) (take limit b, length b > limit) cs = (take limit (b @ concat cs), length (b @ concat cs) > limit)"
proof (induction cs arbitrary: b)
  case Nil
  then show ?case by simp
next
  case (Cons c cs)
  have "bounded_step limit (take limit b, length b > limit) c = (take limit (b @ c), length (b @ c) > limit)"
    by (auto simp: bounded_step_def Let_def min_def)
  then show ?case using Cons [of "b @ c"] by simp
qed

section \<open>The concrete node\<close>

definition mem_node :: "mem node" where
  "mem_node = \<lparr>nd_hostname = ''h'', nd_os = ''linux x86_64'', nd_version = ''1'', nd_jobs_dir = Path True [''jobs''],
     nd_upload_concurrency = 8,
     nd_exec = (\<lambda>prog args dir env stdin secs. io_ok \<lparr>run_stdout = Inr [[1, 2], [3]], run_stderr = Inr [], run_exit = Some (Some 0)\<rparr>),
     nd_spawn = (\<lambda>prog args dir env. io_ok (Some 7)),
     nd_read_dir = (\<lambda>p. io_ok []), nd_job_read = (\<lambda>p. io_ok None)\<rparr>"

interpretation mem_executing: executing "mem_env T" mem_view mem_rest mem_host mem_fs mem_unread mem_target mem_node for T
  by unfold_locales
    (auto simp: leaves_def mem_host_def mem_node_def io_ok_def mem_fs_def mem_append_def mem_target_def mem_rename_def
      map_of_filter_path path_starts_with_def split: option.splits)

definition confined_policy :: policy where
  "confined_policy = \<lparr>po_allowed_roots = [dest_path], po_allowed_programs = [Path True [''bin'']], po_child_env = [],
     po_max_job_secs = 60, po_max_timeout_secs = 60, po_max_file_bytes = 2, po_max_output_bytes = 2,
     po_max_blob_bytes = 100, po_allow_any_path = False, po_allow_any_program = False\<rparr>"

definition command_of :: "command_kind \<Rightarrow> command" where
  "command_of k = command_new (sample_uuid 1) 1000 ''alpha'' k 10 60"

section \<open>Properties\<close>



text \<open>A file system on which a file cannot replace a directory.\<close>

definition strict_host :: "mem host" where
  "strict_host = mem_host\<lparr>rename_path := (\<lambda>p q w. if q \<in> set (mem_dirs w) then (bail ''Is a directory'', w) else mem_rename p q w)\<rparr>"

text \<open>
  A transfer to an allowed root itself writes beside the root: the destination passes the
  check, the temporary file gets the root's own name with a suffix, and as the rename onto the
  directory fails, it stays there, outside every allowed root.
\<close>

theorem push_to_a_root_writes_beside_it:
  "\<exists>cmd w e w'. run_command (mem_env no_tables) strict_host mem_node confined_policy sample_transport [] cmd w = Some (Inl e, w')
    \<and> \<not> runs_program (cmd_kind cmd) \<and> \<not> within_roots confined_policy (temp_sibling dest_path)
    \<and> mem_fs w (temp_sibling dest_path) = None \<and> mem_fs w' (temp_sibling dest_path) \<noteq> None"
proof -
  let ?sha = "hex (toy_sha256 [])"
  let ?cmd = "command_of (PushBlob (sample_uuid 3) ''/dst'' 0 0 ?sha)"
  let ?w = "mem_start\<lparr>mem_dirs := [dest_path]\<rparr>" and ?temp = "temp_sibling dest_path"
  let ?m = "\<lparr>mf_chunks = 0, mf_total_bytes = 0, mf_sha256 = ?sha\<rparr> :: manifest"
  have dst: "PathBuf ''/dst'' = dest_path" by (simp add: PathBuf_def dest_path_def Let_def)
  have roots: "within_roots confined_policy dest_path" by (simp add: within_roots_def confined_policy_def)
  have path: "prepare_write_path strict_host confined_policy ''/dst'' ?w = (Inr dest_path, ?w)"
    using roots by (simp add: prepare_write_path_def dst Let_def strict_host_def mem_host_def mem_exists_def
        check_existing_path_def io_simps check_canonical_def)
  obtain w1 where create: "file_create strict_host ?temp ?w = (Inr 0, w1)"
    and w1: "mem_dirs w1 = [dest_path]" "mem_fs w1 ?temp = Some []"
    by (simp add: strict_host_def mem_host_def mem_create_def mem_start_def mem_fs_def)
  have copy: "verified_copy (mem_env no_tables) strict_host (get_blob_chunk (mem_env no_tables) sample_transport ''alpha'' (sample_uuid 3))
      transfer_texts ?m ?temp ?w = (Inr 0, w1)"
    using create by (simp add: verified_copy_def io_simps chunk_indices_def transfer_texts_def Let_def finish_hex_def
        hasher_new_def strict_host_def mem_host_def)
  obtain e where asm: "assemble_file (mem_env no_tables) strict_host sample_transport ''alpha'' (sample_uuid 3) ?m dest_path ?w
      = (Inl e, w1)"
    using copy w1(1) by (simp add: assemble_file_def assemble_into_def Let_def io_simps strict_host_def bail_def)
  have "cmd_kind ?cmd = PushBlob (sample_uuid 3) ''/dst'' 0 0 ?sha" "cmd_agent_id ?cmd = ''alpha''"
    by (simp_all add: command_of_def command_new_def)
  then have "run_command (mem_env no_tables) strict_host mem_node confined_policy sample_transport [] ?cmd ?w = Some (Inl e, w1)"
    and "\<not> runs_program (cmd_kind ?cmd)"
    using path asm by (simp_all add: run_command_def with_table_def push_blob_def io_simps runs_program_def)
  moreover have "\<not> within_roots confined_policy ?temp"
    by (simp add: within_roots_def confined_policy_def path_starts_with_def dest_path_def temp_sibling_def
        with_file_name_def file_name_def push_name_def)
  moreover have "mem_fs ?w ?temp = None" by (simp add: mem_start_def mem_fs_def)
  ultimately show ?thesis using w1(2) by blast
qed





text \<open>
  Reading a file gives its beginning: at most the configured number of bytes, or fewer when
  fewer are asked for, and it is marked as cut exactly when the file is longer, however the
  reads were split.
\<close>

theorem file_reads_are_bounded:
  assumes "executing E view rest H files unread target N"
    and "check_existing_path H pol value s = (Inr p, s1)" and "file_open H p s1 = (Inr h, s2)"
    and "limit = min (case requested of None \<Rightarrow> po_max_file_bytes pol | Some n \<Rightarrow> unat n) (po_max_file_bytes pol)"
    and "read_file E H pol value requested s = Some (Inr payload, s')"
  shows "\<exists>content. files s p = Some content
    \<and> payload = FileContents (b64_encode E (take limit content)) (length content > limit)"
proof -
  have fs: "filesystem H files unread target"
    using assms(1) unfolding executing_def machine_def by blast
  obtain r s3 where r: "read_bounded (file_read H h 8192) limit ([], False) s2 = Some (r, s3)"
    and out: "\<forall>out. r = Inr out \<longrightarrow> (\<exists>cs. concat cs = unread s2 h \<and> out = foldl (bounded_step limit) ([], False) cs)"
    using executing.read_bounded_returns [OF assms(1), of h 8192 limit "([], False)" s2] by auto
  have open': "io_then (check_existing_path H pol value) (\<lambda>p. io_context (''open '' @ display p) (file_open H p)) s = (Inr h, s2)"
    using assms(2,3) by (simp add: io_then_def io_context_def)
  from assms(5) r obtain data t where "r = Inr (data, t)" and payload: "payload = FileContents (b64_encode E data) t"
    unfolding read_file_def open' assms(4) [symmetric] by (cases r) (auto simp: Let_def)
  with out obtain cs where cs: "concat cs = unread s2 h" "(data, t) = foldl (bounded_step limit) ([], False) cs" by blast
  have "files s1 p = Some (unread s2 h)" using filesystem.open_ok [OF fs assms(3)] .
  moreover have "files s1 = files s"
    using leavesD [OF executing.check_local(1) [OF assms(1)] assms(2)] .
  ultimately show ?thesis
    using cs payload bounded_fold [of limit "[]" cs] by simp
qed

theorem file_reads_are_bounded_witness:
  "\<exists>payload s'. read_file (mem_env no_tables) mem_host (confined_policy\<lparr>po_allow_any_path := True\<rparr>) ''/src'' None with_source
      = Some (Inr payload, s') \<and> payload = FileContents (b64_encode (mem_env no_tables) [1, 2]) True"
proof -
  let ?pol = "confined_policy\<lparr>po_allow_any_path := True\<rparr>"
  have src: "PathBuf ''/src'' = source_path" by (simp add: PathBuf_def source_path_def Let_def)
  have check: "check_existing_path mem_host ?pol ''/src'' with_source = (Inr source_path, with_source)"
    by (simp add: check_existing_path_def src io_simps mem_host_def mem_exists_def with_source_def mem_fs_def
        check_canonical_def within_roots_def)
  obtain h s2 where op: "file_open mem_host source_path with_source = (Inr h, s2)" and s2: "mem_unread s2 h = [1, 2, 3, 4, 5]"
    by (simp add: mem_open_def with_source_def mem_fs_def mem_unread_def)
  have read: "\<exists>w'. mem_read h 8192 w = (Inr (take 3 b), w') \<and> mem_unread w' h = drop 3 b" if "mem_unread w h = b" for w b
    using that by (simp add: mem_read_def Let_def) (simp add: mem_unread_def)
  obtain s3 where s3: "mem_read h 8192 s2 = (Inr [1, 2, 3], s3)" "mem_unread s3 h = [4, 5]"
    using read [OF s2] by auto
  obtain s4 where s4: "mem_read h 8192 s3 = (Inr [4, 5], s4)" "mem_unread s4 h = []"
    using read [OF s3(2)] by auto
  obtain s5 where s5: "mem_read h 8192 s4 = (Inr [], s5)" using read [OF s4(2)] by auto
  have "read_bounded (mem_read h 8192) 2 ([], False) s2 = Some (Inr ([1, 2], True), s5)"
    by (subst read_bounded.simps, simp add: s3 bounded_step_def, subst read_bounded.simps, simp add: s4 bounded_step_def,
        subst read_bounded.simps, simp add: s5)
  then obtain out s3 where bounded: "read_bounded (mem_read h 8192) 2 ([], False) s2 = Some (Inr out, s3)" by blast
  obtain r s' where read: "read_file (mem_env no_tables) mem_host ?pol ''/src'' None with_source = Some (r, s')"
    using mem_executing.read_file_returns by blast
  have "\<exists>payload. r = Inr payload"
    using read check op bounded
    by (cases out) (auto simp: read_file_def io_simps confined_policy_def)
  then obtain payload where "r = Inr payload" by blast
  with read file_reads_are_bounded [OF mem_executing.executing_axioms check op refl, of no_tables None payload s']
  show ?thesis by (auto simp: with_source_def mem_fs_def confined_policy_def)
qed

end
