(* ===== verification/Delivery.thy ===== *)
theory Delivery
  imports MemFacts
begin

text \<open>
  The command mailbox as its users see it: what a drain returns and takes away, that an
  instance never takes another's mail, that what was sent is delivered, and that the wait
  for a response ends. The specification of a drain is \<open>claimable\<close>, a function of the
  bucket's contents alone.
\<close>

section \<open>Specification\<close>

text \<open>The command an object holds, if it can be opened with this key at this place.\<close>

definition command_at :: "'s env \<Rightarrow> transport \<Rightarrow> (string \<Rightarrow> bytes option) \<Rightarrow> string \<Rightarrow> command option" where
  "command_at E T objs key = (case objs key of None \<Rightarrow> None
     | Some raw \<Rightarrow> (case open_sealed E (tp_crypto T) (command_json E) key raw of
         Inl _ \<Rightarrow> None | Inr cmd \<Rightarrow> Some cmd))"

definition claimable ::
  "'s env \<Rightarrow> transport \<Rightarrow> string \<Rightarrow> (string \<Rightarrow> bytes option) \<Rightarrow> string \<Rightarrow> command option" where
  "claimable E T inst objs key = (case command_at E T objs key of None \<Rightarrow> None
     | Some cmd \<Rightarrow> if for_other_instance inst cmd then None else Some cmd)"

text \<open>What a drain may leave: claimed objects gone, mail for another instance untouched.\<close>

definition drained ::
  "'s env \<Rightarrow> transport \<Rightarrow> string \<Rightarrow> string set \<Rightarrow> (string \<Rightarrow> bytes option) \<Rightarrow> (string \<Rightarrow> bytes option) \<Rightarrow> bool"
where
  "drained E T inst keys before after \<longleftrightarrow>
     (\<forall>k. k \<notin> keys \<longrightarrow> after k = before k)
   \<and> (\<forall>k. after k = before k \<or> after k = None)
   \<and> (\<forall>k cmd. command_at E T before k = Some cmd \<and> for_other_instance inst cmd \<longrightarrow> after k = before k)"

lemma command_at_cong: "b k = b' k \<Longrightarrow> command_at E T b k = command_at E T b' k"
  by (simp add: command_at_def)

lemma claimable_cong: "b k = b' k \<Longrightarrow> claimable E T inst b k = claimable E T inst b' k"
  by (simp add: claimable_def command_at_def)

lemma claimable_Some:
  "claimable E T inst b k = Some c \<longleftrightarrow> command_at E T b k = Some c \<and> \<not> for_other_instance inst c"
  by (auto simp: claimable_def split: option.splits if_splits)

lemma claimable_gone [simp]: "b k = None \<Longrightarrow> claimable E T inst b k = None"
  by (simp add: claimable_def command_at_def)

lemma command_at_SomeD: "command_at E T b k = Some c \<Longrightarrow> b k \<noteq> None"
  by (auto simp: command_at_def split: option.splits)

lemma drained_refl [simp]: "drained E T inst ks b b"
  by (simp add: drained_def)

lemma drained_step:
  assumes "b' = b \<or> b' = b(k := None)" and "k \<in> ks"
    and "\<And>c. command_at E T b k = Some c \<Longrightarrow> \<not> for_other_instance inst c"
  shows "drained E T inst ks b b'"
  using assms(1)
proof
  assume "b' = b(k := None)"
  then have "b' x = b x" if "x \<noteq> k" for x using that by simp
  moreover have "b' k = None" using \<open>b' = b(k := None)\<close> by simp
  ultimately show ?thesis unfolding drained_def using assms(2,3) by metis
qed simp

lemma drained_trans:
  assumes "drained E T inst ks b b1" and "drained E T inst ks b1 b2"
  shows "drained E T inst ks b b2"
  unfolding drained_def
proof (intro conjI allI impI)
  fix k
  show "k \<notin> ks \<Longrightarrow> b2 k = b k" using assms by (simp add: drained_def)
  show "b2 k = b k \<or> b2 k = None" using assms unfolding drained_def by metis
  fix c assume c: "command_at E T b k = Some c \<and> for_other_instance inst c"
  then have 1: "b1 k = b k" using assms(1) by (auto simp: drained_def)
  with c have "command_at E T b1 k = Some c" by (metis command_at_cong)
  with c have "b2 k = b1 k" using assms(2) by (auto simp: drained_def)
  with 1 show "b2 k = b k" by simp
qed

lemma drained_mono: "drained E T inst ks b b' \<Longrightarrow> ks \<subseteq> ks' \<Longrightarrow> drained E T inst ks' b b'"
  by (auto simp: drained_def)

lemma drained_Cons:
  assumes "drained E T inst {k} b b1" and "drained E T inst (set ks) b1 b2"
  shows "drained E T inst (set (k # ks)) b b2"
proof (rule drained_trans)
  show "drained E T inst (set (k # ks)) b b1" using assms(1) by (rule drained_mono) simp
  show "drained E T inst (set (k # ks)) b1 b2" using assms(2) by (rule drained_mono) auto
qed

lemma drained_head: "drained E T inst {k} b b' \<Longrightarrow> drained E T inst (set (k # ks)) b b'"
  by (erule drained_mono) simp

lemma map_filter_cong:
  "(\<And>x. x \<in> set xs \<Longrightarrow> f x = g x) \<Longrightarrow> List.map_filter f xs = List.map_filter g xs"
  by (induction xs) (auto split: option.splits)

lemma map_filter_member: "x \<in> set xs \<Longrightarrow> f x = Some y \<Longrightarrow> y \<in> set (List.map_filter f xs)"
  by (induction xs) (auto split: option.splits)

section \<open>The drain meets it\<close>

context relay
begin

lemma command_at_Inl:
  "view s k = Some raw \<Longrightarrow> open_sealed E (tp_crypto T) (command_json E) k raw = Inl e \<Longrightarrow>
   command_at E T (view s) k = None"
  by (simp add: command_at_def)

lemma command_at_Inr:
  "view s k = Some raw \<Longrightarrow> open_sealed E (tp_crypto T) (command_json E) k raw = Inr c \<Longrightarrow>
   command_at E T (view s) k = Some c"
  by (simp add: command_at_def)

text \<open>One turn of the loop that succeeds: what it takes and what it leaves behind.\<close>

lemma drain_loop_turn:
  assumes "drain_loop E T inst (key # keys) acc s = (Inr out, s')"
  shows "\<exists>s1. drain_loop E T inst keys
      (acc @ (case claimable E T inst (view s) key of None \<Rightarrow> [] | Some c \<Rightarrow> [c])) s1 = (Inr out, s')
    \<and> drained E T inst {key} (view s) (view s1)
    \<and> (claimable E T inst (view s) key \<noteq> None \<longrightarrow> view s1 key = None)"
proof -
  from assms obtain r s1 where r: "get_raw E key MAX_RELAY_OBJECT_BYTES s = (Inr r, s1)"
    and rest: "(case r of None \<Rightarrow> drain_loop E T inst keys acc
     | Some raw \<Rightarrow> (case open_sealed E (tp_crypto T) (command_json E) key raw of
         Inl e \<Rightarrow> io_then (io_ignore (delete_key E key)) (\<lambda>_. drain_loop E T inst keys acc)
       | Inr cmd \<Rightarrow> if for_other_instance inst cmd then drain_loop E T inst keys acc
         else io_then (delete_key E key) (\<lambda>_. drain_loop E T inst keys (acc @ [cmd])))) s1
       = (Inr out, s')"
    by (auto simp: io_then_Inr)
  from get_raw_Inr [OF r] have v: "view s key = r" "view s1 = view s" by simp_all
  show ?thesis
  proof (cases r)
    case None
    with rest v show ?thesis by (intro exI [of _ s1]) simp
  next
    case (Some raw)
    show ?thesis
    proof (cases "open_sealed E (tp_crypto T) (command_json E) key raw")
      case (Inl e)
      obtain d s2 where d: "delete_key E key s1 = (d, s2)" by (cases "delete_key E key s1")
      have none: "command_at E T (view s) key = None"
        using command_at_Inl Some Inl v by simp
      have "drained E T inst {key} (view s) (view s2)"
        by (rule drained_step [of _ _ key]) (use delete_key_view [OF d] v none in auto)
      with rest Some Inl d none show ?thesis
        by (intro exI [of _ s2]) (simp add: io_then_def io_ignore_def claimable_def)
    next
      case (Inr c)
      have c: "command_at E T (view s) key = Some c"
        using command_at_Inr Some Inr v by simp
      show ?thesis
      proof (cases "for_other_instance inst c")
        case True
        with rest Some Inr v c show ?thesis
          by (intro exI [of _ s1]) (simp add: claimable_def)
      next
        case False
        with rest Some Inr obtain u s2 where d: "delete_key E key s1 = (Inr u, s2)"
          and go: "drain_loop E T inst keys (acc @ [c]) s2 = (Inr out, s')"
          by (auto simp: io_then_Inr)
        have v2: "view s2 = (view s)(key := None)" using delete_key_Inr [OF d] v by simp
        have "drained E T inst {key} (view s) (view s2)"
          by (rule drained_step [of _ _ key]) (use v2 c False in auto)
        with go v2 c False show ?thesis
          by (intro exI [of _ s2]) (simp add: claimable_def)
      qed
    qed
  qed
qed

lemma drain_loop_Inr:
  assumes "drain_loop E T inst keys acc s = (Inr out, s')" and "distinct keys"
  shows "out = acc @ List.map_filter (claimable E T inst (view s)) keys
    \<and> drained E T inst (set keys) (view s) (view s')
    \<and> (\<forall>k \<in> set keys. claimable E T inst (view s) k \<noteq> None \<longrightarrow> view s' k = None)"
  using assms
proof (induction keys arbitrary: acc s)
  case Nil
  then show ?case by (simp)
next
  case (Cons key keys)
  let ?claim = "claimable E T inst (view s)"
  obtain s1 where s1: "drain_loop E T inst keys
      (acc @ (case ?claim key of None \<Rightarrow> [] | Some c \<Rightarrow> [c])) s1 = (Inr out, s')"
    and step: "drained E T inst {key} (view s) (view s1)"
    and gone: "?claim key \<noteq> None \<longrightarrow> view s1 key = None"
    using drain_loop_turn [OF Cons.prems(1)] by blast
  have same: "view s1 k = view s k" if "k \<noteq> key" for k
    using step that by (simp add: drained_def)
  then have claim: "claimable E T inst (view s1) k = ?claim k" if "k \<noteq> key" for k
    using that claimable_cong by metis
  have ih: "out = acc @ (case ?claim key of None \<Rightarrow> [] | Some c \<Rightarrow> [c])
      @ List.map_filter (claimable E T inst (view s1)) keys
    \<and> drained E T inst (set keys) (view s1) (view s')
    \<and> (\<forall>k \<in> set keys. claimable E T inst (view s1) k \<noteq> None \<longrightarrow> view s' k = None)"
    using Cons.IH [OF s1] Cons.prems(2) by simp
  have "List.map_filter (claimable E T inst (view s1)) keys = List.map_filter ?claim keys"
    using claim Cons.prems(2) by (intro map_filter_cong) (metis distinct.simps(2))
  moreover have "drained E T inst (set (key # keys)) (view s) (view s')"
    using step ih by (blast intro: drained_Cons)
  moreover have "view s' key = None" if "?claim key \<noteq> None"
    using gone that ih unfolding drained_def by metis
  moreover have "view s' k = None" if "k \<in> set keys" and "?claim k \<noteq> None" for k
  proof -
    have "k \<noteq> key" using that(1) Cons.prems(2) by auto
    with that ih claim show ?thesis by metis
  qed
  moreover have "List.map_filter ?claim (key # keys) =
      (case ?claim key of None \<Rightarrow> [] | Some c \<Rightarrow> [c]) @ List.map_filter ?claim keys"
    by (cases "?claim key") simp_all
  ultimately show ?case using ih by simp
qed

text \<open>Whatever the outcome, a drain only removes what it could claim or nobody can open.\<close>

lemma drain_loop_frame:
  "drain_loop E T inst keys acc s = (r, s') \<Longrightarrow> drained E T inst (set keys) (view s) (view s')"
proof (induction keys arbitrary: acc s)
  case Nil
  then show ?case by simp
next
  case (Cons key keys)
  obtain r0 s1 where r0: "get_raw E key MAX_RELAY_OBJECT_BYTES s = (r0, s1)"
    by (cases "get_raw E key MAX_RELAY_OBJECT_BYTES s")
  have v1: "view s1 = view s" using r0 by (rule get_raw_view)
  have loop: "drained E T inst (set (key # keys)) (view s) (view s')"
    if "drain_loop E T inst keys a s2 = (r, s')" and "drained E T inst {key} (view s) (view s2)" for a s2
    using that(2) Cons.IH [OF that(1)] by (rule drained_Cons)
  obtain d s2 where d: "delete_key E key s1 = (d, s2)" by (cases "delete_key E key s1")
  have removed: "drained E T inst {key} (view s) (view s2)"
    if "\<And>c. command_at E T (view s) key = Some c \<Longrightarrow> \<not> for_other_instance inst c"
    by (rule drained_step [of _ _ key]) (use delete_key_view [OF d] v1 that in auto)
  show ?case
  proof (cases r0)
    case (Inl e)
    with Cons.prems r0 v1 show ?thesis by (simp add: io_then_def)
  next
    case (Inr raw0)
    have raw0: "view s key = raw0" using get_raw_Inr r0 Inr by simp
    show ?thesis
    proof (cases raw0)
      case None
      with Cons.prems r0 Inr have "drain_loop E T inst keys acc s1 = (r, s')"
        by (simp add: io_then_def)
      then show ?thesis by (rule loop) (simp add: v1)
    next
      case (Some raw)
      show ?thesis
      proof (cases "open_sealed E (tp_crypto T) (command_json E) key raw")
        case (Inl e)
        with Cons.prems r0 Inr Some d have "drain_loop E T inst keys acc s2 = (r, s')"
          by (simp add: io_then_def io_ignore_def)
        then show ?thesis
          by (rule loop) (rule removed, use command_at_Inl raw0 Some Inl in simp)
      next
        case (Inr c)
        have c: "command_at E T (view s) key = Some c"
          using command_at_Inr raw0 Some Inr by simp
        show ?thesis
        proof (cases "for_other_instance inst c")
          case True
          with Cons.prems r0 \<open>r0 = Inr raw0\<close> Some Inr have "drain_loop E T inst keys acc s1 = (r, s')"
            by (simp add: io_then_def)
          then show ?thesis by (rule loop) (simp add: v1)
        next
          case False
          have rem: "drained E T inst {key} (view s) (view s2)"
            by (rule removed) (use c False in simp)
          show ?thesis
          proof (cases d)
            case (Inl e)
            with Cons.prems r0 \<open>r0 = Inr raw0\<close> Some Inr False d have "s' = s2"
              by (simp add: io_then_def)
            with rem show ?thesis by (simp only: drained_head)
          next
            case (Inr u)
            with Cons.prems r0 \<open>r0 = Inr raw0\<close> Some False d
              \<open>open_sealed E (tp_crypto T) (command_json E) key raw = Inr c\<close>
            have "drain_loop E T inst keys (acc @ [c]) s2 = (r, s')"
              by (simp add: io_then_def)
            then show ?thesis by (rule loop) (rule rem)
          qed
        qed
      qed
    qed
  qed
qed

text \<open>The objects under an agent's command prefix, as a listing finds them.\<close>

lemma list_keys_set:
  assumes "list_keys E p s = (Inr ks, s')"
  shows "distinct ks \<and> set ks = {k \<in> dom (view s). prefix p k}"
  unfolding list_keys_Inr(1) [OF assms] using list_distinct list_first by blast

lemma drain_commands_Inr:
  assumes "drain_commands E T agent inst s = (Inr cmds, s')"
  shows "cmds = sort_key cmd_created_at
      (List.map_filter (claimable E T inst (view s)) (rest (view s) (cmd_prefix T agent) None))
    \<and> drained E T inst {k. prefix (cmd_prefix T agent) k} (view s) (view s')
    \<and> (\<forall>k. prefix (cmd_prefix T agent) k \<and> claimable E T inst (view s) k \<noteq> None \<longrightarrow> view s' k = None)"
proof -
  from assms obtain ks s1 out where ks: "list_keys E (cmd_prefix T agent) s = (Inr ks, s1)"
    and out: "drain_loop E T inst ks [] s1 = (Inr out, s')"
    and cmds: "cmds = sort_key cmd_created_at out"
    by (auto simp: drain_commands_def io_then_Inr)
  note ks1 = list_keys_Inr [OF ks] and ks2 = list_keys_set [OF ks]
  from ks2 have d: "distinct ks" and set: "set ks = {k \<in> dom (view s). prefix (cmd_prefix T agent) k}"
    by simp_all
  note loop = drain_loop_Inr [OF out d, unfolded ks1(2)]
  have "drained E T inst {k. prefix (cmd_prefix T agent) k} (view s) (view s')"
    by (rule drained_mono [of _ _ _ "set ks"]) (use loop set in auto)
  moreover have "view s' k = None"
    if "prefix (cmd_prefix T agent) k \<and> claimable E T inst (view s) k \<noteq> None" for k
  proof -
    have "view s k \<noteq> None" using that claimable_gone by metis
    with that set have "k \<in> set ks" by blast
    with loop that show ?thesis by blast
  qed
  moreover have "cmds = sort_key cmd_created_at
      (List.map_filter (claimable E T inst (view s)) (rest (view s) (cmd_prefix T agent) None))"
    using cmds loop ks1(1) by simp
  ultimately show ?thesis by blast
qed

lemma drain_commands_frame:
  assumes "drain_commands E T agent inst s = (r, s')"
  shows "drained E T inst {k. prefix (cmd_prefix T agent) k} (view s) (view s')"
proof -
  obtain r1 s1 where ks: "list_keys E (cmd_prefix T agent) s = (r1, s1)"
    by (cases "list_keys E (cmd_prefix T agent) s")
  have v1: "view s1 = view s"
    using ks [unfolded list_keys_def] by (rule list_loop_view)
  show ?thesis
  proof (cases "is_ok (validate_agent_id agent) \<and> is_ok r1")
    case False
    with assms ks v1 show ?thesis
      by (cases "validate_agent_id agent"; cases r1) (auto simp: drain_commands_def io_then_def io_lift_def)
  next
    case True
    then obtain keys where r1: "r1 = Inr keys" and ok: "validate_agent_id agent = Inr ()"
      by (auto simp: is_ok_iff)
    obtain r2 s2 where r2: "drain_loop E T inst keys [] s1 = (r2, s2)"
      by (cases "drain_loop E T inst keys [] s1")
    have "s' = s2"
      using assms ks r1 ok r2
      by (auto simp: drain_commands_def io_then_def io_lift_def io_ok_def split: sum.splits)
    moreover have "set keys \<subseteq> {k. prefix (cmd_prefix T agent) k}"
      using list_keys_set [OF ks [unfolded r1]] by auto
    ultimately show ?thesis
      using drained_mono [OF drain_loop_frame [OF r2]] v1 by simp
  qed
qed

end

section \<open>Sending\<close>

context relay
begin

lemma ring_doorbell_view:
  "ring_doorbell E T agent s = (r, s') \<Longrightarrow>
   view s' = view s \<or> (\<exists>b. view s' = (view s)(doorbell_key T agent \<mapsto> b))"
  by (auto simp: ring_doorbell_def io_then_def io_lift_def split: prod.splits sum.splits
      dest!: now_view put_encrypted_view)

lemma cmd_key_not_doorbell: "cmd_key T a i \<noteq> doorbell_key T a'"
  by (simp add: cmd_key_def doorbell_key_def)

lemma send_command_Inr:
  assumes "send_command E T cmd s = (Inr u, s')"
  shows "command_at E T (view s') (cmd_key T (cmd_agent_id cmd) (cmd_id cmd)) = Some cmd
    \<and> (\<forall>k. k \<noteq> cmd_key T (cmd_agent_id cmd) (cmd_id cmd) \<and> k \<noteq> doorbell_key T (cmd_agent_id cmd)
         \<longrightarrow> view s' k = view s k)"
proof -
  let ?key = "cmd_key T (cmd_agent_id cmd) (cmd_id cmd)"
  from assms obtain u1 s1 where put: "put_encrypted E T (command_json E) ?key cmd s = (Inr u1, s1)"
    and ring: "s' = snd (ring_doorbell E T (cmd_agent_id cmd) s1)"
    by (auto simp: send_command_def io_then_Inr io_ignore_def)
  obtain b where v1: "view s1 = (view s)(?key \<mapsto> b)"
    and b: "open_sealed E (tp_crypto T) (command_json E) ?key b = Inr cmd"
    using put_encrypted_Inr [OF put command_ok] by blast
  obtain r2 s2 where r2: "ring_doorbell E T (cmd_agent_id cmd) s1 = (r2, s2)"
    by (cases "ring_doorbell E T (cmd_agent_id cmd) s1")
  with ring have s': "s' = s2" by simp
  note v2 = ring_doorbell_view [OF r2]
  have "view s' ?key = Some b"
    using v2 v1 s' cmd_key_not_doorbell by auto
  moreover have "view s' k = view s k" if "k \<noteq> ?key" and "k \<noteq> doorbell_key T (cmd_agent_id cmd)" for k
    using v2 v1 s' that by auto
  ultimately show ?thesis using b by (simp add: command_at_def)
qed

end

lemma cmd_key_prefix: "prefix (cmd_prefix T a) (cmd_key T a i)"
  by (simp add: cmd_prefix_def cmd_key_def)

section \<open>Waiting for a response\<close>

context relay
begin

text \<open>What the poll hands over: opened at the response's own place, accepted, and removed.\<close>

lemma await_loop_sound:
  "await_loop E T cmd deadline ceiling interval s = Some out \<Longrightarrow>
   \<forall>r s'. out = (Inr (Some r), s') \<longrightarrow>
     (\<exists>s0 b. view s0 (resp_key T (cmd_agent_id cmd) (cmd_id cmd)) = Some b
        \<and> open_sealed E (tp_crypto T) (response_json E) (resp_key T (cmd_agent_id cmd) (cmd_id cmd)) b = Inr r)
     \<and> (\<exists>now. validate_response_for now r cmd = Inr ())
     \<and> view s' (resp_key T (cmd_agent_id cmd) (cmd_id cmd)) = None"
proof -
  let ?key = "resp_key T (cmd_agent_id cmd) (cmd_id cmd)"
  define good where "good out \<longleftrightarrow> (\<forall>r s'. out = (Inr (Some r), s') \<longrightarrow>
     (\<exists>s0 b. view s0 ?key = Some b
        \<and> open_sealed E (tp_crypto T) (response_json E) ?key b = Inr r)
     \<and> (\<exists>now. validate_response_for now r cmd = Inr ()) \<and> view s' ?key = None)"
    for out :: "response option res \<times> 's"
  have first: "good (io_then (now_unix E) (\<lambda>now.
      io_then (io_lift (validate_response_for now r cmd)) (\<lambda>_. io_ok (Some r))) s1)"
    if taken: "take_encrypted E T (response_json E) ?key s = (Inr (Some r), s1)" for s s1 r
  proof -
    have "view s1 ?key = None" and "\<exists>b. view s ?key = Some b
        \<and> open_sealed E (tp_crypto T) (response_json E) ?key b = Inr r"
      using take_encrypted_Inr [OF taken] by (auto split: option.splits)
    then show ?thesis
      unfolding good_def by (auto simp: io_then_Inr dest!: now_view)
  qed
  assume "await_loop E T cmd deadline ceiling interval s = Some out"
  then have "E = E \<longrightarrow> T = T \<longrightarrow> cmd = cmd \<longrightarrow> good out"
  proof (rule await_loop.raw_induct [where P = "\<lambda>E' T' cmd' d c i s out.
      E' = E \<longrightarrow> T' = T \<longrightarrow> cmd' = cmd \<longrightarrow> good out", rotated])
    fix loop E' T' cmd' deadline ceiling interval s out
    assume ih: "\<And>E' T' cmd' d c i s out. loop E' T' cmd' d c i s = Some out \<Longrightarrow>
        E' = E \<longrightarrow> T' = T \<longrightarrow> cmd' = cmd \<longrightarrow> good out"
      and run: "(case take_encrypted E' T' (response_json E') (resp_key T' (cmd_agent_id cmd') (cmd_id cmd')) s of
          (Inl e, s1) \<Rightarrow> Some (Inl e, s1)
        | (Inr None, s1) \<Rightarrow> (case instant_ms E' s1 of (now, s2) \<Rightarrow>
            if deadline \<le> now then Some (Inr None, s2)
            else loop E' T' cmd' deadline ceiling (min (interval * 2) ceiling)
              (sleep_ms E' (min interval (deadline - now)) s2))
        | (Inr (Some r), s1) \<Rightarrow> Some (io_then (now_unix E') (\<lambda>now.
            io_then (io_lift (validate_response_for now r cmd')) (\<lambda>_. io_ok (Some r))) s1)) = Some out"
    show "E' = E \<longrightarrow> T' = T \<longrightarrow> cmd' = cmd \<longrightarrow> good out"
    proof (intro impI)
      assume eq: "E' = E" "T' = T" "cmd' = cmd"
      obtain r s1 where r: "take_encrypted E T (response_json E) ?key s = (r, s1)"
        by (cases "take_encrypted E T (response_json E) ?key s")
      show "good out"
      proof (cases r)
        case (Inl e)
        with run eq r show ?thesis by (auto simp: good_def)
      next
        case (Inr opt)
        show ?thesis
        proof (cases opt)
          case None
          obtain now s2 where now: "instant_ms E s1 = (now, s2)" by (cases "instant_ms E s1")
          show ?thesis
            using run eq r Inr None now ih [of E T cmd] by (cases "deadline \<le> now") (auto simp: good_def)
        next
          case (Some resp)
          with first r Inr run eq show ?thesis by auto
        qed
      qed
    qed
  qed
  then show ?thesis unfolding good_def by simp
qed

end

text \<open>The poll ends: every turn that finds nothing sleeps for a positive time.\<close>

context monotonic
begin

lemma get_raw_keeps: "get_raw E k n s = (r, s') \<Longrightarrow> elapsed s \<le> elapsed s'"
  using get_keeps [of s k]
  by (auto simp: get_raw_def io_then_def io_lift_def io_ok_def io_context_def Let_def
      split: prod.splits sum.splits option.splits)

lemma delete_key_keeps: "delete_key E k s = (r, s') \<Longrightarrow> elapsed s \<le> elapsed s'"
  using delete_keeps [of s k] by (auto simp: delete_key_def io_context_def split: prod.splits)

lemma take_encrypted_keeps:
  assumes "take_encrypted E T c k s = (r, s')"
  shows "elapsed s \<le> elapsed s'"
proof -
  obtain r1 s1 where r1: "get_raw E k MAX_RELAY_OBJECT_BYTES s = (r1, s1)"
    by (cases "get_raw E k MAX_RELAY_OBJECT_BYTES s")
  obtain r2 s2 where r2: "delete_key E k s1 = (r2, s2)" by (cases "delete_key E k s1")
  have "s' = s1 \<or> s' = s2"
    using assms r1 r2
    by (auto simp: take_encrypted_def io_then_def io_lift_def io_ok_def
        split: sum.splits option.splits)
  with get_raw_keeps [OF r1] delete_key_keeps [OF r2] show ?thesis by auto
qed

lemma await_loop_returns:
  "0 < interval \<Longrightarrow> 0 < ceiling \<Longrightarrow>
   \<exists>out. await_loop E T cmd deadline ceiling interval s = Some out"
proof (induction "deadline - elapsed s" arbitrary: s interval rule: less_induct)
  case less
  let ?key = "resp_key T (cmd_agent_id cmd) (cmd_id cmd)"
  obtain r s1 where r: "take_encrypted E T (response_json E) ?key s = (r, s1)"
    by (cases "take_encrypted E T (response_json E) ?key s")
  obtain now s2 where now: "instant_ms E s1 = (now, s2)" by (cases "instant_ms E s1")
  let ?s3 = "sleep_ms E (min interval (deadline - now)) s2"
  have "elapsed s \<le> now" and "now \<le> elapsed s2"
    using take_encrypted_keeps [OF r] instant_reads [of s1] instant_keeps [of s1] now by simp_all
  moreover have "elapsed s2 + min interval (deadline - now) \<le> elapsed ?s3" by (rule sleep_passes)
  ultimately have next_loop: "\<exists>out. await_loop E T cmd deadline ceiling (min (interval * 2) ceiling) ?s3 = Some out"
    if "\<not> deadline \<le> now"
    using that less.prems by (intro less.hyps) auto
  show ?case
  proof (cases r)
    case (Inl e)
    with r show ?thesis by (subst await_loop.simps) simp
  next
    case (Inr opt)
    with r now next_loop show ?thesis
      by (cases opt; cases "deadline \<le> now"; subst await_loop.simps; simp)
  qed
qed

lemma await_returns: "0 < interval \<Longrightarrow> \<exists>out. await_response E T cmd timeout interval s = Some out"
  using await_loop_returns [of interval "max interval RESPONSE_POLL_CEILING"]
  by (cases "instant_ms E s") (simp add: await_response_def del: split_paired_Ex)

end

text \<open>A response that waits is what the first poll returns.\<close>

context relay
begin

lemma instant_view: "instant_ms E s = (t, s') \<Longrightarrow> view s' = view s"
  using instant_frame [of s] by simp

lemma send_response_Inr:
  assumes "send_response E T r s = (Inr u, s')"
  shows "\<exists>b. view s' = (view s)(resp_key T (resp_agent_id r) (resp_id r) \<mapsto> b)
    \<and> open_sealed E (tp_crypto T) (response_json E) (resp_key T (resp_agent_id r) (resp_id r)) b = Inr r"
proof -
  have "put_encrypted E T (response_json E) (resp_key T (resp_agent_id r) (resp_id r)) r s = (Inr u, s')"
    using assms by (auto simp: send_response_def io_then_Inr)
  from put_encrypted_Inr [OF this response_ok_codec] show ?thesis by blast
qed

lemma await_response_first:
  assumes "view s (resp_key T (cmd_agent_id cmd) (cmd_id cmd)) = Some b"
    and "open_sealed E (tp_crypto T) (response_json E) (resp_key T (cmd_agent_id cmd) (cmd_id cmd)) b = Inr r"
    and "await_response E T cmd timeout interval s = Some (out, s')"
  shows "(\<exists>e. out = Inl e) \<or> out = Inr (Some r)"
proof -
  let ?key = "resp_key T (cmd_agent_id cmd) (cmd_id cmd)"
  obtain t s1 where t: "instant_ms E s = (t, s1)" by (cases "instant_ms E s")
  obtain q s2 where q: "take_encrypted E T (response_json E) ?key s1 = (q, s2)"
    by (cases "take_encrypted E T (response_json E) ?key s1")
  have out: "await_loop E T cmd (t + timeout) (max interval RESPONSE_POLL_CEILING) interval s1 = Some (out, s')"
    using assms(3) t by (simp add: await_response_def)
  show ?thesis
  proof (cases q)
    case (Inl e)
    with out q show ?thesis by (subst (asm) await_loop.simps) auto
  next
    case (Inr opt)
    then have "opt = Some r"
      using take_encrypted_Inr [OF q [unfolded Inr]] assms(1,2) instant_view [OF t] by auto
    with Inr q out have "io_then (now_unix E) (\<lambda>now.
        io_then (io_lift (validate_response_for now r cmd)) (\<lambda>_. io_ok (Some r))) s2 = (out, s')"
      by (subst (asm) await_loop.simps) simp
    then show ?thesis
      by (auto simp: io_then_def io_lift_def io_ok_def split: prod.splits sum.splits)
  qed
qed

end

context relay
begin

lemma sent_drained:
  assumes "send_command E T cmd s = (Inr u, s1)" and "\<not> for_other_instance inst cmd"
    and "drain_commands E T (cmd_agent_id cmd) inst s2 = (Inr cmds, s3)"
    and "view s2 (cmd_key T (cmd_agent_id cmd) (cmd_id cmd)) =
         view s1 (cmd_key T (cmd_agent_id cmd) (cmd_id cmd))"
  shows "cmd \<in> set cmds"
proof -
  let ?key = "cmd_key T (cmd_agent_id cmd) (cmd_id cmd)" and ?p = "cmd_prefix T (cmd_agent_id cmd)"
  have "command_at E T (view s2) ?key = command_at E T (view s1) ?key"
    using assms(4) by (rule command_at_cong)
  also have "\<dots> = Some cmd" using send_command_Inr [OF assms(1)] by blast
  finally have at: "command_at E T (view s2) ?key = Some cmd" .
  then have claim: "claimable E T inst (view s2) ?key = Some cmd"
    unfolding claimable_Some using assms(2) by blast
  have "?key \<in> dom (view s2)" using command_at_SomeD [OF at] by blast
  then have key: "?key \<in> set (rest (view s2) ?p None)"
    unfolding list_first using cmd_key_prefix by blast
  have "cmd \<in> set (List.map_filter (claimable E T inst (view s2)) (rest (view s2) ?p None))"
    using key claim by (rule map_filter_member)
  moreover have "cmds = sort_key cmd_created_at (List.map_filter (claimable E T inst (view s2))
      (rest (view s2) ?p None))"
    using drain_commands_Inr [OF assms(3)] by blast
  ultimately show ?thesis by (simp only: set_sort)
qed

end

text \<open>The same on the concrete environment, where no request fails.\<close>

lemma mem_await:
  assumes "send_response (mem_env sample_tables) sample_transport sample_response mem_start = (Inr (), w)"
    and "quiet w" and "mem_clock w = 1000"
  shows "\<exists>s'. await_response (mem_env sample_tables) sample_transport sample_command 30000 250 w
      = Some (Inr (Some sample_response), s')"
proof -
  let ?key = "resp_key sample_transport ''alpha'' (sample_uuid 1)"
  obtain b where b: "mem_view w ?key = Some b"
    "open_sealed (mem_env sample_tables) (tp_crypto sample_transport)
       (response_json (mem_env sample_tables)) ?key b = Inr sample_response"
    using mem.send_response_Inr [OF assms(1)] by auto
  then have taken: "take_encrypted (mem_env sample_tables) sample_transport
      (response_json (mem_env sample_tables)) ?key w = (Inr (Some sample_response), removed ?key w)"
    using assms(2) by (simp add: take_encrypted_def io_then_def io_lift_def io_ok_def mem_get_raw mem_delete_key)
  have "validate_response_for 1000 sample_response sample_command = Inr ()"
    by (simp add: validate_response_for_def sample_response_def response_ok_def
        sat_add_i64_def clamp_i64_def i64_bounds)
  with taken assms(3) show ?thesis
    by (simp add: await_response_def await_loop.simps io_then_def io_lift_def io_ok_def now_unix_def)
qed

section \<open>Properties\<close>



text \<open>
  C4. Once a command has been sent and its object is still in place, the next drain by an
  instance it is meant for returns it.
\<close>

theorem sent_command_is_delivered:
  assumes "relay E view rest"
    and "send_command E T cmd s = (Inr u, s1)"
    and "view s2 (cmd_key T (cmd_agent_id cmd) (cmd_id cmd)) =
         view s1 (cmd_key T (cmd_agent_id cmd) (cmd_id cmd))"
    and "drain_commands E T (cmd_agent_id cmd) inst s2 = (Inr cmds, s3)"
    and "\<not> for_other_instance inst cmd"
  shows "cmd \<in> set cmds"
  using assms by (blast intro: relay.sent_drained)

theorem sent_command_is_delivered_witness:
  "\<exists>s1 cmds s2. send_command (mem_env sample_tables) sample_transport sample_command mem_start = (Inr (), s1)
    \<and> drain_commands (mem_env sample_tables) sample_transport ''alpha'' ''i1'' s1 = (Inr cmds, s2)
    \<and> sample_command \<in> set cmds"
proof -
  obtain w where send: "send_command (mem_env sample_tables) sample_transport sample_command mem_start = (Inr (), w)"
    and w: "quiet w" "length (mem_objects w) \<le> MAX_LISTED_OBJECTS"
    using mem_send [OF quiet_start, of sample_command] by (auto simp: MAX_LISTED_OBJECTS_def)
  obtain cmds s' where drain: "drain_commands (mem_env sample_tables) sample_transport
      (cmd_agent_id sample_command) ''i1'' w = (Inr cmds, s')"
    using mem_drain [OF w validate_alpha, of sample_tables sample_transport "''i1''"] by auto
  have "\<not> for_other_instance ''i1'' sample_command" by (simp add: for_other_instance_def)
  from sent_command_is_delivered [OF mem.relay_axioms send refl drain this] send drain
  show ?thesis by auto
qed



text \<open>
  C6. Whatever the outcome of a drain, and whichever requests fail on the way, a command
  addressed to another instance stays in the bucket untouched, and nothing outside the
  agent's own command prefix is removed or changed.
\<close>

theorem drain_spares_other_instances:
  assumes "relay E view rest" and "drain_commands E T agent inst s = (r, s')"
    and "command_at E T (view s) k = Some cmd \<and> for_other_instance inst cmd
      \<or> \<not> prefix (cmd_prefix T agent) k"
  shows "view s' k = view s k"
  using relay.drain_commands_frame [OF assms(1,2)] assms(3) unfolding drained_def by blast

theorem drain_spares_other_instances_witness:
  "\<exists>s r s'. drain_commands (mem_env sample_tables) sample_transport ''alpha'' ''i1'' s = (r, s')
    \<and> mem_view s' (cmd_key sample_transport ''alpha'' (sample_uuid 2)) =
        mem_view s (cmd_key sample_transport ''alpha'' (sample_uuid 2))
    \<and> mem_view s (cmd_key sample_transport ''alpha'' (sample_uuid 2)) \<noteq> None"
proof -
  let ?k = "cmd_key sample_transport ''alpha'' (sample_uuid 2)"
  obtain w where "send_command (mem_env sample_tables) sample_transport addressed_command mem_start = (Inr (), w)"
    using mem_send [OF quiet_start, of addressed_command] by auto
  from mem.send_command_Inr [OF this]
  have at: "command_at (mem_env sample_tables) sample_transport (mem_view w) ?k = Some addressed_command"
    by simp
  obtain r s' where drain: "drain_commands (mem_env sample_tables) sample_transport ''alpha'' ''i1'' w = (r, s')"
    by fastforce
  have "for_other_instance ''i1'' addressed_command" by (simp add: for_other_instance_def)
  with drain_spares_other_instances [OF mem.relay_axioms drain] at drain command_at_SomeD [OF at]
  show ?thesis by blast
qed

text \<open>
  The wait for a response ends: if every sleep takes at least the time asked for and no
  request turns the clock back, a poll that starts with a positive interval returns, with a
  response, with nothing at the deadline, or with an error.
\<close>

theorem await_response_terminates:
  assumes "monotonic E elapsed" and "0 < interval"
  shows "\<exists>out s'. await_response E T cmd timeout interval s = Some (out, s')"
  using monotonic.await_returns [OF assms] by fast

theorem await_response_terminates_witness:
  "\<exists>out s'. await_response (mem_env sample_tables) sample_transport sample_command 30000 250 mem_start
     = Some (out, s')"
  by (rule await_response_terminates [OF mem_time.monotonic_axioms]) simp

text \<open>
  C7. What the wait returns is a response that was sealed at this command's own response
  key, names this command, this agent and this protocol version, is not dated more than a
  minute ahead of the controller's clock, and has been removed, so that it is returned once.
\<close>

theorem awaited_response_is_valid:
  assumes "relay E view rest"
    and "await_response E T cmd timeout interval s = Some (Inr (Some r), s')"
  shows "resp_id r = cmd_id cmd \<and> resp_agent_id r = cmd_agent_id cmd
    \<and> resp_protocol r = PROTOCOL_VERSION
    \<and> (\<exists>now. resp_finished_at r \<le> sat_add_i64 now 60)
    \<and> (\<exists>s0 b. view s0 (resp_key T (cmd_agent_id cmd) (cmd_id cmd)) = Some b
        \<and> open_sealed E (tp_crypto T) (response_json E) (resp_key T (cmd_agent_id cmd) (cmd_id cmd)) b = Inr r)
    \<and> view s' (resp_key T (cmd_agent_id cmd) (cmd_id cmd)) = None"
proof -
  obtain t s1 where "instant_ms E s = (t, s1)" by (cases "instant_ms E s")
  with assms(2) have "await_loop E T cmd (t + timeout) (max interval RESPONSE_POLL_CEILING) interval s1
      = Some (Inr (Some r), s')"
    by (simp add: await_response_def)
  note sound = relay.await_loop_sound [OF assms(1) this, rule_format, OF refl]
  then obtain now where "validate_response_for now r cmd = Inr ()" by blast
  then have "resp_id r = cmd_id cmd \<and> resp_agent_id r = cmd_agent_id cmd
    \<and> resp_protocol r = PROTOCOL_VERSION \<and> resp_finished_at r \<le> sat_add_i64 now 60"
    by (simp add: validate_response_for_def)
  with sound show ?thesis by blast
qed

theorem awaited_response_is_valid_witness:
  "\<exists>s r s'. await_response (mem_env sample_tables) sample_transport sample_command 30000 250 s
      = Some (Inr (Some r), s')
    \<and> resp_id r = cmd_id sample_command \<and> mem_view s' (resp_key sample_transport ''alpha'' (sample_uuid 1)) = None"
proof -
  obtain w where sent: "send_response (mem_env sample_tables) sample_transport sample_response mem_start = (Inr (), w)"
    and w: "quiet w" "mem_clock w = 1000"
    using mem_respond [OF quiet_start] by auto
  obtain s' where got: "await_response (mem_env sample_tables) sample_transport sample_command 30000 250 w
      = Some (Inr (Some sample_response), s')"
    using mem_await [OF sent w] by blast
  from awaited_response_is_valid [OF mem.relay_axioms got]
  have "resp_id sample_response = cmd_id sample_command
    \<and> mem_view s' (resp_key sample_transport ''alpha'' (sample_uuid 1)) = None" by simp
  with got show ?thesis by blast
qed

text \<open>
  A response that was sent and is still in place when the controller polls is what the
  poll returns, unless a request fails or the response is refused.
\<close>

theorem sent_response_is_received:
  assumes "relay E view rest"
    and "send_response E T r s = (Inr u, s1)"
    and "resp_id r = cmd_id cmd" and "resp_agent_id r = cmd_agent_id cmd"
    and "view s2 (resp_key T (cmd_agent_id cmd) (cmd_id cmd)) =
         view s1 (resp_key T (cmd_agent_id cmd) (cmd_id cmd))"
    and "await_response E T cmd timeout interval s2 = Some (out, s3)"
  shows "out = Inr (Some r) \<or> (\<exists>e. out = Inl e)"
proof -
  obtain b where "view s1 = (view s)(resp_key T (cmd_agent_id cmd) (cmd_id cmd) \<mapsto> b)"
    and b: "open_sealed E (tp_crypto T) (response_json E) (resp_key T (cmd_agent_id cmd) (cmd_id cmd)) b = Inr r"
    using relay.send_response_Inr [OF assms(1,2)] assms(3,4) by auto
  then have "view s2 (resp_key T (cmd_agent_id cmd) (cmd_id cmd)) = Some b" using assms(5) by simp
  from relay.await_response_first [OF assms(1) this b assms(6)] show ?thesis by blast
qed

theorem sent_response_is_received_witness:
  "\<exists>s1 out s2. send_response (mem_env sample_tables) sample_transport sample_response mem_start = (Inr (), s1)
    \<and> await_response (mem_env sample_tables) sample_transport sample_command 30000 250 s1 = Some (out, s2)
    \<and> (out = Inr (Some sample_response) \<or> (\<exists>e. out = Inl e))"
proof -
  obtain w where sent: "send_response (mem_env sample_tables) sample_transport sample_response mem_start = (Inr (), w)"
    using mem_respond [OF quiet_start] by auto
  obtain out s2 where got: "await_response (mem_env sample_tables) sample_transport sample_command 30000 250 w
      = Some (out, s2)"
    using mem_time.await_returns [of 250 sample_tables sample_transport sample_command 30000 w] by auto
  from sent_response_is_received [OF mem.relay_axioms sent _ _ _ got] sent got show ?thesis by auto
qed

section \<open>What a failed request costs\<close>

text \<open>A bucket with two commands, and a schedule of faults.\<close>

definition first_key :: string where "first_key = cmd_key sample_transport ''alpha'' (sample_uuid 1)"
definition second_key :: string where "second_key = cmd_key sample_transport ''alpha'' (sample_uuid 2)"

definition two_commands :: "bytes \<Rightarrow> bytes \<Rightarrow> bool list \<Rightarrow> mem" where
  "two_commands b1 b2 faults = mem_start\<lparr>mem_objects :=
     [(first_key, \<lparr>mo_body = b1, mo_etag = 0, mo_mtime = 1000\<rparr>), (second_key, \<lparr>mo_body = b2, mo_etag = 1, mo_mtime = 1000\<rparr>)],
     mem_faults := faults\<rparr>"

lemma keys_less: "first_key < second_key" 
  by (simp add: first_key_def second_key_def cmd_key_def sample_uuid_def digit_char_less less_char_def sample_transport_def numeral_eq_Suc)

lemma two_keys: "mem_keys (two_commands b1 b2 fs) (cmd_prefix sample_transport ''alpha'') = [first_key, second_key]"
proof -
  have ne: "first_key \<noteq> second_key" using keys_less by auto
  have p: "prefix (cmd_prefix sample_transport ''alpha'') first_key"
    "prefix (cmd_prefix sample_transport ''alpha'') second_key"
    by (simp_all add: first_key_def second_key_def cmd_key_prefix)
  show ?thesis
    unfolding mem_keys_def using ne keys_less p by (simp add: two_commands_def)
qed

lemma mem_faults_two: "mem_faults (two_commands b1 b2 fs) = fs"
  by (simp add: two_commands_def)

lemma faults_two: "two_commands b1 b2 fs\<lparr>mem_faults := fs'\<rparr> = two_commands b1 b2 fs'"
  by (simp add: two_commands_def)

text \<open>
  The handoff is at most once even when a request fails: there is a bucket with two
  commands and one failing read for which the drain answers an error although it has already
  deleted the first command, which is then neither in the bucket nor returned.
\<close>

theorem failed_drain_drops_claimed_command:
  "\<exists>s s' e. command_at (mem_env sample_tables) sample_transport (mem_view s)
        (cmd_key sample_transport ''alpha'' (sample_uuid 1)) = Some sample_command
    \<and> drain_commands (mem_env sample_tables) sample_transport ''alpha'' ''i2'' s = (Inl e, s')
    \<and> mem_view s' (cmd_key sample_transport ''alpha'' (sample_uuid 1)) = None"
proof -
  let ?E = "mem_env sample_tables" and ?P = sample_transport
  obtain pt where "to_vec (command_json ?E) sample_command = Inr pt" and pt: "length pt \<le> 1000"
    using table_to_vec [of sample_command "tb_commands sample_tables"] by auto
  from mem_seal [OF this(1)] obtain b where
    b: "seal ?E (tp_crypto ?P) (command_json ?E) first_key sample_command mem_start = (Inr b, reseeded mem_start)"
    and len: "length b = 4 * length pt + 2 * length (cr_key_id (tp_crypto ?P)) + 165" by blast
  have opens: "open_sealed ?E (tp_crypto ?P) (command_json ?E) first_key b = Inr sample_command"
    by (rule mem_crates.seal_open [OF b]) (simp add: table_codec_ok)
  have small: "length b \<le> MAX_RELAY_OBJECT_BYTES" "take (MAX_RELAY_OBJECT_BYTES + 1) b = b"
    using len pt by (simp_all add: MAX_RELAY_OBJECT_BYTES_def)
  let ?s = "two_commands b b [False, False, False, True]"
  have ne: "first_key \<noteq> second_key" using keys_less by auto
  have view: "mem_view (two_commands b b fs) first_key = Some b" "mem_view (two_commands b b fs) second_key = Some b" for fs
    using ne by (auto simp: two_commands_def mem_view_def)
  have fuel: "MAX_LISTED_OBJECTS + 2 = Suc 10001" by (simp add: MAX_LISTED_OBJECTS_def)
  have list: "list_keys ?E (cmd_prefix ?P ''alpha'') ?s = (Inr [first_key, second_key], two_commands b b [False, False, True])"
    unfolding list_keys_def fuel list_loop.simps
    by (simp add: io_then_def io_context_def io_lift_def io_ok_def mem_list_def request_def
        mem_faults_two faults_two two_keys after_token_def Let_def MAX_LISTED_OBJECTS_def)
  have get: "get_raw ?E first_key MAX_RELAY_OBJECT_BYTES (two_commands b b (False # fs)) = (Inr (Some b), two_commands b b fs)" for fs
    using small by (simp add: get_raw_def io_then_def io_context_def io_lift_def io_ok_def mem_get_def request_def
        mem_faults_two faults_two view Let_def)
  let ?s' = "removed first_key (two_commands b b [True])"
  have del: "delete_key ?E first_key (two_commands b b [False, True]) = (Inr (), ?s')"
    by (simp add: delete_key_def io_context_def mem_delete_def request_def mem_faults_two faults_two removed_def)
  have fail: "get_raw ?E second_key MAX_RELAY_OBJECT_BYTES ?s' = (Inl [''get_object '' @ second_key, ''service unavailable''], ?s'\<lparr>mem_faults := []\<rparr>)"
    by (simp add: get_raw_def io_then_def io_context_def io_lift_def mem_get_def request_def
        removed_def mem_faults_two bail_def)
  have "drain_commands ?E ?P ''alpha'' ''i2'' ?s = (Inl [''get_object '' @ second_key, ''service unavailable''], ?s'\<lparr>mem_faults := []\<rparr>)"
    using opens by (simp add: drain_commands_def io_then_def io_lift_def list get del fail for_other_instance_def)
  moreover have "command_at ?E ?P (mem_view ?s) first_key = Some sample_command"
    using opens by (simp add: command_at_def view)
  moreover have "mem_view (?s'\<lparr>mem_faults := []\<rparr>) first_key = None" by simp
  ultimately show ?thesis unfolding first_key_def by blast
qed

end
