(* ===== verification/AgentTurns.thy ===== *)
theory AgentTurns
  imports AgentLoop Confinement Delivery
begin

text \<open>
  What the turns of an agent's tasks do: which commands run, that none is lost without a trace,
  when the mailbox is listed, what the heartbeat tells, and when an update is looked at again.
\<close>

section \<open>One command\<close>

context machine
begin

lemma clock_keeps: "clock_unix E s = (now, s') \<Longrightarrow> files s' = files s \<and> view s' = view s"
  using now_local clock_frame [of s] by (auto simp: leaves_def now_unix_def split: prod.splits)

lemma log_event_keeps:
  "log_event E k m (a, s) = (a', s') \<Longrightarrow>
   files s' = files s \<and> view s' = view s \<and> ag_jobs a' = ag_jobs a \<and> ag_presence a' = ag_presence a"
  by (auto simp: log_event_def split: prod.splits dest: clock_keeps)

end

lemma record_event_last: "record_event now k m es \<noteq> [] \<and>
    last (record_event now k m es) = \<lparr>ev_at = now, ev_kind = k, ev_message = truncate_message m\<rparr>"
  by (simp add: record_event_def Let_def)

text \<open>The newest entry of the ring.\<close>

definition reported :: "event_kind \<Rightarrow> string \<Rightarrow> agent \<Rightarrow> bool" where
  "reported k m a \<longleftrightarrow> ag_events a \<noteq> [] \<and> ev_kind (last (ag_events a)) = k
     \<and> ev_message (last (ag_events a)) = truncate_message m"

lemma log_event_reported: "log_event E k m st = (a', s') \<Longrightarrow> reported k m a'"
  by (auto simp: log_event_def reported_def record_event_last split: prod.splits)

lemma judge_cases:
  assumes "judge E H N pol T agent_id cmd (a, s) = Some (v, a', s')"
  obtains (declined) now where "suspended (ag_presence a)" "cmd_instance cmd = None"
      "clock_unix E s = (now, s')" "a' = a"
      "v = Declined (response_err now cmd ''agent suspended: another process is using this identity'')"
  | (stood_down) now s1 where "\<not> (suspended (ag_presence a) \<and> cmd_instance cmd = None)" "cmd_kind cmd = StandDown"
      "log_event E Ev_Collision ''stood down by operator request'' (a\<lparr>ag_presence := stand_down (ag_presence a)\<rparr>, s) = (a', s1)"
      "clock_unix E s1 = (now, s')" "v = Stood_down (response_ok now cmd EmptyPayload)"
  | (discarded) e where "validate_routing_for (uuid_ok E) cmd agent_id = Inl e" "v = Discarded (error_alternate e)"
      "log_event E Ev_Command (''discarded command: '' @ error_alternate e) (a, s) = (a', s')"
  | (refused) now e t s1 where "clock_unix E s = (now, s1)"
      "validate_for_agent (uuid_ok E) now cmd agent_id (po_max_timeout_secs pol) = Inl e"
      "clock_unix E s1 = (t, s')" "a' = a" "v = Refused (response_err t cmd (error_to_string e))"
  | (executed) now s1 resp table where "\<not> (suspended (ag_presence a) \<and> cmd_instance cmd = None)"
      "cmd_kind cmd \<noteq> StandDown" "clock_unix E s = (now, s1)"
      "validate_for_agent (uuid_ok E) now cmd agent_id (po_max_timeout_secs pol) = Inr ()"
      "execute E H N pol T (ag_jobs a) cmd s1 = Some ((resp, table), s')" "a' = a\<lparr>ag_jobs := table\<rparr>" "v = Executed resp"
proof -
  have routing: "(\<exists>e. validate_routing_for (uuid_ok E) cmd agent_id = Inl e)
      \<or> validate_routing_for (uuid_ok E) cmd agent_id = Inr ()"
    by (cases "validate_routing_for (uuid_ok E) cmd agent_id") auto
  then consider (a) "suspended (ag_presence a) \<and> cmd_instance cmd = None"
    | (b) "\<not> (suspended (ag_presence a) \<and> cmd_instance cmd = None)" "cmd_kind cmd = StandDown"
    | (c) e where "\<not> (suspended (ag_presence a) \<and> cmd_instance cmd = None)" "cmd_kind cmd \<noteq> StandDown"
        "validate_routing_for (uuid_ok E) cmd agent_id = Inl e"
    | (d) "\<not> (suspended (ag_presence a) \<and> cmd_instance cmd = None)" "cmd_kind cmd \<noteq> StandDown"
        "validate_routing_for (uuid_ok E) cmd agent_id = Inr ()"
    by blast
  then show thesis
  proof cases
    case a
    obtain now s1 where 1: "clock_unix E s = (now, s1)" by fastforce
    from a assms 1 have r: "s' = s1" "a' = a"
      "v = Declined (response_err now cmd ''agent suspended: another process is using this identity'')"
      by (simp_all add: judge_def)
    from a 1 r(2,3) show thesis unfolding r(1) [symmetric] by (intro declined) simp_all
  next
    case b
    obtain a1 s1 where 1: "log_event E Ev_Collision ''stood down by operator request''
        (a\<lparr>ag_presence := stand_down (ag_presence a)\<rparr>, s) = (a1, s1)" by fastforce
    obtain now s2 where 2: "clock_unix E s1 = (now, s2)" by fastforce
    have "a' = a1" "s' = s2" "v = Stood_down (response_ok now cmd EmptyPayload)"
      using assms unfolding judge_def prod.case if_not_P [OF b(1)] if_P [OF b(2)] 1 2 by simp_all
    then show thesis using stood_down [OF b] 1 2 by blast
  next
    case c
    obtain a1 s1 where 1: "log_event E Ev_Command (''discarded command: '' @ error_alternate e) (a, s) = (a1, s1)"
      by fastforce
    have "a' = a1" "s' = s1" "v = Discarded (error_alternate e)"
      using assms unfolding judge_def prod.case if_not_P [OF c(1)] if_not_P [OF c(2)] c(3) sum.case 1 by simp_all
    then show thesis using discarded [OF c(3)] 1 by blast
  next
    case d
    obtain now s1 where 1: "clock_unix E s = (now, s1)" by fastforce
    show thesis
    proof (cases "validate_for_agent (uuid_ok E) now cmd agent_id (po_max_timeout_secs pol)")
      case (Inl e)
      obtain t s2 where 2: "clock_unix E s1 = (t, s2)" by fastforce
      have "a' = a" "s' = s2" "v = Refused (response_err t cmd (error_to_string e))"
        using assms
        unfolding judge_def prod.case if_not_P [OF d(1)] if_not_P [OF d(2)] d(3) sum.case 1 Inl 2 by simp_all
      then show thesis using refused [OF 1 Inl] 2 by blast
    next
      case (Inr u)
      then have ok: "validate_for_agent (uuid_ok E) now cmd agent_id (po_max_timeout_secs pol) = Inr ()" by simp
      have run: "(case execute E H N pol T (ag_jobs a) cmd s1 of None \<Rightarrow> None
          | Some ((resp, table), s2) \<Rightarrow> Some (Executed resp, a\<lparr>ag_jobs := table\<rparr>, s2)) = Some (v, a', s')"
        using assms unfolding judge_def prod.case if_not_P [OF d(1)] if_not_P [OF d(2)] d(3) sum.case 1 ok by simp
      then obtain resp table where "execute E H N pol T (ag_jobs a) cmd s1 = Some ((resp, table), s')"
        and "a' = a\<lparr>ag_jobs := table\<rparr>" and "v = Executed resp"
        by (auto split: option.splits)
      then show thesis using executed [OF d(1,2) 1 ok] by blast
    qed
  qed
qed

lemma retry_send_Inr:
  "retry_send E T resp delays err s = (Inr u, s') \<Longrightarrow> \<exists>s1. send_response E T resp s1 = (Inr (), s')"
proof (induction delays arbitrary: err s)
  case Nil
  then show ?case by simp
next
  case (Cons d ds)
  obtain x s1 where one: "(if d > 0 then sleep E (1000 * d) else io_ok ()) s = (Inr x, s1)"
    and go: "io_then (io_attempt (send_response E T resp)) (\<lambda>r. case r of Inr _ \<Rightarrow> io_ok ()
        | Inl e \<Rightarrow> retry_send E T resp ds e) s1 = (Inr u, s')"
    by (rule io_then_InrE [OF Cons.prems [unfolded retry_send.simps]])
  obtain r s2 where r: "send_response E T resp s1 = (r, s2)" by fastforce
  show ?case
  proof (cases r)
    case (Inl e)
    with go r have "retry_send E T resp ds e s2 = (Inr u, s')" by (simp add: io_then_def io_attempt_def)
    then show ?thesis by (rule Cons.IH)
  next
    case (Inr v)
    with go r show ?thesis by (auto simp: io_then_def io_attempt_def)
  qed
qed

text \<open>The response is in the bucket, sealed at its own key.\<close>

definition response_stored :: "'s env \<Rightarrow> transport \<Rightarrow> ('s \<Rightarrow> string \<Rightarrow> bytes option) \<Rightarrow> response \<Rightarrow> 's \<Rightarrow> bool" where
  "response_stored E T view resp s = (case view s (resp_key T (resp_agent_id resp) (resp_id resp)) of
     None \<Rightarrow> False
   | Some b \<Rightarrow> open_sealed E (tp_crypto T) (response_json E) (resp_key T (resp_agent_id resp) (resp_id resp)) b = Inr resp)"

context machine
begin

lemma sent_with_retry_stored:
  "send_response_with_retry E T resp s = (Inr u, s') \<Longrightarrow> response_stored E T view resp s'"
  unfolding send_response_with_retry_def by (drule retry_send_Inr) (auto simp: response_stored_def dest!: send_response_Inr)

lemma report_lost_result:
  "report_lost E T cmd resp (a, s) = (a', s') \<Longrightarrow> response_stored E T view resp s'
   \<or> (\<exists>e. reported Ev_Response (''lost response for command '' @ cmd_id cmd @ '': '' @ error_alternate e) a')"
  by (auto simp: report_lost_def split: prod.splits sum.splits dest: sent_with_retry_stored log_event_reported)

end

section \<open>A concrete agent\<close>

definition idle_agent :: agent where
  "idle_agent = \<lparr>ag_presence = presence_default, ag_events = [], ag_jobs = []\<rparr>"

definition mem_os :: "mem agent_os" where
  "mem_os = \<lparr>os_wait = (\<lambda>ms w. (Signalled, w)),
     os_sample = (\<lambda>w. (\<lparr>mt_load_1m = None, mt_cpu_count = None, mt_mem_total_mb = None, mt_mem_available_mb = None,
       mt_disk_total_mb = None, mt_disk_free_mb = None, mt_gpus = []\<rparr>, w))\<rparr>"

definition mem_poll :: poll_policy where
  "mem_poll = \<lparr>pp_active = 200, pp_idle = 5000, pp_full_scan = 60000, pp_use_doorbell = True\<rparr>"

definition first_turn :: poll_state where
  "first_turn = \<lparr>ps_interval = 200, ps_seen_doorbell = None, ps_next_full_scan = 0\<rparr>"

text \<open>A bucket with a rung doorbell, and a turn before the next full scan.\<close>

definition bell_world :: "bool list \<Rightarrow> mem" where
  "bell_world faults = mem_start\<lparr>mem_objects :=
     [(doorbell_key sample_transport ''alpha'', \<lparr>mo_body = [], mo_etag = 5, mo_mtime = 1000\<rparr>)], mem_faults := faults\<rparr>"

definition later_turn :: poll_state where
  "later_turn = \<lparr>ps_interval = 200, ps_seen_doorbell = None, ps_next_full_scan = 100\<rparr>"

definition reported_poll_failure :: "agent \<Rightarrow> bool" where
  "reported_poll_failure a \<longleftrightarrow> (\<exists>m. reported Ev_Poll m a)"

lemma mem_poll_from_env: "poll_from_env (\<lambda>_. None) [] = Inr mem_poll"
  by (simp add: poll_from_env_def bounded_env_def number_env_def mem_poll_def)

context executing
begin

lemma judge_returns: "judge E H N pol T agent_id cmd st \<noteq> None"
proof -
  have "execute E H N pol T table cmd s1 \<noteq> None" for table s1
    using run_command_returns [of pol T table cmd s1] by (auto simp: execute_def split: prod.splits)
  then show ?thesis by (simp add: judge_def del: not_None_eq split: prod.splits sum.splits option.splits)
qed

lemma handle_commands_return: "handle_commands E H N pol T agent_id cmds st \<noteq> None"
proof (induction cmds arbitrary: st)
  case (Cons cmd cmds)
  obtain v st1 where "judge E H N pol T agent_id cmd st = Some (v, st1)" using judge_returns by fast
  with Cons show ?case by simp
qed simp

lemma command_turn_returns: "\<exists>ps' a' s'. command_turn E H N pol poll T agent_id instance st = Some (ps', a', s')"
proof -
  have "command_turn E H N pol poll T agent_id instance st \<noteq> None"
    using handle_commands_return
    by (simp add: command_turn_def Let_def del: not_None_eq split: prod.splits sum.splits option.splits if_splits)
  then show ?thesis by auto
qed

end

lemma outcome_reported:
  assumes "executing E view rest H files unread target N"
  shows "\<exists>v a1 s1 a' s'. judge E H N pol T agent_id cmd (a, s) = Some (v, a1, s1)
    \<and> answer E T cmd v (a1, s1) = (a', s')
    \<and> (case v of
        Discarded why \<Rightarrow> reported Ev_Command (''discarded command: '' @ why) a'
      | Executed resp \<Rightarrow> response_stored E T view resp s'
          \<or> (\<exists>e. reported Ev_Response (''lost response for command '' @ cmd_id cmd @ '': '' @ error_alternate e) a')
      | Refused resp \<Rightarrow> response_stored E T view resp s'
          \<or> (\<exists>e. reported Ev_Response (''lost response for command '' @ cmd_id cmd @ '': '' @ error_alternate e) a')
      | _ \<Rightarrow> suspended (ag_presence a'))"
proof -
  have m: "machine E view rest H files unread target" using assms by (simp add: executing_def)
  have "judge E H N pol T agent_id cmd (a, s) \<noteq> None" by (rule executing.judge_returns [OF assms])
  then obtain v a1 s1 where v: "judge E H N pol T agent_id cmd (a, s) = Some (v, a1, s1)" by auto
  obtain a' s' where ans: "answer E T cmd v (a1, s1) = (a', s')" by fastforce
  from v show ?thesis
  proof (cases rule: judge_cases)
    case (declined now)
    with v ans show ?thesis by (auto simp: answer_def)
  next
    case (stood_down now s2)
    with machine.log_event_keeps [OF m stood_down(3)] v ans show ?thesis
      by (auto simp: answer_def suspended_def stand_down_def)
  next
    case (discarded e)
    with v ans log_event_reported [OF discarded(3)] show ?thesis by (auto simp: answer_def)
  next
    case (refused now e t s2)
    with v ans machine.report_lost_result [OF m, of T cmd _ a1 s1 a' s'] show ?thesis by (auto simp: answer_def)
  next
    case (executed now s2 resp table)
    with v ans machine.report_lost_result [OF m, of T cmd _ a1 s1 a' s'] show ?thesis by (auto simp: answer_def)
  qed
qed

lemma due_turn:
  assumes "relay E view rest"
    and "command_turn E H N pol poll T agent_id instance (ps, a, s) = Some (ps', a', s')"
    and "pp_use_doorbell poll \<longrightarrow> ps_next_full_scan ps \<le> fst (instant_ms E s)"
  shows "(\<exists>e. reported Ev_Poll (error_alternate e) a')
    \<or> (\<exists>cmds s2. handle_commands E H N pol T agent_id cmds (a, s2) = Some (a', s')
        \<and> cmds = sort_key cmd_created_at (List.map_filter (claimable E T instance (view s))
            (rest (view s) (cmd_prefix T agent_id) None))
        \<and> ps_interval ps' = (if cmds \<noteq> [] then pp_active poll else min (ps_interval ps * 2) (pp_idle poll)))"
proof -
  obtain t s0 where "instant_ms E s = (t, s0)" by fastforce
  then obtain s1 where look: "look E poll T agent_id ps (a, s) = ((True, ps_seen_doorbell ps), a, s1)"
    and s1: "s1 = s \<or> s1 = snd (instant_ms E s)"
    using assms(3) by (cases "pp_use_doorbell poll") (auto simp: look_def split: prod.splits)
  obtain now s2 where now: "instant_ms E s1 = (now, s2)" by fastforce
  have "view s1 = view s"
    using s1 bucket.instant_frame [OF relay.axioms(2) [OF assms(1)], of s] by auto
  then have v: "view s2 = view s"
    using bucket.instant_frame [OF relay.axioms(2) [OF assms(1)], of s1] now by simp
  obtain r s3 where drain: "drain_commands E T agent_id instance s2 = (r, s3)" by fastforce
  show ?thesis
  proof (cases r)
    case (Inl e)
    obtain a4 s4 where log: "log_event E Ev_Poll (error_alternate e) (a, s3) = (a4, s4)" by fastforce
    have "a' = a4" using assms(2) look now drain Inl log by (simp add: command_turn_def Let_def)
    with log_event_reported [OF log] show ?thesis by blast
  next
    case (Inr cmds)
    have "handle_commands E H N pol T agent_id cmds (a, s3) = Some (a', s')"
      and "ps_interval ps' = (if cmds \<noteq> [] then pp_active poll else min (ps_interval ps * 2) (pp_idle poll))"
      using assms(2) look now drain Inr by (auto simp: command_turn_def Let_def split: option.splits)
    moreover have "cmds = sort_key cmd_created_at (List.map_filter (claimable E T instance (view s))
        (rest (view s) (cmd_prefix T agent_id) None))"
      using relay.drain_commands_Inr [OF assms(1) drain [unfolded Inr]] by (simp add: v)
    ultimately show ?thesis by blast
  qed
qed

section \<open>Properties\<close>



text \<open>
  C27. No claimed command disappears without a trace: handling one comes to an end; a command
  whose routing fields are unsafe is named in the next heartbeat, and the response to one that
  was executed or refused is in the bucket, sealed at its key, or its loss is.
\<close>

theorem command_outcome_is_reported:
  assumes "executing E view rest H files unread target N"
  shows "\<exists>v a1 s1 a' s'. judge E H N pol T agent_id cmd (a, s) = Some (v, a1, s1)
    \<and> answer E T cmd v (a1, s1) = (a', s')
    \<and> (case v of
        Discarded why \<Rightarrow> reported Ev_Command (''discarded command: '' @ why) a'
      | Executed resp \<Rightarrow> response_stored E T view resp s'
          \<or> (\<exists>e. reported Ev_Response (''lost response for command '' @ cmd_id cmd @ '': '' @ error_alternate e) a')
      | Refused resp \<Rightarrow> response_stored E T view resp s'
          \<or> (\<exists>e. reported Ev_Response (''lost response for command '' @ cmd_id cmd @ '': '' @ error_alternate e) a')
      | _ \<Rightarrow> suspended (ag_presence a'))"
  by (rule outcome_reported [OF assms])

theorem command_outcome_is_reported_witness:
  "\<exists>v st. judge (mem_env no_tables) mem_host mem_node confined_policy sample_transport ''alpha''
      (command_of (ReadFile ''/src'' None)) (idle_agent, with_source) = Some (v, st)"
  using command_outcome_is_reported [OF mem_executing.executing_axioms, of no_tables confined_policy sample_transport
      "''alpha''" "command_of (ReadFile ''/src'' None)" idle_agent with_source] by blast

text \<open>
  C28. When a turn of the command loop starts with the full scan due, every command in the
  mailbox that this process may take is handled in this turn, in order of creation, whether or
  not the doorbell was rung; if listing or claiming fails, the next heartbeat tells.
\<close>

theorem due_turn_empties_the_mailbox:
  assumes "relay E view rest"
    and "command_turn E H N pol poll T agent_id instance (ps, a, s) = Some (ps', a', s')"
    and "pp_use_doorbell poll \<longrightarrow> ps_next_full_scan ps \<le> fst (instant_ms E s)"
  shows "(\<exists>e. reported Ev_Poll (error_alternate e) a')
    \<or> (\<exists>cmds s2. handle_commands E H N pol T agent_id cmds (a, s2) = Some (a', s')
        \<and> cmds = sort_key cmd_created_at (List.map_filter (claimable E T instance (view s))
            (rest (view s) (cmd_prefix T agent_id) None))
        \<and> ps_interval ps' = (if cmds \<noteq> [] then pp_active poll else min (ps_interval ps * 2) (pp_idle poll)))"
  by (rule due_turn [OF assms])

theorem due_turn_empties_the_mailbox_witness:
  "\<exists>ps' a' s'. command_turn (mem_env no_tables) mem_host mem_node confined_policy mem_poll sample_transport ''alpha'' ''i1''
      (first_turn, idle_agent, mem_start) = Some (ps', a', s')
    \<and> ((\<exists>e. reported Ev_Poll (error_alternate e) a') \<or> ps_interval ps' = 400)"
proof -
  obtain ps' a' s' where turn: "command_turn (mem_env no_tables) mem_host mem_node confined_policy mem_poll sample_transport
      ''alpha'' ''i1'' (first_turn, idle_agent, mem_start) = Some (ps', a', s')"
    using mem_executing.command_turn_returns by blast
  have "rest0 = []" if "set rest0 = {k \<in> dom (mem_view mem_start). prefix p k}" for rest0 :: "string list" and p
    using that by (auto simp: dom_def)
  then have "mem_rest (mem_view mem_start) (cmd_prefix sample_transport ''alpha'') None = []"
    using mem_bucket.list_first by metis
  with due_turn_empties_the_mailbox [OF mem.relay_axioms turn] turn show ?thesis
    by (auto simp: first_turn_def mem_poll_def List.map_filter_def)
qed

text \<open>
  The interval between two looks at the mailbox stays between the configured bounds:
  settings that are accepted put the active interval at 100 ms or more and the idle one at
  five minutes or less, and every turn keeps it between the two.
\<close>

theorem poll_interval_stays_bounded:
  assumes "poll_from_env setting invalid = Inr poll"
    and "pp_active poll \<le> ps_interval ps" and "ps_interval ps \<le> pp_idle poll"
    and "command_turn E H N pol poll T agent_id instance (ps, a, s) = Some (ps', a', s')"
  shows "100 \<le> pp_active poll \<and> pp_active poll \<le> ps_interval ps' \<and> ps_interval ps' \<le> pp_idle poll
    \<and> pp_idle poll \<le> 300000"
proof -
  have "100 \<le> pp_active poll" "pp_active poll \<le> pp_idle poll" "pp_idle poll \<le> 300000"
    using assms(1) by (auto simp: poll_from_env_def bounded_env_def res_then_Inr_iff)
  moreover have "ps_interval ps' = pp_active poll \<or> ps_interval ps' = min (ps_interval ps * 2) (pp_idle poll)"
    using assms(4) by (auto simp: command_turn_def Let_def split: prod.splits sum.splits option.splits if_splits)
  ultimately show ?thesis using assms(2,3) by auto
qed

theorem poll_interval_stays_bounded_witness:
  "\<exists>ps' a' s'. command_turn (mem_env no_tables) mem_host mem_node confined_policy mem_poll sample_transport ''alpha'' ''i1''
      (first_turn, idle_agent, mem_start) = Some (ps', a', s') \<and> 200 \<le> ps_interval ps' \<and> ps_interval ps' \<le> 5000"
proof -
  obtain ps' a' s' where turn: "command_turn (mem_env no_tables) mem_host mem_node confined_policy mem_poll sample_transport
      ''alpha'' ''i1'' (first_turn, idle_agent, mem_start) = Some (ps', a', s')"
    using mem_executing.command_turn_returns by blast
  from poll_interval_stays_bounded [OF mem_poll_from_env _ _ turn] turn show ?thesis
    by (simp add: first_turn_def mem_poll_def)
qed

text \<open>
  C29. A rung doorbell is answered once, even when the answer fails: if the drain of the turn
  that noticed the bell fails, then until the full scan is due or the bell is rung again, a
  turn does nothing but lengthen the interval, and the commands wait.
\<close>

theorem failed_drain_silences_the_doorbell:
  assumes "look E poll T agent_id ps (a, s) = ((True, tag), a, s1)"
    and "instant_ms E s1 = (now, s2)" and "drain_commands E T agent_id instance s2 = (Inl e, s3)"
    and "command_turn E H N pol poll T agent_id instance (ps, a, s) = Some (ps1, a1, s4)"
    and "pp_use_doorbell poll" and "instant_ms E s5 = (later, s6)" and "later < now + pp_full_scan poll"
    and "doorbell_tag E T agent_id s6 = (Inr tag, s7)"
  shows "command_turn E H N pol poll T agent_id instance (ps1, a1, s5)
    = Some (ps1\<lparr>ps_interval := min (ps_interval ps1 * 2) (pp_idle poll)\<rparr>, a1, s7)"
proof -
  have "ps_seen_doorbell ps1 = tag" "ps_next_full_scan ps1 = now + pp_full_scan poll"
    using assms(1-4) by (auto simp: command_turn_def Let_def)
  with assms(5-8) show ?thesis by (simp add: command_turn_def look_def Let_def)
qed

theorem failed_drain_silences_the_doorbell_witness:
  "\<exists>ps1 a1 s4. command_turn (mem_env no_tables) mem_host mem_node confined_policy mem_poll sample_transport ''alpha'' ''i1''
      (later_turn, idle_agent, bell_world [False, True]) = Some (ps1, a1, s4) \<and> reported_poll_failure a1
    \<and> command_turn (mem_env no_tables) mem_host mem_node confined_policy mem_poll sample_transport ''alpha'' ''i1''
      (ps1, a1, bell_world []) = Some (ps1\<lparr>ps_interval := min (ps_interval ps1 * 2) 5000\<rparr>, a1, bell_world [])"
proof -
  let ?E = "mem_env no_tables" and ?tag = "Some (dec 5)"
  have tag: "doorbell_tag ?E sample_transport ''alpha'' (bell_world (False # fs)) = (Inr ?tag, bell_world fs)"
    "doorbell_tag ?E sample_transport ''alpha'' (bell_world []) = (Inr ?tag, bell_world [])" for fs
    by (simp_all add: doorbell_tag_def head_tag_def io_simps mem_head_def request_def bell_world_def)
  have look: "look ?E mem_poll sample_transport ''alpha'' later_turn (idle_agent, bell_world [False, True])
      = ((True, ?tag), idle_agent, bell_world [True])"
    by (simp add: look_def mem_poll_def later_turn_def tag bell_world_def mem_start_def del: dec.simps)
      (use tag(1) [of "[True]"] in \<open>simp add: bell_world_def mem_start_def del: dec.simps\<close>)
  have list: "mem_list p t (bell_world [True]) = (bail ''service unavailable'', bell_world [])" for p t
    by (simp add: mem_list_def request_def bell_world_def)
  have fuel: "MAX_LISTED_OBJECTS + 2 = Suc 10001" by (simp add: MAX_LISTED_OBJECTS_def)
  have listed: "\<exists>e. list_keys ?E p (bell_world [True]) = (Inl e, bell_world [])" for p
    unfolding list_keys_def fuel list_loop.simps by (simp add: io_simps list bail_def)
  then obtain e where listed: "list_keys ?E (cmd_prefix sample_transport ''alpha'') (bell_world [True]) = (Inl e, bell_world [])"
    by blast
  have drain: "drain_commands ?E sample_transport ''alpha'' ''i1'' (bell_world [True]) = (Inl e, bell_world [])"
    by (simp add: drain_commands_def listed io_simps)
  have instant: "instant_ms ?E (bell_world fs) = (0, bell_world fs)" for fs
    by (simp add: bell_world_def mem_start_def)
  obtain ps1 a1 s4 where turn: "command_turn ?E mem_host mem_node confined_policy mem_poll sample_transport ''alpha'' ''i1''
      (later_turn, idle_agent, bell_world [False, True]) = Some (ps1, a1, s4)"
    using mem_executing.command_turn_returns by blast
  then have "reported_poll_failure a1"
    using look instant drain
    by (auto simp: command_turn_def Let_def reported_poll_failure_def split: prod.splits dest!: log_event_reported)
  with turn failed_drain_silences_the_doorbell [OF look instant drain turn _ instant _ tag(2)] show ?thesis
    by (simp add: mem_poll_def)
qed

text \<open>
  The heartbeat tells the controller what the process knows: after a turn of the heartbeat
  task whose upload succeeds, the object at the agent's key is a heartbeat of this instance
  with its suspension, the rival it sees, its running jobs and its recent problems; after one
  whose upload fails, the failure is the newest of these problems.
\<close>

theorem heartbeat_reports_the_process:
  assumes "relay E view rest" and "heartbeat_turn E N W T me (a, s) = (a', s')"
  shows "(\<exists>e. reported Ev_Heartbeat (error_alternate e) a')
    \<or> (\<exists>b hb. view s' (agent_key T (id_agent_id me)) = Some b
        \<and> open_sealed E (tp_crypto T) (heartbeat_json E) (agent_key T (id_agent_id me)) b = Inr hb
        \<and> hb_agent_id hb = id_agent_id me \<and> hb_instance hb = id_instance me
        \<and> hb_suspended hb = suspended (ag_presence a') \<and> hb_conflict_with hb = pr_conflict_with (ag_presence a')
        \<and> hb_jobs_running hb = running_count (ag_jobs a') \<and> hb_recent_errors hb = ag_events a')"
proof -
  obtain a1 s1 where look: "look_for_others E T me (a, s) = (a1, s1)" by fastforce
  obtain sampled s2 where sample: "os_sample W s1 = (sampled, s2)" by fastforce
  obtain now s3 where now: "clock_unix E s2 = (now, s3)" by fastforce
  let ?hb = "heartbeat_of N me a1 sampled now"
  obtain r s4 where wr: "write_heartbeat E T ?hb s3 = (r, s4)" by fastforce
  have hb: "hb_agent_id ?hb = id_agent_id me" "hb_instance ?hb = id_instance me"
    "hb_suspended ?hb = suspended (ag_presence a1)" "hb_conflict_with ?hb = pr_conflict_with (ag_presence a1)"
    "hb_jobs_running ?hb = running_count (ag_jobs a1)" "hb_recent_errors ?hb = ag_events a1"
    by (simp_all add: heartbeat_of_def presence_snapshot_def suspended_def)
  show ?thesis
  proof (cases r)
    case (Inl e)
    then have "log_event E Ev_Heartbeat (error_alternate e) (a1, s4) = (a', s')"
      using assms(2) look sample now wr by (simp add: heartbeat_turn_def)
    from log_event_reported [OF this] show ?thesis by blast
  next
    case (Inr u)
    then have a': "a' = a1" "s' = s4" using assms(2) look sample now wr by (simp_all add: heartbeat_turn_def)
    have "put_encrypted E T (heartbeat_json E) (agent_key T (id_agent_id me)) ?hb s3 = (Inr u, s4)"
      using wr Inr hb(1) by (auto simp: write_heartbeat_def io_then_Inr)
    from relay.put_encrypted_Inr [OF assms(1) this crates.heartbeat_ok [OF relay.axioms(1) [OF assms(1)]]]
    obtain b where "view s4 = (view s3)(agent_key T (id_agent_id me) \<mapsto> b)"
      "open_sealed E (tp_crypto T) (heartbeat_json E) (agent_key T (id_agent_id me)) b = Inr ?hb" by blast
    then show ?thesis using hb a' by auto
  qed
qed

theorem heartbeat_reports_the_process_witness:
  "\<exists>a' s'. heartbeat_turn (mem_env no_tables) mem_node mem_os sample_transport
      \<lparr>id_agent_id = ''alpha'', id_instance = ''i1'', id_started_at = 0, id_ttl_secs = 45, id_binary_sha256 = None\<rparr>
      (idle_agent, mem_start) = (a', s')
    \<and> ((\<exists>e. reported Ev_Heartbeat (error_alternate e) a') \<or> mem_view s' (agent_key sample_transport ''alpha'') \<noteq> None)"
proof -
  obtain a' s' where turn: "heartbeat_turn (mem_env no_tables) mem_node mem_os sample_transport
      \<lparr>id_agent_id = ''alpha'', id_instance = ''i1'', id_started_at = 0, id_ttl_secs = 45, id_binary_sha256 = None\<rparr>
      (idle_agent, mem_start) = (a', s')" by fastforce
  from heartbeat_reports_the_process [OF mem.relay_axioms turn] turn show ?thesis by auto
qed

text \<open>
  An update that waits for jobs is looked at again, one that is settled is not: after a
  check the tag counts as settled exactly when the outcome was not a deferral or an error, and
  as long as the tag of the manifest is the settled one, a turn ends with reading the tag.
\<close>

theorem deferred_update_is_reconsidered:
  assumes "update_manifest_tag E T agent_id s = (Inr tag, s1)" and "uw_settled w \<noteq> Some tag"
    and "check_and_apply E H U T agent_id state_path (running_count (ag_jobs a)) s1 = Some (r, s2)"
    and "update_turn E H U T agent_id state_path (w, a, s) = Some (installed, w', a', s')"
  shows "installed = (case r of Inr (Applied v _) \<Rightarrow> Some v | _ \<Rightarrow> None)
    \<and> (installed = None \<longrightarrow> (uw_settled w' = Some tag \<longleftrightarrow> (\<exists>out. r = Inr out \<and> is_settled out)))
    \<and> (uw_settled w' = Some tag \<longrightarrow> update_manifest_tag E T agent_id s3 = (Inr tag, s4) \<longrightarrow>
        update_turn E H U T agent_id state_path (w', a', s3) = Some (None, w', a', s4))"
proof -
  have announced: "announce E tag m (w, a, s2) = (w1, a1, s3) \<Longrightarrow> uw_settled w1 = uw_settled w" for m w1 a1 s3
    by (auto simp: announce_def split: if_splits)
  have "installed = (case r of Inr (Applied v _) \<Rightarrow> Some v | _ \<Rightarrow> None)
    \<and> (installed = None \<longrightarrow> (uw_settled w' = Some tag \<longleftrightarrow> (\<exists>out. r = Inr out \<and> is_settled out)))"
  proof (cases r)
    case (Inl e)
    with assms show ?thesis by (auto simp: update_turn_def)
  next
    case (Inr out)
    with assms announced show ?thesis
      by (cases out) (auto simp: update_turn_def is_settled_def dest!: announced split: prod.splits)
  qed
  then show ?thesis by (simp add: update_turn_def)
qed

theorem deferred_update_is_reconsidered_witness:
  "\<exists>w' a' s'. update_turn (mem_env no_tables) mem_host (mem_updater [recorded]) sample_transport ''alpha'' state_file
      (\<lparr>uw_settled = None, uw_announced = None\<rparr>, idle_agent, installed_world) = Some (None, w', a', s')
    \<and> uw_settled w' = Some None"
proof -
  let ?w = "\<lparr>uw_settled = None, uw_announced = None\<rparr> :: update_watch"
  have tag: "update_manifest_tag (mem_env no_tables) sample_transport ''alpha'' installed_world = (Inr None, installed_world)"
    by (simp add: update_manifest_tag_def head_tag_def io_simps mem_head_def request_def installed_world_def mem_start_def)
  obtain installed w' a' s' where turn: "update_turn (mem_env no_tables) mem_host (mem_updater [recorded]) sample_transport
      ''alpha'' state_file (?w, idle_agent, installed_world) = Some (installed, w', a', s')"
    using tag by (auto simp: update_turn_def mem_no_manifest)
  from deferred_update_is_reconsidered [OF tag _ mem_no_manifest turn] turn show ?thesis
    by (simp add: is_settled_def)
qed

end
