(* ===== verification/Relaying.thy ===== *)
theory Relaying
  imports Controller AgentTurns
begin

text \<open>
  What relaying comes to: the controller's side settles every command it sends, the two sides
  together answer it, and a file that was pulled is the file the agent described.
\<close>

section \<open>Sending\<close>

lemma transport_for_Inr:
  "transport_for C agent = Inr T \<longleftrightarrow> validate_agent_id agent = Inr () \<and> agent \<in> set (ct_allowed_agents C)
     \<and> map_of (ct_transports C) agent = Some T"
  by (auto simp: transport_for_def validate_agent_def res_then_Inr_iff ok_or_def split: option.splits)

lemma dispatch_Inr:
  assumes "dispatch E C agent addressed kind timeout s = (Inr (T, cmd), s')"
  shows "transport_for C agent = Inr T
    \<and> (\<exists>now uuid s1. cmd = addressed (command_new uuid now agent kind timeout (ct_queue_ttl_secs C))
        \<and> send_command E T cmd s1 = (Inr (), s'))"
  using assms by (auto simp: dispatch_def new_command_def io_then_Inr)

lemma command_new_sel [simp]:
  "cmd_agent_id (command_new u now a k t q) = a" "cmd_kind (command_new u now a k t q) = k"
  "cmd_id (command_new u now a k t q) = u" "cmd_instance (command_new u now a k t q) = None"
  "cmd_created_at (command_new u now a k t q) = now"
  by (simp_all add: command_new_def)

text \<open>How a relayed command ends, once it is sent.\<close>

lemma relay_with_Some:
  "relay_with E C agent kind timeout cap s = Some (out, s') \<longleftrightarrow>
    (\<exists>e. dispatch E C agent (\<lambda>cmd. cmd) kind (max timeout 1) s = (Inl e, s') \<and> out = Inl e)
    \<or> (\<exists>T cmd s1. dispatch E C agent (\<lambda>cmd. cmd) kind (max timeout 1) s = (Inr (T, cmd), s1)
      \<and> ((\<exists>e. await_response E T cmd (wait_ms C (max timeout 1) cap) (ct_poll_interval C) s1 = Some (Inl e, s') \<and> out = Inl e)
       \<or> (\<exists>answer s2. await_response E T cmd (wait_ms C (max timeout 1) cap) (ct_poll_interval C) s1 = Some (Inr answer, s2)
           \<and> settle E T cmd answer s2 = (out, s'))))"
  unfolding relay_with_def Let_def by (fastforce simp: w_then_Some split: prod.splits)

lemma settle_simps [simp]:
  "settle E T cmd (Some r) s = (Inr r, s)"
  "settle E T cmd None s =
     (bail (''timed out waiting for agent response; command id '' @ cmd_id cmd), snd (delete_command E T cmd s))"
  by (simp_all add: settle_def io_then_def io_ignore_def io_lift_def io_ok_def split: prod.splits)

lemma relay_with_returns:
  assumes "monotonic E elapsed" and "0 < ct_poll_interval C"
  shows "relay_with E C agent kind timeout cap s \<noteq> None"
proof -
  have wait: "await_response E T cmd w (ct_poll_interval C) s1 \<noteq> None" for T cmd w s1
    using monotonic.await_returns [OF assms, of T cmd w s1] by auto
  show ?thesis
    unfolding relay_with_def Let_def
  proof (rule w_then_returns)
    fix x :: "transport \<times> command" and s'
    obtain T cmd where x: "x = (T, cmd)" by (cases x)
    show "(case x of (T, cmd) \<Rightarrow> w_then (await_response E T cmd (wait_ms C (max timeout 1) cap) (ct_poll_interval C))
        (\<lambda>answer. w_io (settle E T cmd answer))) s' \<noteq> None"
      unfolding x prod.case by (rule w_then_returns [OF wait w_io_returns])
  qed simp
qed

text \<open>What the controller accepts as the response to a command, and what it leaves of it.\<close>

definition accepted :: "transport \<Rightarrow> command \<Rightarrow> response \<Rightarrow> ('s \<Rightarrow> string \<Rightarrow> bytes option) \<Rightarrow> 's \<Rightarrow> bool" where
  "accepted T cmd r view s \<longleftrightarrow> resp_id r = cmd_id cmd \<and> resp_agent_id r = cmd_agent_id cmd
     \<and> resp_protocol r = PROTOCOL_VERSION \<and> view s (resp_key T (cmd_agent_id cmd) (cmd_id cmd)) = None"

lemma await_accepted:
  assumes "relay E view rest"
    and "await_response E T cmd timeout interval s = Some (Inr (Some r), s')"
  shows "accepted T cmd r view s'"
proof -
  obtain t s1 where "instant_ms E s = (t, s1)" by (cases "instant_ms E s")
  with assms(2) have "await_loop E T cmd (t + timeout) (max interval RESPONSE_POLL_CEILING) interval s1
      = Some (Inr (Some r), s')"
    by (simp add: await_response_def)
  note sound = relay.await_loop_sound [OF assms(1) this, rule_format, OF refl]
  then show ?thesis by (auto simp: accepted_def validate_response_for_def)
qed

section \<open>The two sides together\<close>

lemma verdict_responses:
  assumes "judge E H N pol T agent_id cmd st = Some (v, st')" and "v = Executed r \<or> v = Refused r"
  shows "resp_id r = cmd_id cmd \<and> resp_agent_id r = cmd_agent_id cmd"
proof -
  obtain a s a' s' where st: "st = (a, s)" "st' = (a', s')" by (cases st; cases st')
  from assms(1) [unfolded st] show ?thesis
  proof (cases rule: judge_cases)
    case (refused now e t s1)
    with assms(2) show ?thesis by (auto simp: response_err_def)
  next
    case (executed now s1 resp table)
    then have "resp = r" using assms(2) by auto
    with executed(5) show ?thesis
      by (auto simp: execute_def response_ok_def response_err_def split: option.splits prod.splits sum.splits)
  qed (use assms(2) in auto)
qed

lemma stored_response_awaited:
  assumes "relay E view rest" and "response_stored E T view r s"
    and "resp_id r = cmd_id cmd" and "resp_agent_id r = cmd_agent_id cmd"
    and "view s1 (resp_key T (cmd_agent_id cmd) (cmd_id cmd)) = view s (resp_key T (cmd_agent_id cmd) (cmd_id cmd))"
    and "await_response E T cmd timeout interval s1 = Some (out, s2)"
  shows "(\<exists>e. out = Inl e) \<or> out = Inr (Some r)"
proof -
  obtain b where "view s (resp_key T (cmd_agent_id cmd) (cmd_id cmd)) = Some b"
    "open_sealed E (tp_crypto T) (response_json E) (resp_key T (cmd_agent_id cmd) (cmd_id cmd)) b = Inr r"
    using assms(2-4) by (auto simp: response_stored_def split: option.splits)
  then show ?thesis using relay.await_response_first [OF assms(1) _ _ assms(6)] assms(5) by simp
qed

lemma distinct_singleton: "set xs = {x} \<Longrightarrow> distinct xs \<Longrightarrow> xs = [x]"
  by (cases xs; cases "tl xs") auto

text \<open>The mailbox holds one object, and it is the command that was sent.\<close>

lemma lone_command_claimed:
  assumes "relay E view rest"
    and "dispatch E C agent (\<lambda>cmd. cmd) kind timeout s = (Inr (T, cmd), s1)"
    and "view s2 (cmd_key T agent (cmd_id cmd)) = view s1 (cmd_key T agent (cmd_id cmd))"
    and "{k \<in> dom (view s2). prefix (cmd_prefix T agent) k} = {cmd_key T agent (cmd_id cmd)}"
  shows "List.map_filter (claimable E T inst (view s2)) (rest (view s2) (cmd_prefix T agent) None) = [cmd]"
proof -
  let ?key = "cmd_key T agent (cmd_id cmd)"
  obtain now uuid s0 where cmd: "cmd = command_new uuid now agent kind timeout (ct_queue_ttl_secs C)"
    and sent: "send_command E T cmd s0 = (Inr (), s1)"
    using dispatch_Inr [OF assms(2)] by blast
  have who: "cmd_agent_id cmd = agent" "cmd_instance cmd = None" by (simp_all add: cmd)
  have "command_at E T (view s1) ?key = Some cmd"
    using relay.send_command_Inr [OF assms(1) sent] who by simp
  moreover have "command_at E T (view s2) ?key = command_at E T (view s1) ?key"
    using assms(3) by (rule command_at_cong)
  ultimately have "command_at E T (view s2) ?key = Some cmd" by simp
  then have claim: "claimable E T inst (view s2) ?key = Some cmd"
    by (simp add: claimable_Some for_other_instance_def who)
  have "set (rest (view s2) (cmd_prefix T agent) None) = {?key}" "distinct (rest (view s2) (cmd_prefix T agent) None)"
    using bucket.list_first [OF relay.axioms(2) [OF assms(1)]]
      bucket.list_distinct [OF relay.axioms(2) [OF assms(1)]] assms(4) by simp_all
  then have "rest (view s2) (cmd_prefix T agent) None = [?key]"
    by (rule distinct_singleton)
  then show ?thesis by (simp add: List.map_filter_def claim)
qed

lemma lone_command_handled:
  assumes "executing E view rest H files unread target N"
    and "handle_commands E H N pol T agent [cmd] (a, s) = Some (a', s')"
  shows "(\<exists>v r st. judge E H N pol T agent cmd (a, s) = Some (v, st) \<and> (v = Executed r \<or> v = Refused r)
        \<and> response_stored E T view r s')
    \<or> (\<exists>m. reported Ev_Command m a' \<or> reported Ev_Response m a') \<or> suspended (ag_presence a')"
proof -
  obtain v a1 s1 a2 s2 where v: "judge E H N pol T agent cmd (a, s) = Some (v, a1, s1)"
    and two: "answer E T cmd v (a1, s1) = (a2, s2)"
    and told: "case v of
        Discarded why \<Rightarrow> reported Ev_Command (''discarded command: '' @ why) a2
      | Executed resp \<Rightarrow> response_stored E T view resp s2
          \<or> (\<exists>e. reported Ev_Response (''lost response for command '' @ cmd_id cmd @ '': '' @ error_alternate e) a2)
      | Refused resp \<Rightarrow> response_stored E T view resp s2
          \<or> (\<exists>e. reported Ev_Response (''lost response for command '' @ cmd_id cmd @ '': '' @ error_alternate e) a2)
      | _ \<Rightarrow> suspended (ag_presence a2)"
    using outcome_reported [OF assms(1), where pol = pol and T = T and agent_id = agent and cmd = cmd and a = a and s = s]
    by (elim exE conjE) (erule that, assumption+)
  have "a' = a2" "s' = s2" using assms(2) v two by simp_all
  note result = this
  show ?thesis
  proof (cases v)
    case (Discarded why)
    have "reported Ev_Command (''discarded command: '' @ why) a'"
      using told unfolding Discarded verdict.case result .
    then show ?thesis by blast
  next
    case (Refused r)
    have "response_stored E T view r s' \<or> (\<exists>m. reported Ev_Response m a')"
      using told unfolding Refused verdict.case result by blast
    with v Refused show ?thesis by blast
  next
    case (Executed r)
    have "response_stored E T view r s' \<or> (\<exists>m. reported Ev_Response m a')"
      using told unfolding Executed verdict.case result by blast
    with v Executed show ?thesis by blast
  next
    case (Declined r)
    have "suspended (ag_presence a')" using told unfolding Declined verdict.case result .
    then show ?thesis by blast
  next
    case (Stood_down r)
    have "suspended (ag_presence a')" using told unfolding Stood_down verdict.case result .
    then show ?thesis by blast
  qed
qed

section \<open>A concrete controller\<close>

definition sample_controller :: controller where
  "sample_controller = \<lparr>ct_transports = [(''alpha'', sample_transport)], ct_allowed_agents = [''alpha''],
     ct_queue_ttl_secs = 60, ct_max_exec_secs = 300, ct_max_wait_secs = 120, ct_max_transfer_secs = 3600,
     ct_share_retention_days = 7, ct_poll_interval = 250\<rparr>"

lemma sample_dispatch:
  "\<exists>w. dispatch (mem_env sample_tables) sample_controller ''alpha'' (\<lambda>cmd. cmd) Ping 10 mem_start
       = (Inr (sample_transport, sample_command), w)
     \<and> {k \<in> dom (mem_view w). prefix (cmd_prefix sample_transport ''alpha'') k} = {cmd_key sample_transport ''alpha'' (sample_uuid 1)}"
proof -
  let ?E = "mem_env sample_tables" and ?key = "cmd_key sample_transport ''alpha'' (sample_uuid 1)"
  have id: "dec_fixed 36 (Suc 0) = sample_uuid (Suc 0)"
    by code_simp
  have start: "new_command ?E ''alpha'' Ping 10 60 mem_start = (Inr sample_command, reseeded mem_start)"
    by (simp add: new_command_def io_simps now_unix_def uuid_v4_def mem_start_def reseeded_def id sample_command_def
        del: dec_fixed.simps)
  obtain w where sent: "send_command ?E sample_transport sample_command (reseeded mem_start) = (Inr (), w)"
    using mem_send [of "reseeded mem_start" sample_command] by auto
  from mem.send_command_Inr [OF sent]
  have key: "mem_view w ?key \<noteq> None" and
    other: "\<And>k. k \<noteq> ?key \<Longrightarrow> k \<noteq> doorbell_key sample_transport ''alpha'' \<Longrightarrow> mem_view w k = None"
    by (auto dest: command_at_SomeD simp: mem_view_def mem_start_def)
  have "\<not> prefix (cmd_prefix sample_transport ''alpha'') (doorbell_key sample_transport ''alpha'')"
    by (simp add: cmd_prefix_def doorbell_key_def)
  then have "{k \<in> dom (mem_view w). prefix (cmd_prefix sample_transport ''alpha'') k} = {?key}"
    using key other cmd_key_prefix [of sample_transport "''alpha''" "sample_uuid 1"]
    by (intro set_eqI) (simp only: mem_Collect_eq singleton_iff dom_def, metis)
  moreover have "dispatch ?E sample_controller ''alpha'' (\<lambda>cmd. cmd) Ping 10 mem_start
      = (Inr (sample_transport, sample_command), w)"
    unfolding dispatch_def using sent start
    by (simp add: sample_controller_def transport_for_def validate_agent_def ok_or_def io_then_def io_lift_def io_ok_def)
  ultimately show ?thesis by blast
qed

section \<open>Properties\<close>

text \<open>
  C8. A relayed command is settled: the relay returns; it answers with the sending error and
  nothing else, or with a response that names the command, its agent and this protocol and is
  gone from the bucket, or, after the deadline, with an error and the command deleted, unless
  that request failed too; only a failed poll can leave the command waiting to expire.
\<close>

theorem relay_settles_the_command:
  assumes "relay E view rest" and "monotonic E elapsed" and "0 < ct_poll_interval C"
  shows "\<exists>out s'. relay_with E C agent kind timeout cap s = Some (out, s')
    \<and> (case dispatch E C agent (\<lambda>cmd. cmd) kind (max timeout 1) s of
        (Inl e, s1) \<Rightarrow> out = Inl e \<and> s' = s1
      | (Inr (T, cmd), s1) \<Rightarrow>
          (case await_response E T cmd (wait_ms C (max timeout 1) cap) (ct_poll_interval C) s1 of
             None \<Rightarrow> False
           | Some (Inl e, s2) \<Rightarrow> out = Inl e \<and> s' = s2
           | Some (Inr None, s2) \<Rightarrow> \<not> is_ok out
               \<and> (is_ok (fst (delete_command E T cmd s2)) \<longrightarrow> view s' (cmd_key T (cmd_agent_id cmd) (cmd_id cmd)) = None)
           | Some (Inr (Some r), s2) \<Rightarrow> out = Inr r \<and> accepted T cmd r view s'))"
proof -
  let ?t = "max timeout 1"
  obtain out s' where run: "relay_with E C agent kind timeout cap s = Some (out, s')"
    using relay_with_returns [OF assms(2,3), of agent kind timeout cap s] by auto
  from run [unfolded relay_with_Some] show ?thesis
  proof (elim disjE exE conjE)
    fix T cmd s1 answer s2
    assume sent: "dispatch E C agent (\<lambda>cmd. cmd) kind ?t s = (Inr (T, cmd), s1)"
      and got: "await_response E T cmd (wait_ms C ?t cap) (ct_poll_interval C) s1 = Some (Inr answer, s2)"
      and out: "settle E T cmd answer s2 = (out, s')"
    show ?thesis
    proof (cases answer)
      case None
      obtain q s3 where del: "delete_command E T cmd s2 = (q, s3)" by fastforce
      have "view s3 (cmd_key T (cmd_agent_id cmd) (cmd_id cmd)) = None" if "is_ok q"
        using that del by (cases q) (auto simp: delete_command_def io_then_Inr dest: relay.delete_key_Inr [OF assms(1)])
      moreover have "\<not> is_ok out" "s' = s3"
        using out del None by (auto simp: settle_simps simp del: append.simps)
      ultimately show ?thesis using run sent got None del by simp
    next
      case (Some r)
      with got await_accepted [OF assms(1)] have "accepted T cmd r view s2" by blast
      with run sent got out Some show ?thesis by simp
    qed
  qed (use run in simp_all)
qed

theorem relay_settles_the_command_witness:
  "\<exists>out s'. relay_with (mem_env sample_tables) sample_controller ''alpha'' Ping 10 120 mem_start = Some (out, s')"
  using relay_settles_the_command [OF mem.relay_axioms mem_time.monotonic_axioms,
      of sample_controller sample_tables "''alpha''" Ping 10 120 mem_start]
  by (simp add: sample_controller_def) blast

text \<open>
  C1. The two sides together answer a command: when the command that the controller sent is the
  one object in the agent's mailbox and the agent takes a turn with its full scan due, then a
  controller that polls afterwards gets the response of executing or refusing exactly this
  command, unless its own poll fails, the agent reports a failed poll, a discarded command or a
  lost response in its next heartbeat, or the agent is suspended.
\<close>

theorem relayed_command_is_answered:
  assumes "executing E view rest H files unread target N"
    and "dispatch E C agent (\<lambda>cmd. cmd) kind timeout s = (Inr (T, cmd), s1)"
    and "view s2 (cmd_key T agent (cmd_id cmd)) = view s1 (cmd_key T agent (cmd_id cmd))"
    and "{k \<in> dom (view s2). prefix (cmd_prefix T agent) k} = {cmd_key T agent (cmd_id cmd)}"
    and "pp_use_doorbell poll \<longrightarrow> ps_next_full_scan ps \<le> fst (instant_ms E s2)"
    and "command_turn E H N pol poll T agent inst (ps, a, s2) = Some (ps', a', s3)"
    and "view s4 (resp_key T agent (cmd_id cmd)) = view s3 (resp_key T agent (cmd_id cmd))"
    and "await_response E T cmd wait interval s4 = Some (out, s5)"
  shows "(\<exists>r v s' st. out = Inr (Some r) \<and> (v = Executed r \<or> v = Refused r)
        \<and> judge E H N pol T agent cmd (a, s') = Some (v, st))
    \<or> \<not> is_ok out
    \<or> (\<exists>m. reported Ev_Poll m a' \<or> reported Ev_Command m a' \<or> reported Ev_Response m a')
    \<or> suspended (ag_presence a')"
proof -
  have m: "machine E view rest H files unread target" using assms(1) by (simp add: executing_def)
  have r: "relay E view rest" using m by (simp add: machine_def)
  have who: "cmd_agent_id cmd = agent" using dispatch_Inr [OF assms(2)] by auto
  note claimed = lone_command_claimed [OF r assms(2,3,4), of inst]
  have "sort_key cmd_created_at [cmd] = [cmd]" by simp
  with due_turn [OF r assms(6,5)] consider (told) m where "reported Ev_Poll m a'"
    | (run) s' where "handle_commands E H N pol T agent [cmd] (a, s') = Some (a', s3)"
    unfolding claimed by auto
  then show ?thesis
  proof cases
    case run
    from lone_command_handled [OF assms(1) run]
    consider (kept) v r st where "judge E H N pol T agent cmd (a, s') = Some (v, st)" "v = Executed r \<or> v = Refused r"
        "response_stored E T view r s3"
      | (told) m where "reported Ev_Command m a' \<or> reported Ev_Response m a'" | (off) "suspended (ag_presence a')"
      by blast
    then show ?thesis
    proof cases
      case kept
      from verdict_responses [OF kept(1,2)] have ids: "resp_id r = cmd_id cmd" "resp_agent_id r = cmd_agent_id cmd"
        by simp_all
      have "(\<exists>e. out = Inl e) \<or> out = Inr (Some r)"
        using stored_response_awaited [OF \<open>relay E view rest\<close> kept(3) ids _ assms(8)] assms(7) who by simp
      then show ?thesis using kept(1,2) by fastforce
    qed blast+
  qed blast
qed

theorem relayed_command_is_answered_witness:
  "\<exists>s1 ps' a' s3 out s4. dispatch (mem_env sample_tables) sample_controller ''alpha'' (\<lambda>cmd. cmd) Ping 10 mem_start
      = (Inr (sample_transport, sample_command), s1)
    \<and> command_turn (mem_env sample_tables) mem_host mem_node confined_policy mem_poll sample_transport ''alpha'' ''i1''
        (first_turn, idle_agent, s1) = Some (ps', a', s3)
    \<and> await_response (mem_env sample_tables) sample_transport sample_command 30000 250 s3 = Some (out, s4)
    \<and> ((\<exists>r. out = Inr (Some r)) \<or> \<not> is_ok out
       \<or> (\<exists>m. reported Ev_Poll m a' \<or> reported Ev_Command m a' \<or> reported Ev_Response m a')
       \<or> suspended (ag_presence a'))"
proof -
  let ?E = "mem_env sample_tables"
  obtain s1 where sent: "dispatch ?E sample_controller ''alpha'' (\<lambda>cmd. cmd) Ping 10 mem_start
      = (Inr (sample_transport, sample_command), s1)"
    and lone: "{k \<in> dom (mem_view s1). prefix (cmd_prefix sample_transport ''alpha'') k}
      = {cmd_key sample_transport ''alpha'' (cmd_id sample_command)}"
    using sample_dispatch by auto
  obtain ps' a' s3 where turn: "command_turn ?E mem_host mem_node confined_policy mem_poll sample_transport ''alpha'' ''i1''
      (first_turn, idle_agent, s1) = Some (ps', a', s3)"
    using mem_executing.command_turn_returns by blast
  have due: "pp_use_doorbell mem_poll \<longrightarrow> ps_next_full_scan first_turn \<le> fst (instant_ms ?E s1)"
    by (simp add: first_turn_def)
  obtain out s4 where got: "await_response ?E sample_transport sample_command 30000 250 s3 = Some (out, s4)"
    using mem_time.await_returns [of 250 sample_tables sample_transport sample_command 30000 s3] by auto
  from relayed_command_is_answered [OF mem_executing.executing_axioms sent refl lone due turn refl got]
  show ?thesis using sent turn got by blast
qed

section \<open>A pulled file\<close>

lemma place_pulled_Inr:
  assumes "place_pulled E H C agent t local r s = (Inr v, s')"
  obtains T m s1 w s2 where "assemble_file E H T agent t m (PathBuf local) s1 = (Inr w, s2)"
    and "s' = snd (delete_blob E T agent t s2)"
    and "resp_ok r" and "resp_payload r = BlobStaged (mf_chunks m) (mf_total_bytes m) (mf_sha256 m)"
    and "v = J_object [(''local_path'', J_string local), (''bytes'', J_int (uint w)),
        (''chunks'', J_int (uint (mf_chunks m))), (''sha256'', J_string (mf_sha256 m))]"
  using assms unfolding place_pulled_def io_then_Inr io_lift_eq
  by (elim exE conjE) (auto simp: io_then_Inr io_lift_eq io_attempt_Inr io_ignore_Inr Let_def
      split: response_payload.splits intro: that)

lemma place_pulled_Inl:
  assumes "executing E view rest H files unread target N"
    and "place_pulled E H C agent t local r s = (Inl e, s')" and "q \<noteq> temp_sibling (PathBuf local)"
  shows "files s' q = files s q"
proof -
  have m: "machine E view rest H files unread target" using assms(1) by (simp add: executing_def)
  have dir: "files s' q = files s q" if "create_dir_all H d s = (x, s')" for d x s s'
    using executing.create_dir_local(2) [OF assms(1), of d] that by (metis leaves_def snd_conv)
  have asm: "files s' q = files s q" if "assemble_file E H T agent t m (PathBuf local) s = (Inl x, s')" for T m x s s'
    by (rule machine.assemble_file_Inl [OF m that assms(3)])
  have del: "files (snd (delete_blob E T agent t s)) q = files s q" for T s
    using machine.transport_disk(4) [OF m, of T agent t] by (simp add: leaves_def)
  show ?thesis
    using assms(2) unfolding place_pulled_def
    by (auto simp: io_then_Inl io_then_Inr io_lift_eq io_attempt_Inr io_never_fails io_ignore_Inr Let_def del io_context_apply
        split: response_payload.splits option.splits if_splits prod.splits
        dest: dir asm)
      (metis dir asm)+
qed

text \<open>
  C35. What a pull reports is what is on the disk: when the controller places a pulled file, the
  local path holds data with the hash that the agent named and, below two to the 64, the number
  of bytes it named, and the temporary file beside it is gone; when placing fails, whatever the
  reason, every file except that temporary one is as it was.
\<close>

theorem pulled_file_is_verified:
  assumes "executing E view rest H files unread target N"
    and "place_pulled E H C agent transfer local r s = (out, s')"
  shows "case out of
      Inr v \<Rightarrow> \<exists>data bytes chunks. files s' (PathBuf local) = Some data
        \<and> files s' (temp_sibling (PathBuf local)) = None
        \<and> resp_payload r = BlobStaged chunks bytes (hex (sha256 E data))
        \<and> (length data < 2 ^ 64 \<longrightarrow> unat bytes = length data)
        \<and> v = J_object [(''local_path'', J_string local), (''bytes'', J_int (uint bytes)),
            (''chunks'', J_int (uint chunks)), (''sha256'', J_string (hex (sha256 E data)))]
    | Inl e \<Rightarrow> \<forall>q. q \<noteq> temp_sibling (PathBuf local) \<longrightarrow> files s' q = files s q"
proof (cases out)
  case (Inl e)
  with place_pulled_Inl [OF assms(1)] assms(2) show ?thesis by auto
next
  case (Inr v)
  have mc: "machine E view rest H files unread target" using assms(1) by (simp add: executing_def)
  from assms(2) [unfolded Inr] show ?thesis
  proof (rule place_pulled_Inr)
    fix T m s1 w s2
    assume assembled: "assemble_file E H T agent transfer m (PathBuf local) s1 = (Inr w, s2)"
      and s': "s' = snd (delete_blob E T agent transfer s2)"
      and r: "resp_payload r = BlobStaged (mf_chunks m) (mf_total_bytes m) (mf_sha256 m)"
      and v: "v = J_object [(''local_path'', J_string local), (''bytes'', J_int (uint w)),
             (''chunks'', J_int (uint (mf_chunks m))), (''sha256'', J_string (mf_sha256 m))]"
    have "files s' = files s2"
      using machine.transport_disk(4) [OF mc, of T agent transfer] s' by (simp add: leaves_def)
    moreover obtain data where "files s2 = (files s1)(PathBuf local \<mapsto> data, temp_sibling (PathBuf local) := None)"
      "hex (sha256 E data) = mf_sha256 m" "w = mf_total_bytes m" "length data < 2 ^ 64 \<longrightarrow> unat w = length data"
      using machine.assemble_file_Inr [OF mc assembled] by blast
    ultimately show ?thesis using Inr r v temp_sibling_neq [of "PathBuf local"] by auto
  qed
qed

theorem pulled_file_is_verified_witness:
  "\<exists>s v s' data. place_pulled (mem_env no_tables) mem_host sample_controller ''alpha'' (sample_uuid 3) ''/dst''
      (response_ok 1000 (command_of Ping) (BlobStaged 1 5 (hex (toy_sha256 [1, 2, 3, 4, 5])))) s = (Inr v, s')
    \<and> mem_fs s' dest_path = Some data \<and> hex (toy_sha256 data) = hex (toy_sha256 [1, 2, 3, 4, 5])"
proof -
  let ?E = "mem_env no_tables" and ?k = "blob_chunk_key sample_transport ''alpha'' (sample_uuid 3)"
  obtain s1 where st: "stage_file ?E mem_host 8 sample_transport ''alpha'' (sample_uuid 3) source_path with_source
      = (Inr sample_manifest, s1)" and q: "quiet s1"
    using mem_stage by blast
  obtain ds where "concat ds = [1, 2, 3, 4, 5]" "length ds = 1"
    "sealed_chunks ?E (tp_crypto sample_transport) ?k (mem_view s1) 0 = Some (ds ! 0)"
    using mem_machine.stage_file_Inr [OF st] by (auto simp: with_source_def mem_fs_def sample_manifest_def)
  then have "sealed_chunks ?E (tp_crypto sample_transport) ?k (mem_view s1) 0 = Some [1, 2, 3, 4, 5]"
    by (cases ds) auto
  then obtain b where b: "mem_view s1 (?k 0) = Some b"
    "open_bytes ?E (tp_crypto sample_transport) (?k 0) b = Inr [1, 2, 3, 4, 5]"
    by (auto simp: sealed_chunks_def split: option.splits sum.splits)
  let ?w = "s1\<lparr>mem_dirs := Path True [] # mem_dirs s1\<rparr>"
  have "quiet ?w" "mem_view ?w (?k 0) = Some b" using q b by (simp_all add: quiet_def mem_view_def)
  from mem_assemble [OF this b(2)] obtain s2 where asm: "assemble_file ?E mem_host sample_transport
      ''alpha'' (sample_uuid 3) sample_manifest dest_path ?w = (Inr 5, s2)" by blast
  have dest: "PathBuf ''/dst'' = dest_path" by code_simp
  have T: "transport_for sample_controller ''alpha'' = Inr sample_transport"
    by (simp add: transport_for_Inr sample_controller_def)
  have up: "parent dest_path = Some (Path True [])" "\<not> is_empty_path (Path True [])"
    by (simp_all add: parent_def is_empty_path_def dest_path_def)
  have mkdir: "create_dir_all mem_host (Path True []) s1 = (Inr (), ?w)" by (simp add: mem_host_def)
  obtain v s' where placed: "place_pulled ?E mem_host sample_controller ''alpha'' (sample_uuid 3) ''/dst''
      (response_ok 1000 (command_of Ping) (BlobStaged 1 5 (hex (toy_sha256 [1, 2, 3, 4, 5])))) s1 = (Inr v, s')"
    unfolding place_pulled_def dest Let_def
    using asm by (simp add: up T mkdir io_then_def io_lift_def io_ok_def io_context_def io_attempt_def io_ignore_def
        response_ok_def sample_manifest_def)
  from pulled_file_is_verified [OF mem_executing.executing_axioms placed, unfolded sum.case dest]
  obtain data bytes chunks where "mem_fs s' dest_path = Some data"
    "resp_payload (response_ok 1000 (command_of Ping) (BlobStaged 1 5 (hex (toy_sha256 [1, 2, 3, 4, 5]))))
      = BlobStaged chunks bytes (hex (sha256 ?E data))" by blast
  moreover from this(2) have "hex (toy_sha256 data) = hex (toy_sha256 [1, 2, 3, 4, 5])"
    by (simp only: response_ok_def response.select_convs response_payload.inject mem_env_sel)
  ultimately show ?thesis using placed by blast
qed

end
