(* ===== verification/Sealing.thy ===== *)
theory Sealing
  imports MemFacts Pairing
begin

text \<open>
  What the encryption and the enrolment give the rest of the relay, stated over any crates that
  keep their documented contract, and what an agent accepts: a sealed value opens at the key it
  was sealed for and nowhere else, the two ends of a pairing derive one key, a pairing code
  carries what was put into it, and a command lives exactly as long as its sender said.
\<close>

section \<open>A pairing\<close>

text \<open>What the two ends do: each makes a key pair, hands the public half over, and derives.\<close>

definition pair_up :: "'s env \<Rightarrow> string \<Rightarrow> ('s, string res \<times> string res) io" where
  "pair_up E name =
     io_then (generate_keypair E) (\<lambda>(agent_private, agent_public).
     io_then (generate_keypair E) (\<lambda>(control_private, control_public).
     io_ok (derive_key E agent_private control_public name, derive_key E control_private agent_public name)))"

context crates
begin

lemma generate_keypair_Inr:
  assumes "generate_keypair E s = (Inr (priv, pub), s')"
  obtains raw where "length raw = 32" "priv = b64_encode E raw" "pub = b64_encode E (x25519_public E raw)"
  using assms random_len [of 32 s]
  by (auto simp: generate_keypair_def random_def io_then_Inr split: prod.splits)

lemma pair_up_agrees:
  assumes "pair_up E name s = (Inr (k, k'), s')"
  shows "k = k'"
proof -
  obtain p q s1 p' q' where g: "generate_keypair E s = (Inr (p, q), s1)"
    and g': "generate_keypair E s1 = (Inr (p', q'), s')"
    and k: "k = derive_key E p q' name" "k' = derive_key E p' q name"
    using assms by (auto simp: pair_up_def io_then_Inr)
  obtain a where "length a = 32" "p = b64_encode E a" "q = b64_encode E (x25519_public E a)"
    using g by (rule generate_keypair_Inr)
  moreover obtain b where "length b = 32" "p' = b64_encode E b" "q' = b64_encode E (x25519_public E b)"
    using g' by (rule generate_keypair_Inr)
  ultimately show ?thesis using derive_key_symmetric [of a b name] k by simp
qed

lemma sealed_contract:
  assumes "codec_ok codec" and "seal E cr codec k v s = (Inr b, s')"
  shows "open_sealed E cr codec k b = Inr v
    \<and> (cr_key_id cr' \<noteq> cr_key_id cr \<longrightarrow> \<not> is_ok (open_sealed E cr' codec' k' b))
    \<and> (k' \<noteq> k \<and> is_ok (open_sealed E cr' codec' k' b) \<longrightarrow>
        (\<exists>nonce pt ct. aead_encrypt E (cr_key cr) nonce pt (aad k) = Some ct \<and> aad k' \<noteq> aad k
          \<and> aead_decrypt E (cr_key cr') nonce ct (aad k') \<noteq> None))"
proof (intro conjI impI)
  show "open_sealed E cr codec k b = Inr v" by (rule seal_open [OF assms(2,1)])
next
  assume "cr_key_id cr' \<noteq> cr_key_id cr"
  then show "\<not> is_ok (open_sealed E cr' codec' k' b)"
    using seal_open_other_key_id [OF assms(2), of cr' codec' k'] by (simp only: is_ok_simps simp_thms)
next
  assume "k' \<noteq> k \<and> is_ok (open_sealed E cr' codec' k' b)"
  then obtain w where "k' \<noteq> k" "open_sealed E cr' codec' k' b = Inr w" by (auto simp: is_ok_iff)
  then show "\<exists>nonce pt ct. aead_encrypt E (cr_key cr) nonce pt (aad k) = Some ct \<and> aad k' \<noteq> aad k
      \<and> aead_decrypt E (cr_key cr') nonce ct (aad k') \<noteq> None"
    by (rule open_elsewhere_is_forgery [OF assms(2)])
qed

end

lemma validate_for_agent_iff:
  "validate_for_agent is_uuid now cmd expected max_timeout = Inr () \<longleftrightarrow>
     validate_routing_for is_uuid cmd expected = Inr () \<and> cmd_protocol cmd = PROTOCOL_VERSION
     \<and> cmd_created_at cmd \<le> sat_add_i64 now 60 \<and> now \<le> cmd_expires_at cmd
     \<and> cmd_created_at cmd \<le> cmd_expires_at cmd
     \<and> cmd_timeout_secs cmd \<noteq> 0 \<and> cmd_timeout_secs cmd \<le> max_timeout"
  by (auto simp: validate_for_agent_def res_then_Inr_iff linorder_not_less)

section \<open>Properties\<close>

text \<open>
  C24. A sealed value is bound to its place: opened at the object key it was sealed for, with the
  same key, it is the value again; a receiver with another key id refuses it; and whoever opens
  it at another object key has a cipher that accepts forged associated data.
\<close>

theorem sealed_value_is_bound_to_its_key:
  assumes "crates E" and "codec_ok codec" and "seal E cr codec k v s = (Inr b, s')"
  shows "open_sealed E cr codec k b = Inr v
    \<and> (cr_key_id cr' \<noteq> cr_key_id cr \<longrightarrow> \<not> is_ok (open_sealed E cr' codec' k' b))
    \<and> (k' \<noteq> k \<and> is_ok (open_sealed E cr' codec' k' b) \<longrightarrow>
        (\<exists>nonce pt ct. aead_encrypt E (cr_key cr) nonce pt (aad k) = Some ct \<and> aad k' \<noteq> aad k
          \<and> aead_decrypt E (cr_key cr') nonce ct (aad k') \<noteq> None))"
  using assms by (rule crates.sealed_contract)

theorem sealed_value_is_bound_to_its_key_witness:
  "\<exists>b. open_sealed (mem_env sample_tables) (tp_crypto sample_transport)
      (command_json (mem_env sample_tables)) ''k'' b = Inr sample_command"
proof -
  let ?E = "mem_env sample_tables"
  obtain pt where "to_vec (command_json ?E) sample_command = Inr pt" "length pt \<le> 1000"
    using table_to_vec [of sample_command "tb_commands sample_tables"] by auto
  from mem_seal [OF this(1)] obtain b where "seal ?E (tp_crypto sample_transport) (command_json ?E) ''k'' sample_command mem_start
      = (Inr b, reseeded mem_start)"
    by blast
  from sealed_value_is_bound_to_its_key [OF mem_crates.crates_axioms mem_crates.command_ok this]
  show ?thesis by blast
qed

text \<open>
  The two ends of a pairing agree: each makes a key pair, and from its own private key and
  the public key of the other derives the same transport key, or the same refusal.
\<close>

theorem pairing_derives_one_key:
  assumes "crates E" and "pair_up E name s = (Inr (at_agent, at_controller), s')"
  shows "at_agent = at_controller"
  using assms by (rule crates.pair_up_agrees)

theorem pairing_derives_one_key_witness:
  "\<exists>k. fst (pair_up (mem_env sample_tables) ''alpha'' mem_start) = Inr (k, k)"
proof -
  obtain k k' s' where p: "pair_up (mem_env sample_tables) ''alpha'' mem_start = (Inr (k, k'), s')"
    by (simp add: pair_up_def generate_keypair_def random_def io_then_def io_ok_def split: prod.splits)
  from pairing_derives_one_key [OF mem_crates.crates_axioms p] p show ?thesis by simp
qed

text \<open>
  C25. A pairing code carries the agent's name and its 32-byte public key: whatever code the
  agent prints, the controller reads exactly these back from it.
\<close>

theorem pairing_code_roundtrip:
  assumes "crates E" and "encode_enrollment E agent public_key = Inr code"
  shows "\<exists>raw. b64_decode E (trim public_key) = Inr raw \<and> length raw = 32
    \<and> decode_enrollment E code = Inr \<lparr>enr_agent_id = agent, enr_public_key = b64_encode E raw, enr_version = 1\<rparr>"
  using assms by (rule crates.enrollment_roundtrip)

theorem pairing_code_roundtrip_witness:
  "\<exists>code e. encode_enrollment (mem_env sample_tables) ''alpha''
      (b64_encode (mem_env sample_tables) (replicate 32 5)) = Inr code
    \<and> decode_enrollment (mem_env sample_tables) code = Inr e \<and> enr_agent_id e = ''alpha''"
proof -
  let ?E = "mem_env sample_tables"
  let ?pk = "b64_encode ?E (replicate 32 5)"
  have "trim ?pk = ?pk" by (rule trim_plain) (rule mem_crates.b64_plain)
  then obtain code where code: "encode_enrollment ?E ''alpha'' ?pk = Inr code"
    using mem_crates.b64_inv [of sample_tables "replicate 32 5"] by (simp add: encode_enrollment_def)
  from pairing_code_roundtrip [OF mem_crates.crates_axioms this] code show ?thesis by auto
qed

text \<open>
  A command lives as long as its sender allows: a new command, well addressed and with a
  timeout the agent accepts, is valid from one minute before its creation by the agent's clock
  until its time to live has passed, and refused before and after.
\<close>

theorem command_lives_for_its_ttl:
  assumes "validate_agent_id agent = Inr ()" and "is_uuid uuid" and "transfer_of kind = None"
    and "timeout_secs \<noteq> 0" and "timeout_secs \<le> max_timeout"
    and "is_i64 created" and "is_i64 now" and "now + 60 \<le> i64_max"
  shows "validate_for_agent is_uuid now (command_new uuid created agent kind timeout_secs ttl) agent max_timeout
      = Inr () \<longleftrightarrow>
    created - 60 \<le> now \<and> now \<le> min i64_max (created + int (min (unat ttl) (2 ^ 63 - 1)))"
proof -
  let ?c = "command_new uuid created agent kind timeout_secs ttl"
  have sel: "cmd_agent_id ?c = agent" "cmd_id ?c = uuid" "cmd_kind ?c = kind" "cmd_protocol ?c = PROTOCOL_VERSION"
    "cmd_created_at ?c = created" "cmd_timeout_secs ?c = timeout_secs"
    by (simp_all add: command_new_def)
  have "sat_add_i64 now 60 = now + 60"
    using assms(7,8) by (simp add: sat_add_i64_def clamp_i64_def is_i64_def)
  moreover have "created \<le> min i64_max (created + int (min (unat ttl) (2 ^ 63 - 1)))"
    using assms(6) by (simp add: is_i64_def)
  ultimately show ?thesis
    using assms(1-5) unfolding validate_for_agent_iff sel command_new_expires [OF assms(6)]
    by (auto simp: validate_routing_iff sel)
qed

theorem command_lives_for_its_ttl_witness:
  "validate_for_agent (\<lambda>_. True) 1010 (command_new ''u'' 1000 ''alpha'' Ping 10 60) ''alpha'' 60 = Inr ()
   \<and> validate_for_agent (\<lambda>_. True) 1061 (command_new ''u'' 1000 ''alpha'' Ping 10 60) ''alpha'' 60 \<noteq> Inr ()"
  using command_lives_for_its_ttl [of "''alpha''" "\<lambda>_. True" "''u''" Ping 10 60 1000 1010 60]
    command_lives_for_its_ttl [of "''alpha''" "\<lambda>_. True" "''u''" Ping 10 60 1000 1061 60]
  by (simp add: is_i64_def i64_bounds transfer_of_def)

end
