(* ===== verification/Enrolling.thy ===== *)
theory Enrolling
  imports Programs Relaying Sealing
begin

text \<open>
  What the set-up of the two programs works on: what the files that enrolment writes say, what the
  operator's machine promises (the interface \<open>terminal\<close>), the key that both ends derive, and the
  fleet of a controller that started.
\<close>

section \<open>What the configuration files say\<close>

definition bucket_table :: "bucket_answers \<Rightarrow> table" where
  "bucket_table b = [(''endpoint'', TString (ba_endpoint b)), (''region'', TString (ba_region b)),
     (''bucket'', TString (ba_bucket b)), (''prefix'', TString ''relay-prod/''), (''force_path_style'', TBoolean True),
     (''access_key_id'', TString (ba_access b)), (''secret_access_key'', TString (ba_secret b))]"

text \<open>
  A document of flat tables as TOML writes it: the header of each table, a line for each of its
  values, and an empty line between two tables. \<open>q\<close> writes a string.
\<close>

type_synonym document = "(string \<times> (string \<times> toml) list) list"

definition toml_literal :: "(string \<Rightarrow> string) \<Rightarrow> toml \<Rightarrow> string" where
  "toml_literal q v = (case v of TString s \<Rightarrow> q s | TInteger n \<Rightarrow> dec_int n
     | TBoolean b \<Rightarrow> (if b then ''true'' else ''false'') | TArray _ \<Rightarrow> ''[]'' | _ \<Rightarrow> [])"

definition toml_section :: "(string \<Rightarrow> string) \<Rightarrow> string \<times> (string \<times> toml) list \<Rightarrow> string list" where
  "toml_section q = (\<lambda>(name, fields). (''['' @ name @ '']'') # map (\<lambda>(k, v). k @ '' = '' @ toml_literal q v) fields)"

fun toml_lines :: "(string \<Rightarrow> string) \<Rightarrow> document \<Rightarrow> string list" where
  "toml_lines q [] = []"
| "toml_lines q [t] = toml_section q t"
| "toml_lines q (t # ts) = toml_section q t @ [] # toml_lines q ts"

definition toml_table :: "document \<Rightarrow> table" where
  "toml_table doc = map (\<lambda>(name, fields). (name, TTable fields)) doc"

text \<open>
  The toml crate reads the document back that is written with its own strings, and writes a string
  without special characters between quotation marks.
\<close>

definition toml_reads :: "'s console \<Rightarrow> (string \<Rightarrow> string) \<Rightarrow> document \<Rightarrow> bool" where
  "toml_reads C q doc \<longleftrightarrow> q ''relay-prod/'' = [CHR 0x22] @ ''relay-prod/'' @ [CHR 0x22]
     \<and> cn_parse C (text_of_lines (toml_lines q doc)) = Inr (toml_table doc)"

text \<open>What the two files say.\<close>

definition agent_document :: "agent_enrolment \<Rightarrow> document" where
  "agent_document a = [(''s3'', bucket_table (ae_bucket a)),
     (''agent'', [(''id'', TString (ae_agent_id a)), (''private_key'', TString (ae_private a)),
        (''public_key'', TString (ae_public a)), (''controller_public_key'', TString (ae_controller_public a)),
        (''allow_any_path'', TBoolean False), (''allow_any_program'', TBoolean False), (''allowed_roots'', TArray []),
        (''allowed_programs'', TArray []), (''job_retention_days'', TInteger 7), (''job_max_total_bytes'', TInteger 1073741824),
        (''job_cleanup_interval_secs'', TInteger 21600), (''job_ship_chunk_bytes'', TInteger 131072)])]"

definition controller_document :: "controller_enrolment \<Rightarrow> document" where
  "controller_document c = [(''s3'', bucket_table (ce_bucket c)),
     (''controller'', [(''private_key'', TString (ce_private c)), (''public_key'', TString (ce_public c)),
        (''database'', TString (display (ce_database c))), (''log_dir'', TString (display (ce_log_dir c))),
        (''queue_ttl_secs'', TInteger 120), (''max_exec_secs'', TInteger 300), (''max_wait_secs'', TInteger 430),
        (''max_transfer_secs'', TInteger 1800), (''poll_ms'', TInteger 200)])]"

definition agent_config_table :: "agent_enrolment \<Rightarrow> table" where
  "agent_config_table a = toml_table (agent_document a)"

definition controller_config_table :: "controller_enrolment \<Rightarrow> table" where
  "controller_config_table c = toml_table (controller_document c)"

lemmas agent_table_defs = agent_config_table_def agent_document_def toml_table_def
lemmas controller_table_defs = controller_config_table_def controller_document_def toml_table_def

lemma written_numbers: "dec_int 7 = ''7''" "dec_int 1073741824 = ''1073741824''" "dec_int 21600 = ''21600''"
  "dec_int 131072 = ''131072''" "dec_int 120 = ''120''" "dec_int 300 = ''300''" "dec_int 430 = ''430''"
  "dec_int 1800 = ''1800''" "dec_int 200 = ''200''"
  by (simp_all add: dec_int_def dec.simps digit_char_def char_of_def bit_0)

text \<open>The texts that enrolment writes are these documents.\<close>

lemma config_text_document:
  assumes "q ''relay-prod/'' = [CHR 0x22] @ ''relay-prod/'' @ [CHR 0x22]"
  shows "agent_config_text q a = text_of_lines (toml_lines q (agent_document a))"
    "controller_config_text q c = text_of_lines (toml_lines q (controller_document c))"
  by (simp_all add: agent_config_text_def controller_config_text_def agent_document_def controller_document_def bucket_lines_def
      bucket_table_def toml_section_def toml_literal_def written_numbers assms)

lemma written_files_are_valid:
  "validate_table p (agent_config_table a) = Inr ()" "validate_table p (controller_config_table c) = Inr ()"
  by (simp_all add: agent_table_defs controller_table_defs bucket_table_def as_table_def dotted_def KNOWN_KEYS_def)

text \<open>The variables that would override what the files say about keys, prefix and database.\<close>

definition KEY_VARIABLES :: "string list" where
  "KEY_VARIABLES = [''RELAY_AGENT_ID'', ''RELAY_SHARED_KEY'', ''RELAY_KEY_ID'', ''AGENT_PRIVATE_KEY'',
     ''AGENT_CONTROLLER_PUBLIC_KEY'', ''CONTROL_PRIVATE_KEY'', ''CONTROL_DATABASE'', ''S3_PREFIX'']"

definition keys_unset :: "(string \<Rightarrow> string option) \<Rightarrow> bool" where
  "keys_unset getenv \<longleftrightarrow> (\<forall>name \<in> set KEY_VARIABLES. getenv name = None)"

lemma lowered:
  "to_ascii_lowercase ''PRIVATE_KEY'' = ''private_key''" "to_ascii_lowercase ''PREFIX'' = ''prefix''"
  "to_ascii_lowercase ''CONTROLLER_PUBLIC_KEY'' = ''controller_public_key''"
  "to_ascii_lowercase ''SHARED_KEY'' = ''shared_key''" "to_ascii_lowercase ''DATABASE'' = ''database''"
  "to_ascii_lowercase ''KEY_ID'' = ''key_id''"
  by code_simp+

lemma key_paths:
  "toml_path ''RELAY_AGENT_ID'' = Some (''agent'', ''id'')" "toml_path ''RELAY_SHARED_KEY'' = Some (''relay'', ''shared_key'')"
  "toml_path ''RELAY_KEY_ID'' = Some (''relay'', ''key_id'')" "toml_path ''AGENT_PRIVATE_KEY'' = Some (''agent'', ''private_key'')"
  "toml_path ''AGENT_CONTROLLER_PUBLIC_KEY'' = Some (''agent'', ''controller_public_key'')"
  "toml_path ''CONTROL_PRIVATE_KEY'' = Some (''controller'', ''private_key'')" "toml_path ''CONTROL_DATABASE'' = Some (''controller'', ''database'')"
  "toml_path ''S3_PREFIX'' = Some (''s3'', ''prefix'')"
  by (simp_all add: toml_path_def lowered)

lemma agent_file_settings:
  assumes "keys_unset getenv"
  shows "optional_env getenv (Some (agent_config_table a)) ''RELAY_AGENT_ID'' = Some (ae_agent_id a)"
    "optional_env getenv (Some (agent_config_table a)) ''RELAY_SHARED_KEY'' = None"
    "optional_env getenv (Some (agent_config_table a)) ''RELAY_KEY_ID'' = None"
    "optional_env getenv (Some (agent_config_table a)) ''AGENT_PRIVATE_KEY'' = Some (ae_private a)"
    "optional_env getenv (Some (agent_config_table a)) ''AGENT_CONTROLLER_PUBLIC_KEY'' = Some (ae_controller_public a)"
    "optional_env getenv (Some (agent_config_table a)) ''S3_PREFIX'' = Some ''relay-prod/''"
  using assms
  by (simp_all add: optional_env_def keys_unset_def KEY_VARIABLES_def from_file_def key_paths agent_table_defs
      bucket_table_def as_table_def render_def)

lemma controller_file_settings:
  assumes "keys_unset getenv"
  shows "optional_env getenv (Some (controller_config_table c)) ''CONTROL_PRIVATE_KEY'' = Some (ce_private c)"
    "optional_env getenv (Some (controller_config_table c)) ''S3_PREFIX'' = Some ''relay-prod/''"
    "optional_env getenv (Some (controller_config_table c)) ''CONTROL_DATABASE'' = Some (display (ce_database c))"
  using assms
  by (simp_all add: optional_env_def keys_unset_def KEY_VARIABLES_def from_file_def key_paths controller_table_defs
      bucket_table_def as_table_def render_def)

lemma prefix_from_file:
  assumes "s3_from_env getenv file = Inr c" and "optional_env getenv file ''S3_PREFIX'' = Some ''relay-prod/''"
  shows "s3_prefix c = ''relay-prod/''"
proof -
  have "ends_with ''relay-prod/'' ''/''" by (simp add: suffix_def)
  with assms show ?thesis by (auto simp: s3_from_env_def Let_def res_then_Inr_iff)
qed

section \<open>The operator's machine\<close>

text \<open>
  What the console promises: \<open>tables_at p\<close> are the tables in the database file \<open>p\<close>, which is what a
  connection to it works on; showing, asking and reading touch neither the tables nor the files, and
  completing a database that is complete changes nothing. Reading a file gives its text, and opening
  a database in the file \<open>q\<close> touches no file but \<open>q\<close> and those that SQLite keeps beside it.
\<close>

definition database_files :: "path \<Rightarrow> path set" where
  "database_files q = {q, PathBuf (display q @ ''-wal''), PathBuf (display q @ ''-shm''), PathBuf (display q @ ''-journal'')}"

locale terminal = machine E view rest H files unread target
  for E :: "'s env" and view :: "'s \<Rightarrow> string \<Rightarrow> bytes option"
    and rest :: "(string \<Rightarrow> bytes option) \<Rightarrow> string \<Rightarrow> string option \<Rightarrow> string list"
    and H :: "'s host" and files :: "'s \<Rightarrow> path \<Rightarrow> bytes option"
    and unread :: "'s \<Rightarrow> nat \<Rightarrow> bytes" and target :: "'s \<Rightarrow> nat \<Rightarrow> path option" +
  fixes C :: "'s console" and tables_at :: "path \<Rightarrow> 's \<Rightarrow> registry"
  assumes registry_at: "database (cn_registry C p) (tables_at p)"
    and print_keeps: "files (cn_print C t s) = files s" "tables_at p (cn_print C t s) = tables_at p s"
    and mode_keeps: "leaves files (cn_set_mode C q n)"
    and read_keeps: "leaves (tables_at p) (cn_read_to_string C q)"
    and read_text: "cn_read_to_string C q s = (Inr text, s') \<Longrightarrow> files s q = Some (as_bytes text)"
    and create_files: "p \<notin> database_files q \<Longrightarrow> leaves (\<lambda>s. files s p) (cn_create C q)"
    and create_keeps: "leaves (tables_at p) (cn_create C q)"
    and directories_keep: "leaves (tables_at p) (create_dir_all H q)" "leaves files (create_dir_all H q)"
    and clock_keeps_tables: "leaves (tables_at p) (now_unix E)"
begin

lemma println_keeps: "leaves files (println C t)" "leaves (tables_at p) (println C t)"
  by (simp_all add: leaves_def println_def print_keeps)

lemma open_keeps: "leaves (tables_at p) (registry_open H (cn_create C) q)"
  by (auto simp: registry_open_def intro!: leaves_intros create_keeps directories_keep split: option.split)

lemma paths_keep: "leaves (tables_at p) (controller_paths C getenv)"
  unfolding controller_paths_def read_table_def by (intro leaves_intros read_keeps)

lemma report_keeps: "leaves (tables_at p) (report_added E C en)"
  unfolding report_added_def by (intro leaves_intros println_keeps)

lemma add_enters:
  assumes "controller_add E H C getenv code s = (Inr u, s')"
  shows "\<exists>en key db logs s1 now. decode_enrollment E code = Inr en
    \<and> controller_paths C getenv s = (Inr (key, db, logs), s1)
    \<and> tables_at db s' = upsert_agent (enr_agent_id en) (enr_public_key en) now (tables_at db s)"
proof -
  from assms obtain en key db logs s1 u2 s2 now s3 s4 where en: "decode_enrollment E code = Inr en"
    and paths: "controller_paths C getenv s = (Inr (key, db, logs), s1)"
    and reg: "registry_open H (cn_create C) db s1 = (Inr u2, s2)"
    and clock: "now_unix E s2 = (Inr now, s3)"
    and row: "sql_execute (cn_registry C db) (upsert_agent (enr_agent_id en) (enr_public_key en) now) s3 = (Inr (), s4)"
    and tail: "report_added E C en s4 = (Inr u, s')"
    by (auto simp: controller_add_def add_def io_then_Inr)
  have "tables_at db s' = tables_at db s4" using report_keeps tail by (rule leavesD)
  also have "\<dots> = upsert_agent (enr_agent_id en) (enr_public_key en) now (tables_at db s3)"
    using database.execute_ok [OF registry_at row] .
  also have "tables_at db s3 = tables_at db s"
    using leavesD [OF clock_keeps_tables clock] leavesD [OF open_keeps reg] leavesD [OF paths_keep paths] by simp
  finally show ?thesis using en paths by blast
qed

text \<open>A private file appears as a whole or not at all; beside it only its temporary sibling changes.\<close>

lemma write_private_effect:
  assumes "write_private H C p text s = (r, s')" and "with_extension p ''tmp'' \<noteq> p"
  shows "(\<forall>q. q \<noteq> p \<and> q \<noteq> with_extension p ''tmp'' \<longrightarrow> files s' q = files s q)
    \<and> files s' p = (if is_ok r then Some (as_bytes text) else files s p)"
proof -
  let ?tmp = "with_extension p ''tmp''"
  define mk where "mk = (case parent p of None \<Rightarrow> io_ok () | Some d \<Rightarrow> create_dir_all H d)"
  have mk: "leaves files mk" unfolding mk_def by (intro leaves_intros directories_keep)
  obtain d s1 where d: "mk s = (d, s1)" by fastforce
  obtain w s2 where w: "fs_write H ?tmp (as_bytes text) s1 = (w, s2)" by fastforce
  obtain m s3 where m: "cn_set_mode C ?tmp 384 s2 = (m, s3)" by fastforce
  obtain x s4 where x: "rename_path H ?tmp p s3 = (x, s4)" by fastforce
  have f1: "files s1 = files s" using mk d by (rule leavesD)
  have f2: "files s2 q = files s1 q" if "q \<noteq> ?tmp" for q using fs_write_frame [OF w that] .
  have f3: "files s3 = files s2" using mode_keeps m by (rule leavesD)
  have run: "(r, s') = (case d of Inl e \<Rightarrow> (Inl e, s1) | Inr _ \<Rightarrow>
      case w of Inl e \<Rightarrow> (Inl ((''write '' @ display ?tmp) # e), s2) | Inr _ \<Rightarrow>
      case m of Inl e \<Rightarrow> (Inl e, s3) | Inr _ \<Rightarrow> (with_context (''install '' @ display p) x, s4))"
    unfolding assms(1) [symmetric]
    by (cases d; cases w; cases m)
      (simp_all add: write_private_def io_then_def io_context_def Let_def d w m x flip: mk_def)
  have "(s' = s1 \<or> s' = s2 \<or> s' = s3) \<and> \<not> is_ok r
      \<or> w = Inr () \<and> s' = s4 \<and> (is_ok r \<longleftrightarrow> is_ok x)"
    using run by (auto simp: with_context_def split: sum.splits)
  then show ?thesis
  proof
    assume "(s' = s1 \<or> s' = s2 \<or> s' = s3) \<and> \<not> is_ok r"
    with f1 f2 f3 assms(2) show ?thesis by auto
  next
    assume end_: "w = Inr () \<and> s' = s4 \<and> (is_ok r \<longleftrightarrow> is_ok x)"
    then have tmp: "files s3 ?tmp = Some (as_bytes text)"
      using fs_write_Inr [of ?tmp "as_bytes text" s1 "()" s2] w f3 by simp
    show ?thesis
    proof (cases x)
      case (Inl e)
      with x have "files s4 = files s3" by (auto intro: rename_err)
      with Inl end_ f1 f2 f3 assms(2) show ?thesis by auto
    next
      case (Inr v)
      from rename_ok [OF x [unfolded Inr] tmp assms(2)] Inr end_ f1 f2 f3 assms(2) show ?thesis by auto
    qed
  qed
qed

end

section \<open>The files and the programs that read them\<close>

context terminal
begin

lemma write_private_stores:
  assumes "write_private H C p text s = (Inr u, s')"
  shows "files s' p = Some (as_bytes text)"
proof (cases "with_extension p ''tmp'' = p")
  case False
  with write_private_effect [OF assms False] show ?thesis by (simp add: is_ok_def)
next
  case True
  with assms obtain s1 s2 s3 u2 u3 where w: "fs_write H p (as_bytes text) s1 = (Inr (), s2)"
    and m: "cn_set_mode C p 384 s2 = (Inr u2, s3)" and x: "rename_path H p p s3 = (Inr u3, s')"
    by (auto simp: write_private_def Let_def io_then_Inr io_context_Inr)
  from fs_write_Inr [OF w] have "files s2 p = Some (as_bytes text)" by simp
  with leavesD [OF mode_keeps m] rename_same [OF x] show ?thesis by simp
qed

lemma printed: "println C t s = (u, s') \<Longrightarrow> files s' = files s"
  by (rule leavesD [OF println_keeps(1)])

lemma database_opened:
  assumes "registry_open H (cn_create C) q s = (r, s')" and "p \<notin> database_files q"
  shows "files s' p = files s p"
proof -
  have "leaves (\<lambda>s. files s p) (create_dir_all H d)" for d
    by (rule leaves_part [OF directories_keep(2), of "\<lambda>m. m p"])
  then have "leaves (\<lambda>s. files s p) (registry_open H (cn_create C) q)"
    unfolding registry_open_def by (intro leaves_intros create_files assms(2))
  then show ?thesis using assms(1) unfolding leaves_def by (metis snd_conv)
qed

lemma agent_init_writes:
  assumes "agent_init E H C getenv suggested s = (Inr (a, code), s')"
  shows "files s' (config_path getenv ''agent'') = Some (as_bytes (agent_config_text (cn_quote C) a))"
  using assms unfolding agent_init_def Let_def io_then_Inr
  by (auto dest!: write_private_stores printed)

lemma controller_init_writes:
  assumes "controller_init E H C getenv s = (Inr c, s')"
    and "config_path getenv ''controller'' \<notin> database_files (ce_database c)"
  shows "files s' (config_path getenv ''controller'') = Some (as_bytes (controller_config_text (cn_quote C) c))"
  using assms unfolding controller_init_def Let_def
  by (auto simp: io_then_Inr dest!: write_private_stores printed database_opened)

lemma configuration_read:
  assumes "load_config H C getenv s = (Inr file, s')" and "getenv ''RELAY_CONFIG'' = Some v" and "v \<noteq> []"
    and "files s (PathBuf v) = Some (as_bytes (text_of_lines (toml_lines q doc)))" and "toml_reads C q doc"
  shows "file = Some (toml_table doc)"
proof -
  from load_config_explicit [OF assms(1-3)] obtain t where t: "file = Some t" by auto
  from load_config_Inr [OF assms(1) [unfolded t]] assms(2,3) obtain content
    where r: "cn_read_to_string C (PathBuf v) s = (Inr content, s')" and "cn_parse C content = Inr t"
    by (auto simp: config_file_def)
  moreover from read_text [OF r] assms(4) have "content = text_of_lines (toml_lines q doc)" by (simp add: as_bytes_inj)
  ultimately show ?thesis using assms(5) t by (simp add: toml_reads_def)
qed

lemma load_keeps: "leaves (tables_at p) (load_config H C getenv)"
  using leavesD [OF read_keeps] by (auto simp: load_config_def leaves_def Let_def split: prod.splits)

lemma logging_keeps:
  assumes "init_logging H open_log getenv s = (r, s')"
    and "\<And>q. leaves (\<lambda>y. (files y p, tables_at db y)) (open_log q)"
  shows "files s' p = files s p \<and> tables_at db s' = tables_at db s"
proof -
  have "leaves (\<lambda>y. (files y p, tables_at db y)) (create_dir_all H d)" for d
    using directories_keep by (simp add: leaves_def)
  then have "leaves (\<lambda>y. (files y p, tables_at db y)) (init_logging H open_log getenv)"
    unfolding init_logging_def Let_def by (intro leaves_intros assms(2))
  then show ?thesis using assms(1) unfolding leaves_def by (metis prod.inject snd_conv)
qed

lemma database_in_file:
  assumes "controller_paths C getenv s = (Inr (key, db, logs), s')"
    and "files s (config_path getenv ''controller'') = Some (as_bytes (text_of_lines (toml_lines q (controller_document c))))"
    and "toml_reads C q (controller_document c)"
  shows "db = PathBuf (display (ce_database c))"
proof -
  from assms(1) obtain content t where r: "cn_read_to_string C (config_path getenv ''controller'') s = (Inr content, s')"
    and t: "cn_parse C content = Inr t" "controller_table getenv t = Inr (key, db, logs)"
    by (auto simp: controller_paths_def read_table_def io_then_Inr)
  from read_text [OF r] assms(2,3) t have "controller_table getenv (controller_config_table c) = Inr (key, db, logs)"
    by (simp add: as_bytes_inj toml_reads_def controller_config_table_def)
  then show ?thesis
    by (auto simp: controller_table_def section_text_def controller_table_defs as_table_def as_str_def Let_def res_then_Inr_iff ok_or_def)
qed

end

section \<open>One key on both ends\<close>

lemma upsert_agent_row: "\<exists>row. (a, row) \<in> set (rg_agents (upsert_agent a pk now r)) \<and> ar_public_key row = pk"
  using update_member [of a _ "rg_agents r"] by (cases "map_of (rg_agents r) a") (force simp: upsert_agent_def)+

context crates
begin

lemma agent_enrol_Inr:
  assumes "agent_enrol E C suggested s = (Inr a, s')"
  shows "\<exists>raw. length raw = 32 \<and> ae_private a = b64_encode E raw
    \<and> ae_public a = b64_encode E (x25519_public E raw) \<and> validate_agent_id (ae_agent_id a) = Inr ()"
proof -
  from assms obtain s1 s2 where "generate_keypair E s1 = (Inr (ae_private a, ae_public a), s2)"
    and "validate_agent_id (ae_agent_id a) = Inr ()"
    by (auto simp: agent_enrol_def Let_def io_then_Inr)
  then show ?thesis using generate_keypair_Inr by metis
qed

lemma agent_init_Inr:
  assumes "agent_init E H C getenv suggested s = (Inr (a, code), s')"
  shows "(\<exists>s1 s2. agent_enrol E C suggested s1 = (Inr a, s2)) \<and> encode_enrollment E (ae_agent_id a) (ae_public a) = Inr code"
  using assms by (auto simp: agent_init_def Let_def io_then_Inr)

lemma controller_init_Inr:
  assumes "controller_init E H C getenv s = (Inr c, s')"
  shows "\<exists>raw. length raw = 32 \<and> ce_private c = b64_encode E raw \<and> ce_public c = b64_encode E (x25519_public E raw)"
proof -
  from assms obtain s1 s2 where "generate_keypair E s1 = (Inr (ce_private c, ce_public c), s2)"
    by (auto simp: controller_init_def Let_def io_then_Inr)
  then show ?thesis using generate_keypair_Inr by metis
qed

lemma code_of_agent:
  assumes "encode_enrollment E name (b64_encode E pub) = Inr code"
  shows "decode_enrollment E code = Inr \<lparr>enr_agent_id = name, enr_public_key = b64_encode E pub, enr_version = 1\<rparr>"
  using enrollment_roundtrip [OF assms] by (auto simp: trim_plain b64_plain b64_inv)

text \<open>The key of an agent that was enrolled, as the agent and as the controller compute it.\<close>

lemma agent_key_from_file:
  assumes "keys_unset getenv"
  shows "crypto_from_env E (optional_env getenv (Some (agent_config_table a))) (required_env getenv (Some (agent_config_table a)))
    = res_then (derive_key E (ae_private a) (ae_controller_public a) (ae_agent_id a)) (\<lambda>key. from_base64 E key PAIRED_KEY_ID)"
  using agent_file_settings [OF assms, of a]
  by (auto simp: crypto_from_env_def required_env_def res_then_def split: sum.splits)

lemma paired_transport_of_agent:
  assumes "keys_unset ga" and "keys_unset gc"
    and "length x = 32" and "length y = 32"
    and "ae_private a = b64_encode E x" and "ae_controller_public a = b64_encode E (x25519_public E y)"
    and "paired_transport E s3c (b64_encode E y) \<lparr>ak_id = ae_agent_id a, ak_public_key = b64_encode E (x25519_public E x)\<rparr> = Inr T"
    and "s3_from_env gc (Some (controller_config_table c)) = Inr s3c"
    and "crypto_from_env E (optional_env ga (Some (agent_config_table a))) (required_env ga (Some (agent_config_table a))) = Inr cr"
    and "s3_from_env ga (Some (agent_config_table a)) = Inr s3a" and "connect s3a cr = Inr T'"
  shows "T = T' \<and> tp_prefix T = ''relay-prod/''"
proof -
  have "s3_prefix s3c = ''relay-prod/''" "s3_prefix s3a = ''relay-prod/''"
    using prefix_from_file [OF assms(8)] prefix_from_file [OF assms(10)] agent_file_settings(6) [OF assms(1)]
      controller_file_settings(2) [OF assms(2)] by simp_all
  moreover have "derive_key E (ae_private a) (ae_controller_public a) (ae_agent_id a)
      = derive_key E (b64_encode E y) (b64_encode E (x25519_public E x)) (ae_agent_id a)"
    unfolding assms(5,6) by (rule derive_key_symmetric [OF assms(3,4)])
  ultimately show ?thesis
    using assms(7,9,11) unfolding agent_key_from_file [OF assms(1)]
    by (clarsimp simp: paired_transport_def connect_Inr res_then_Inr_iff)
qed

end

context terminal
begin

text \<open>The fleet of a controller that started on the database in the file \<open>db\<close>.\<close>

lemma setup_fleet:
  assumes "registry_ok (tables_at db s)" and "\<And>xs. mset (order xs) = mset xs"
    and "controller_setup E H (cn_registry C db) (cn_create C) logs order getenv file invalid s = (Inr ct, s')"
  shows "\<exists>s3. s3_from_env getenv file = Inr s3
    \<and> controller_limits (optional_env getenv file) invalid (ct_transports (cs_controller ct)) = Inr (cs_controller ct)
    \<and> ct_transports (cs_controller ct) \<noteq> []
    \<and> (\<forall>a \<in> set (ct_allowed_agents (cs_controller ct)). \<exists>T. transport_for (cs_controller ct) a = Inr T)
    \<and> (\<forall>a row. (a, row) \<in> set (rg_agents (tables_at db s)) \<longrightarrow>
        (\<exists>key T. required_env getenv file ''CONTROL_PRIVATE_KEY'' = Inr key \<and> transport_for (cs_controller ct) a = Inr T
          \<and> paired_transport E s3 key \<lparr>ak_id = a, ak_public_key = ar_public_key row\<rparr> = Inr T))"
proof -
  from controller_setup_Inr [OF assms(3)] obtain s3 q s1 m s2 where s3: "s3_from_env getenv file = Inr s3"
    and reg: "registry_open H (cn_create C) q s = (Inr (), s1)"
    and fleet: "controller_fleet E (cn_registry C db) order (optional_env getenv file) (required_env getenv file) s3 s1 = (Inr m, s2)"
    and ne: "m \<noteq> []" and lim: "controller_limits (optional_env getenv file) invalid (in_order order m) = Inr (cs_controller ct)"
    by blast
  have same: "tables_at db s1 = tables_at db s" using open_keeps reg by (rule leavesD)
  have f: "distinct (map fst m) \<and> (\<forall>a \<in> fst ` set m. validate_agent_id a = Inr ())
    \<and> (\<forall>a row. (a, row) \<in> set (rg_agents (tables_at db s)) \<longrightarrow>
        (\<exists>key T. required_env getenv file ''CONTROL_PRIVATE_KEY'' = Inr key \<and> map_of m a = Some T
          \<and> paired_transport E s3 key \<lparr>ak_id = a, ak_public_key = ar_public_key row\<rparr> = Inr T))"
    using controller_fleet_Inr [OF registry_at _ fleet assms(2)] assms(1) unfolding same by blast
  note o = in_order_facts [OF conjunct1 [OF f] assms(2)]
  have keys: "fst ` set (in_order order m) = fst ` set m"
    using o(1) assms(2) by (metis list.set_map mset_eq_setD)
  have C: "ct_transports (cs_controller ct) = in_order order m"
    "ct_allowed_agents (cs_controller ct) = map fst (in_order order m)"
    using controller_limits_Inr [OF lim] by simp_all
  have nonempty: "m = [] \<longleftrightarrow> in_order order m = []" using keys by (metis image_is_empty set_empty)
  have key: "transport_for (cs_controller ct) a = Inr T" if "map_of m a = Some T" for a T
  proof -
    have "a \<in> fst ` set m" using that by (metis map_of_SomeD image_eqI fst_conv)
    moreover from this f have "validate_agent_id a = Inr ()" by blast
    ultimately show ?thesis using that by (simp add: transport_for_Inr C keys o(2))
  qed
  have "\<exists>T. transport_for (cs_controller ct) a = Inr T" if "a \<in> set (ct_allowed_agents (cs_controller ct))" for a
  proof -
    have "a \<in> fst ` set m" using that keys by (simp add: C)
    then obtain T where "map_of m a = Some T" by (cases "map_of m a") (simp_all add: map_of_eq_None_iff)
    with key show ?thesis by blast
  qed
  moreover have "\<exists>k T. required_env getenv file ''CONTROL_PRIVATE_KEY'' = Inr k \<and> transport_for (cs_controller ct) a = Inr T
      \<and> paired_transport E s3 k \<lparr>ak_id = a, ak_public_key = ar_public_key row\<rparr> = Inr T"
    if "(a, row) \<in> set (rg_agents (tables_at db s))" for a row
    using f that key by metis
  moreover have "ct_transports (cs_controller ct) \<noteq> []" using ne nonempty C(1) by simp
  ultimately show ?thesis using s3 lim unfolding C(1) [symmetric] by blast
qed

lemma setup_fleet_row:
  assumes "registry_ok (tables_at db s)" and "\<And>xs. mset (order xs) = mset xs"
    and "controller_setup E H (cn_registry C db) (cn_create C) logs order getenv file invalid s = (Inr ct, s')"
    and "(a, row) \<in> set (rg_agents (tables_at db s))"
  shows "\<exists>s3 key T. s3_from_env getenv file = Inr s3 \<and> required_env getenv file ''CONTROL_PRIVATE_KEY'' = Inr key
    \<and> transport_for (cs_controller ct) a = Inr T
    \<and> paired_transport E s3 key \<lparr>ak_id = a, ak_public_key = ar_public_key row\<rparr> = Inr T"
  using setup_fleet [OF assms(1-3)] assms(4) by blast

end

end
