(* ===== verification/Console.thy ===== *)
theory Console
  imports Enrolling
begin

text \<open>
  An operator's console over the concrete environment: it keeps the contract of \<open>terminal\<close>, both
  commands \<open>init\<close> and the command \<open>add\<close> succeed on it, and both programs start with the files that
  were written. The witnesses of Commissioning use these facts.
\<close>

section \<open>A concrete console\<close>

text \<open>
  It answers every prompt with the same line, reads files as they are and writes TOML strings
  between quotation marks; what a text parses to is given.
\<close>

definition mem_console :: "string \<Rightarrow> table res \<Rightarrow> mem console" where
  "mem_console line parsed =
     \<lparr>cn_print = (\<lambda>_ w. w), cn_ask = (\<lambda>_ w. (Inr (), w)), cn_echo = (\<lambda>_ w. w), cn_read_line = (\<lambda>w. (Inr line, w)),
      cn_set_mode = (\<lambda>_ _ w. (Inr (), w)),
      cn_read_to_string = (\<lambda>p w. (case mem_fs w p of None \<Rightarrow> bail ''No such file or directory'' | Some b \<Rightarrow> Inr (of_bytes b), w)),
      cn_quote = (\<lambda>v. CHR 0x22 # v @ [CHR 0x22]), cn_parse = (\<lambda>_. parsed), cn_registry = (\<lambda>_. mem_sqlite),
      cn_create = (\<lambda>_ w. (Inr (), w)), cn_curl = (\<lambda>_ w. (Inr True, w)),
      cn_current_exe = (\<lambda>w. (Inr (PathBuf ''/usr/bin/relay''), w)), cn_version = ''1.0'', cn_target = ''linux x86_64'',
      cn_os = ''linux'', cn_arch = ''x86_64'', cn_update_base = None\<rparr>"

lemma leaves_read_only: "(\<And>w. snd (f w) = w) \<Longrightarrow> leaves g f"
  by (auto simp: leaves_def)

interpretation mem_terminal: terminal "mem_env T" mem_view mem_rest mem_host mem_fs mem_unread mem_target
    "mem_console line parsed" "\<lambda>_. mem_registry" for T line parsed
proof (rule terminal.intro [OF mem_machine.machine_axioms], rule terminal_axioms.intro)
  show "database (cn_registry (mem_console line parsed) p) mem_registry" for p
    using mem_database.database_axioms by (simp add: mem_console_def)
  show "leaves mem_registry (create_dir_all mem_host q)" "leaves mem_fs (create_dir_all mem_host q)" for q
    by (auto simp: leaves_def mem_host_def mem_fs_def)
  show "leaves mem_registry (now_unix (mem_env T))"
    by (auto simp: leaves_def mem_env_def effect_defs)
qed (auto simp: mem_console_def bail_def intro!: leaves_read_only split: option.splits)

text \<open>A machine that reports nothing.\<close>

definition silent_gauges :: "mem gauges" where
  "silent_gauges = \<lparr>ga_read_to_string = (\<lambda>_ w. (Inl [], w)), ga_parse_f32 = (\<lambda>_. None), ga_parallelism = (\<lambda>w. (Inl [], w)),
     ga_is_file = (\<lambda>_ _. False), ga_statvfs = (\<lambda>_ w. (Inl [], w)), ga_run = (\<lambda>_ _ _ w. (Inl [], w))\<rparr>"

section \<open>The commands succeed\<close>

lemma mem_key_derived:
  assumes "length x = 32" and "length y = 32" and "validate_agent_id name = Inr ()"
  shows "\<exists>cr. res_then (derive_key (mem_env T) (toy_b64_encode x) (toy_b64_encode y) name)
    (\<lambda>key. from_base64 (mem_env T) key PAIRED_KEY_ID) = Inr cr"
proof -
  have kb: "key_bytes (mem_env T) m1 m2 (toy_b64_encode z) = Inr z" if "length z = 32" for m1 m2 z
    using mem_crates.key_bytes_encoded [OF that, of T m1 m2] by (simp add: mem_env_def)
  have len: "length (take 32 (toy_sha256 z @ replicate 32 0)) = 32" for z :: bytes by simp
  have tr: "trim (toy_b64_encode z) = toy_b64_encode z" for z by (rule trim_plain [OF toy_b64_plain])
  have "hkdf (mem_env T) DOMAIN z info 32 = Some (take 32 (toy_sha256 (DOMAIN @ z @ info) @ replicate 32 0))" for z info
    by (simp add: mem_env_def toy_hkdf_def)
  then show ?thesis
    using assms
    by (simp add: derive_key_def kb from_base64_def ok_or_def, simp add: mem_env_def tr toy_b64_inv PAIRED_KEY_ID_def)
qed

lemma mem_b64 [simp]: "b64_encode (mem_env T) = toy_b64_encode"
  by (simp add: mem_env_def)

lemma mem_prompt: "trim line \<noteq> [] \<Longrightarrow> prompt (mem_console line parsed) label secret s = (Inr (trim line), s)"
  by (simp add: prompt_def mem_console_def io_then_def)

lemma mem_bucket_answers: "trim line \<noteq> [] \<Longrightarrow> ask_bucket (mem_console line parsed) s =
   (Inr \<lparr>ba_endpoint = trim line, ba_region = trim line, ba_bucket = trim line, ba_access = trim line, ba_secret = trim line\<rparr>, s)"
  by (simp add: ask_bucket_def io_then_def mem_prompt)

definition mem_key :: "mem \<Rightarrow> bytes" where
  "mem_key w = replicate 32 (of_nat (mem_seed w))"

lemma mem_key_length [simp]: "length (mem_key w) = 32" "pad32 (mem_key w) = mem_key w"
  by (simp_all add: mem_key_def pad32_def)

lemma mem_keypair:
  "generate_keypair (mem_env T) s = (Inr (toy_b64_encode (mem_key s), toy_b64_encode (mem_key s)), s\<lparr>mem_seed := Suc (mem_seed s)\<rparr>)"
  by (simp add: generate_keypair_def random_def io_then_def io_ok_def mem_env_def mem_key_def pad32_def)

lemma mem_write_private:
  "\<exists>w. write_private mem_host (mem_console line parsed) p text s = (Inr (), w) \<and> mem_registry w = mem_registry s
    \<and> mem_fs w p \<noteq> None"
  by (auto simp: write_private_def io_then_def fs_write_def mem_host_def mem_create_def mem_write_all_def mem_console_def
     mem_rename_def mem_target_def mem_fs_def io_context_def io_ok_def Let_def bail_def split: option.splits)

lemma mem_dirs_sel [simp]: "create_dir_all mem_host d w = (Inr (), w\<lparr>mem_dirs := d # mem_dirs w\<rparr>)"
    "path_exists mem_host = mem_exists"
  by (simp_all add: mem_host_def)

lemma mem_console_sel [simp]: "cn_create (mem_console line parsed) d w = (Inr (), w)"
    "cn_print (mem_console line parsed) t w = w" "cn_registry (mem_console line parsed) d = mem_sqlite"
  by (simp_all add: mem_console_def)

lemma mem_registry_open:
  "\<exists>w2. registry_open mem_host (cn_create (mem_console line parsed)) d w = (Inr (), w2)
    \<and> mem_registry w2 = mem_registry w \<and> mem_fs w2 = mem_fs w"
  by (cases "parent d") (simp_all add: registry_open_def io_then_def io_ok_def mem_fs_def)

lemma mem_fingerprint: "\<exists>f. fingerprint (mem_env T) (toy_b64_encode x) = Inr f"
  using mem_crates.b64_inv [of T x] mem_crates.b64_plain [of T x]
  by (simp add: fingerprint_def mem_env_def trim_plain Let_def)

lemma mem_controller_init:
  assumes "trim line \<noteq> []" and "\<not> mem_exists (config_path getenv ''controller'') s"
  shows "\<exists>c w. controller_init (mem_env T) mem_host (mem_console line parsed) getenv s = (Inr c, w)
    \<and> ce_private c = toy_b64_encode (mem_key s) \<and> ce_public c = toy_b64_encode (mem_key s)
    \<and> ba_bucket (ce_bucket c) = trim line \<and> ce_database c = with_extension (config_path getenv ''controller'') ''db''
    \<and> mem_registry w = mem_registry s \<and> mem_fs w (config_path getenv ''controller'') \<noteq> None"
proof -
  let ?C = "mem_console line parsed" and ?p = "config_path getenv ''controller''" and ?k = "toy_b64_encode (mem_key s)"
  let ?s1 = "s\<lparr>mem_seed := Suc (mem_seed s)\<rparr>"
  let ?b = "\<lparr>ba_endpoint = trim line, ba_region = trim line, ba_bucket = trim line, ba_access = trim line, ba_secret = trim line\<rparr>"
  let ?c = "\<lparr>ce_bucket = ?b, ce_private = ?k, ce_public = ?k, ce_database = with_extension ?p ''db'',
     ce_log_dir = log_dir_beside ?p\<rparr>"
  obtain w where w: "write_private mem_host ?C ?p (controller_config_text (cn_quote ?C) ?c) ?s1 = (Inr (), w)"
    "mem_registry w = mem_registry ?s1" "mem_fs w ?p \<noteq> None"
    using mem_write_private by blast
  obtain f where f: "fingerprint (mem_env T) ?k = Inr f" using mem_fingerprint by blast
  obtain w2 where w2: "registry_open mem_host (cn_create ?C) (with_extension ?p ''db'') w = (Inr (), w2)"
    "mem_registry w2 = mem_registry w" "mem_fs w2 = mem_fs w"
    using mem_registry_open by blast
  have "controller_init (mem_env T) mem_host ?C getenv s = (Inr ?c, w2)"
    using assms(2)
    by (simp add: controller_init_def Let_def io_then_def io_lift_apply io_ok_apply path_present_def
      mem_bucket_answers [OF assms(1)] mem_keypair w(1) w2(1) f println_def)
  then show ?thesis using w w2 by auto
qed

lemma mem_agent_init:
  assumes "trim line = toy_b64_encode y" and "length y = 32" and "\<not> mem_exists (config_path getenv ''agent'') s"
    and "validate_agent_id name = Inr ()"
  shows "\<exists>a code w. agent_init (mem_env T) mem_host (mem_console line parsed) getenv (Some name) s = (Inr (a, code), w)
    \<and> ae_private a = toy_b64_encode (mem_key s) \<and> ae_controller_public a = trim line \<and> ae_agent_id a = name \<and> ae_public a = toy_b64_encode (mem_key s)
    \<and> ba_bucket (ae_bucket a) = trim line \<and> mem_fs w (config_path getenv ''agent'') \<noteq> None"
proof -
  let ?C = "mem_console line parsed" and ?p = "config_path getenv ''agent''" and ?k = "toy_b64_encode (mem_key s)"
  let ?s1 = "s\<lparr>mem_seed := Suc (mem_seed s)\<rparr>"
  let ?b = "\<lparr>ba_endpoint = trim line, ba_region = trim line, ba_bucket = trim line, ba_access = trim line, ba_secret = trim line\<rparr>"
  let ?a = "\<lparr>ae_bucket = ?b, ae_agent_id = name, ae_private = ?k, ae_public = ?k, ae_controller_public = trim line\<rparr>"
  have ne: "trim line \<noteq> []" using assms(1,2) by (cases y) auto
  obtain key where key: "derive_key (mem_env T) ?k (trim line) name = Inr key"
    using mem_key_derived [of "mem_key s" y name T] assms(1,2,4) by (auto simp: res_then_Inr_iff)
  obtain w where w: "write_private mem_host ?C ?p (agent_config_text (cn_quote ?C) ?a) ?s1 = (Inr (), w)" "mem_fs w ?p \<noteq> None"
    using mem_write_private by blast
  obtain f where f: "fingerprint (mem_env T) ?k = Inr f" using mem_fingerprint by blast
  have "trim ?k = ?k" by (rule trim_plain [OF toy_b64_plain])
  then have "\<exists>code. encode_enrollment (mem_env T) name ?k = Inr code"
    using mem_crates.b64_inv [of T "mem_key s"] assms(4) by (simp add: encode_enrollment_def mem_env_def)
  then obtain code where code: "encode_enrollment (mem_env T) name ?k = Inr code" by blast
  have "agent_init (mem_env T) mem_host ?C getenv (Some name) s = (Inr (?a, code), w)"
    using assms(3)
    by (simp add: agent_init_def agent_enrol_def Let_def io_then_def io_lift_apply io_ok_apply path_present_def
      mem_bucket_answers [OF ne] mem_prompt [OF ne] mem_keypair assms(4) key w(1) f code println_def)
  then show ?thesis using w(2) by auto
qed

lemma mem_controller_paths:
  assumes "mem_fs s (config_path getenv ''controller'') \<noteq> None"
  shows "controller_paths (mem_console line (Inr (controller_config_table c))) getenv s =
    (Inr (ce_private c, PathBuf (display (ce_database c)), PathBuf (display (ce_log_dir c))), s)"
  using assms
  by (auto simp: controller_paths_def read_table_def io_then_def io_lift_apply mem_console_def controller_table_def
    section_text_def controller_table_defs as_table_def as_str_def ok_or_def Let_def)

lemma mem_controller_add:
  assumes "decode_enrollment (mem_env T) code = Inr \<lparr>enr_agent_id = name, enr_public_key = toy_b64_encode y, enr_version = 1\<rparr>"
    and "length x = 32" and "length y = 32" and "validate_agent_id name = Inr ()" and "ce_private c = toy_b64_encode x"
    and "mem_fs s (config_path getenv ''controller'') \<noteq> None"
  shows "\<exists>w. controller_add (mem_env T) mem_host (mem_console line (Inr (controller_config_table c))) getenv code s = (Inr (), w)
    \<and> mem_fs w = mem_fs s"
proof -
  let ?C = "mem_console line (Inr (controller_config_table c))" and ?db = "PathBuf (display (ce_database c))"
  obtain key where key: "derive_key (mem_env T) (ce_private c) (toy_b64_encode y) name = Inr key"
    using mem_key_derived [of x y name T] assms(2-5) by (auto simp: res_then_Inr_iff)
  obtain w2 where w2: "registry_open mem_host (cn_create ?C) ?db s = (Inr (), w2)" "mem_fs w2 = mem_fs s"
    using mem_registry_open by blast
  obtain f where f: "fingerprint (mem_env T) (toy_b64_encode y) = Inr f" using mem_fingerprint by blast
  obtain now w3 where clock: "now_unix (mem_env T) w2 = (Inr now, w3)" "mem_fs w3 = mem_fs w2"
    by (cases "now_unix (mem_env T) w2") (auto simp: mem_env_def effect_defs now_unix_def mem_fs_def)
  show ?thesis
    by (simp add: mem_fs_def clock w2(2) [unfolded mem_fs_def] clock(2) [unfolded mem_fs_def] controller_add_def io_then_def io_lift_apply assms(1) mem_controller_paths [OF assms(6)] key w2
      add_def report_added_def println_def f mem_sqlite_def)
qed

section \<open>Starting with the files that were written\<close>

text \<open>Settings that the written files do not have.\<close>

definition has_key :: "table \<Rightarrow> string \<times> string \<Rightarrow> bool" where
  "has_key t k \<longleftrightarrow> Option.bind (Option.bind (map_of t (fst k)) as_table) (\<lambda>fs. map_of fs (snd k)) \<noteq> None"

lemma from_file_absent:
  "case toml_path name of None \<Rightarrow> True | Some k \<Rightarrow> \<not> has_key t k \<Longrightarrow> from_file (Some t) name = None"
  by (auto simp: from_file_def has_key_def split: option.splits prod.splits)

definition agent_file_keys :: "(string \<times> string) list" where
  "agent_file_keys = map (Pair ''s3'') [''endpoint'', ''region'', ''bucket'', ''prefix'', ''force_path_style'', ''access_key_id'', ''secret_access_key'']
    @ map (Pair ''agent'') [''id'', ''private_key'', ''public_key'', ''controller_public_key'', ''allow_any_path'', ''allow_any_program'',
      ''allowed_roots'', ''allowed_programs'', ''job_retention_days'', ''job_max_total_bytes'', ''job_cleanup_interval_secs'', ''job_ship_chunk_bytes'']"

definition controller_file_keys :: "(string \<times> string) list" where
  "controller_file_keys = map (Pair ''s3'') [''endpoint'', ''region'', ''bucket'', ''prefix'', ''force_path_style'', ''access_key_id'', ''secret_access_key'']
    @ map (Pair ''controller'') [''private_key'', ''public_key'', ''database'', ''log_dir'', ''queue_ttl_secs'', ''max_exec_secs'',
      ''max_wait_secs'', ''max_transfer_secs'', ''poll_ms'']"

lemma file_keys:
  "has_key (agent_config_table a) k \<Longrightarrow> k \<in> set agent_file_keys"
  "has_key (controller_config_table c) k \<Longrightarrow> k \<in> set controller_file_keys"
  by (cases k; auto simp: has_key_def agent_table_defs controller_table_defs as_table_def bucket_table_def
      agent_file_keys_def controller_file_keys_def split: if_splits)+

definition sample_variables :: "string \<Rightarrow> string option" where
  "sample_variables = [''S3_ENDPOINT'' \<mapsto> ''https://h'', ''RELAY_CONFIG'' \<mapsto> ''/r.toml'']"

definition missing :: "(string \<times> string) list \<Rightarrow> string \<Rightarrow> bool" where
  "missing keys name \<longleftrightarrow> name \<noteq> ''S3_ENDPOINT'' \<and> name \<noteq> ''RELAY_CONFIG'' \<and> (case toml_path name of None \<Rightarrow> True | Some k \<Rightarrow> k \<notin> set keys)"

lemma missing_settings:
  "missing agent_file_keys name \<Longrightarrow> optional_env sample_variables (Some (agent_config_table a)) name = None"
  "missing controller_file_keys name \<Longrightarrow> optional_env sample_variables (Some (controller_config_table c)) name = None"
  using file_keys
  by (auto simp: missing_def optional_env_def sample_variables_def intro!: from_file_absent split: option.splits)

lemma agent_missing: "list_all (missing agent_file_keys)
    [''AGENT_JOB_DIR'', ''AGENT_CHILD_ENV_ALLOWLIST'', ''AGENT_MAX_TIMEOUT_SECS'', ''AGENT_MAX_FILE_BYTES'', ''AGENT_MAX_OUTPUT_BYTES'',
     ''AGENT_MAX_BLOB_BYTES'', ''AGENT_MAX_JOB_SECS'', ''AGENT_POLL_MS'', ''AGENT_POLL_MAX_MS'', ''AGENT_FULL_SCAN_SECS'',
     ''AGENT_DOORBELL'', ''AGENT_HEARTBEAT_SECS'', ''AGENT_HEARTBEAT_TTL_SECS'', ''S3_ALLOW_INSECURE_HTTP'',
     ''AGENT_AUTO_UPDATE'', ''AGENT_UPDATE_CHECK_SECS'', ''AGENT_GPU_METRICS'']"
  by code_simp

lemma controller_missing: "list_all (missing controller_file_keys)
    [''CONTROL_SHARE_RETENTION_DAYS'', ''RELAY_STATUS_INTERVAL_SECS'', ''RELAY_STATUS_FILE'', ''CONTROL_UPDATE_SEEN_DAYS'',
     ''CONTROL_AUTO_CLEANUP'', ''CONTROL_CLEANUP_CHECK_SECS'', ''CONTROL_AUTO_PUBLISH_REPO'', ''S3_ALLOW_INSECURE_HTTP'']"
  by code_simp

lemma written_paths:
  "map toml_path [''AGENT_ALLOWED_ROOTS'', ''AGENT_ALLOWED_PROGRAMS'', ''AGENT_JOB_RETENTION_DAYS'', ''AGENT_JOB_MAX_TOTAL_BYTES'',
     ''AGENT_JOB_CLEANUP_INTERVAL_SECS'', ''AGENT_JOB_SHIP_CHUNK_BYTES'', ''S3_REGION'', ''S3_BUCKET'', ''S3_ACCESS_KEY_ID'',
     ''S3_SECRET_ACCESS_KEY'', ''S3_FORCE_PATH_STYLE'', ''CONTROL_DATABASE'', ''CONTROL_LOG_DIR'', ''CONTROL_QUEUE_TTL_SECS'',
     ''CONTROL_MAX_EXEC_SECS'', ''CONTROL_MAX_WAIT_SECS'', ''CONTROL_MAX_TRANSFER_SECS'', ''CONTROL_POLL_MS'']
   = map Some [(''agent'', ''allowed_roots''), (''agent'', ''allowed_programs''), (''agent'', ''job_retention_days''),
     (''agent'', ''job_max_total_bytes''), (''agent'', ''job_cleanup_interval_secs''), (''agent'', ''job_ship_chunk_bytes''),
     (''s3'', ''region''), (''s3'', ''bucket''), (''s3'', ''access_key_id''), (''s3'', ''secret_access_key''),
     (''s3'', ''force_path_style''), (''controller'', ''database''), (''controller'', ''log_dir''), (''controller'', ''queue_ttl_secs''),
     (''controller'', ''max_exec_secs''), (''controller'', ''max_wait_secs''), (''controller'', ''max_transfer_secs''),
     (''controller'', ''poll_ms'')]"
  by code_simp

lemma agent_written:
  "optional_env sample_variables (Some (agent_config_table a)) ''AGENT_ALLOWED_ROOTS'' = Some []"
  "optional_env sample_variables (Some (agent_config_table a)) ''AGENT_ALLOWED_PROGRAMS'' = Some []"
  "optional_env sample_variables (Some (agent_config_table a)) ''AGENT_JOB_RETENTION_DAYS'' = Some (dec 7)"
  "optional_env sample_variables (Some (agent_config_table a)) ''AGENT_JOB_MAX_TOTAL_BYTES'' = Some (dec 1073741824)"
  "optional_env sample_variables (Some (agent_config_table a)) ''AGENT_JOB_CLEANUP_INTERVAL_SECS'' = Some (dec 21600)"
  "optional_env sample_variables (Some (agent_config_table a)) ''AGENT_JOB_SHIP_CHUNK_BYTES'' = Some (dec 131072)"
  using written_paths
  by (simp_all add: optional_env_def from_file_def sample_variables_def agent_table_defs as_table_def render_def dec_int_def)

lemma bucket_written:
  assumes "map_of t ''s3'' = Some (TTable (bucket_table b))"
  shows "optional_env sample_variables (Some t) ''S3_BUCKET'' = Some (ba_bucket b)"
    "optional_env sample_variables (Some t) ''S3_ACCESS_KEY_ID'' = Some (ba_access b)"
    "optional_env sample_variables (Some t) ''S3_SECRET_ACCESS_KEY'' = Some (ba_secret b)"
    "optional_env sample_variables (Some t) ''S3_ENDPOINT'' = Some ''https://h''"
  using assms written_paths
  by (simp_all add: optional_env_def from_file_def sample_variables_def bucket_table_def as_table_def render_def)

lemma controller_written:
  "optional_env sample_variables (Some (controller_config_table c)) ''CONTROL_DATABASE'' = Some (display (ce_database c))"
  "optional_env sample_variables (Some (controller_config_table c)) ''CONTROL_LOG_DIR'' = Some (display (ce_log_dir c))"
  "optional_env sample_variables (Some (controller_config_table c)) ''CONTROL_QUEUE_TTL_SECS'' = Some (dec 120)"
  "optional_env sample_variables (Some (controller_config_table c)) ''CONTROL_MAX_EXEC_SECS'' = Some (dec 300)"
  "optional_env sample_variables (Some (controller_config_table c)) ''CONTROL_MAX_WAIT_SECS'' = Some (dec 430)"
  "optional_env sample_variables (Some (controller_config_table c)) ''CONTROL_MAX_TRANSFER_SECS'' = Some (dec 1800)"
  "optional_env sample_variables (Some (controller_config_table c)) ''CONTROL_POLL_MS'' = Some (dec 200)"
  using written_paths
  by (simp_all add: optional_env_def from_file_def sample_variables_def controller_table_defs as_table_def render_def dec_int_def)

lemma bounded_env_dec:
  "setting name = Some (dec n) \<Longrightarrow> lo \<le> n \<Longrightarrow> n \<le> hi \<Longrightarrow> n < 2 ^ 64 \<Longrightarrow> bounded_env setting invalid name fallback lo hi = Inr n"
  "setting name = None \<Longrightarrow> lo \<le> fallback \<Longrightarrow> fallback \<le> hi \<Longrightarrow> bounded_env setting invalid name fallback lo hi = Inr fallback"
  by (simp_all add: bounded_env_def number_env_def parse_unsigned_dec ok_or_def)

lemma mem_s3:
  assumes "map_of t ''s3'' = Some (TTable (bucket_table b))" and "trim (ba_bucket b) \<noteq> []"
    and "optional_env sample_variables (Some t) ''S3_PREFIX'' = Some ''relay-prod/''"
    and "optional_env sample_variables (Some t) ''S3_ALLOW_INSECURE_HTTP'' = None"
  shows "\<exists>s3. s3_from_env sample_variables (Some t) = Inr s3 \<and> s3_validate s3 = Inr ()"
proof -
  have "ends_with ''relay-prod/'' ''/''" "\<not> starts_with ''relay-prod/'' ''/''" "\<not> contains_str ''relay-prod/'' ''..''"
    "starts_with (to_ascii_lowercase ''https://h'') ''https://''"
    by code_simp+
  then show ?thesis
    using assms bucket_written [OF assms(1)]
    by (simp add: s3_from_env_def Let_def required_env_def s3_validate_def)
qed

lemma agent_unset:
  "name \<in> set [''AGENT_JOB_DIR'', ''AGENT_CHILD_ENV_ALLOWLIST'', ''AGENT_MAX_TIMEOUT_SECS'', ''AGENT_MAX_FILE_BYTES'', ''AGENT_MAX_OUTPUT_BYTES'',
     ''AGENT_MAX_BLOB_BYTES'', ''AGENT_MAX_JOB_SECS'', ''AGENT_POLL_MS'', ''AGENT_POLL_MAX_MS'', ''AGENT_FULL_SCAN_SECS'',
     ''AGENT_DOORBELL'', ''AGENT_HEARTBEAT_SECS'', ''AGENT_HEARTBEAT_TTL_SECS'', ''S3_ALLOW_INSECURE_HTTP'',
     ''AGENT_AUTO_UPDATE'', ''AGENT_UPDATE_CHECK_SECS'', ''AGENT_GPU_METRICS''] \<Longrightarrow>
   optional_env sample_variables (Some (agent_config_table a)) name = None"
  using agent_missing missing_settings(1) unfolding list_all_iff by blast

lemma controller_unset:
  "name \<in> set [''CONTROL_SHARE_RETENTION_DAYS'', ''RELAY_STATUS_INTERVAL_SECS'', ''RELAY_STATUS_FILE'', ''CONTROL_UPDATE_SEEN_DAYS'',
     ''CONTROL_AUTO_CLEANUP'', ''CONTROL_CLEANUP_CHECK_SECS'', ''CONTROL_AUTO_PUBLISH_REPO'', ''S3_ALLOW_INSECURE_HTTP''] \<Longrightarrow>
   optional_env sample_variables (Some (controller_config_table c)) name = None"
  using controller_missing missing_settings(2) unfolding list_all_iff by blast

lemma sample_variables_unset: "keys_unset sample_variables"
  by (simp add: keys_unset_def KEY_VARIABLES_def sample_variables_def)

lemma mem_policy:
  "\<exists>pol. policy_from_env mem_host invalid (optional_env sample_variables (Some (agent_config_table a))) sample_variables s = (Inr pol, s)"
proof -
  have "is_ok (child_environment sample_variables (comma_list DEFAULT_CHILD_ENV))" by code_simp
  then obtain env where env: "child_environment sample_variables (comma_list DEFAULT_CHILD_ENV) = Inr env" by (auto simp: is_ok_iff)
  have empty: "split_paths [] = []" "comma_list [] = []" by (simp_all add: split_paths_def comma_list_def trim_def)
  show ?thesis
    unfolding policy_from_env_def Let_def
    by (simp add: agent_unset agent_written empty env or_default_def io_then_def io_ok_def io_lift_def number_env_def bounded_def)
qed

lemma mem_agent_settings:
  assumes "ae_private a = toy_b64_encode x" and "ae_controller_public a = toy_b64_encode y" and "length x = 32" "length y = 32"
    and "validate_agent_id (ae_agent_id a) = Inr ()" and "trim (ba_bucket (ae_bucket a)) \<noteq> []"
  shows "\<exists>se w. agent_settings_from (mem_env T) mem_host sample_variables (Some (agent_config_table a)) invalid s = (Inr se, w)"
proof -
  let ?t = "agent_config_table a" and ?set = "optional_env sample_variables (Some (agent_config_table a))"
  let ?dir = "job_directory ?set"
  have bkt: "map_of ?t ''s3'' = Some (TTable (bucket_table (ae_bucket a)))" by (simp add: agent_table_defs)
  obtain s3 where s3: "s3_from_env sample_variables (Some ?t) = Inr s3" "s3_validate s3 = Inr ()"
    using mem_s3 [OF bkt assms(6) agent_file_settings(6) [OF sample_variables_unset] agent_unset] by auto
  obtain cr where cr: "crypto_from_env (mem_env T) ?set (required_env sample_variables (Some ?t)) = Inr cr"
    using mem_key_derived [OF assms(3,4,5), of T]
    unfolding mem_crates.agent_key_from_file [OF sample_variables_unset] assms(1,2) by blast
  have poll: "\<exists>poll. poll_from_env ?set invalid = Inr poll"
    by (simp add: poll_from_env_def bounded_env_dec agent_unset)
  have beat: "heartbeat_settings ?set invalid = Inr (15, 45)"
    by (simp add: heartbeat_settings_def bounded_env_dec agent_unset)
  have id: "required_env sample_variables (Some ?t) ''RELAY_AGENT_ID'' = Inr (ae_agent_id a)"
    by (simp add: required_env_def agent_file_settings [OF sample_variables_unset])
  obtain poll where poll: "poll_from_env ?set invalid = Inr poll" using poll by blast
  have pol: "\<exists>pol. policy_from_env mem_host invalid ?set sample_variables w = (Inr pol, w)" for w using mem_policy .
  have root: "\<exists>pol'. permit_root mem_host ?dir pol w = (Inr pol', w)" if "?dir \<in> set (mem_dirs w)" for pol w
    using that by (simp add: permit_root_def io_then_def io_ok_def io_context_def mem_host_def mem_exists_def)
  obtain pol where pol: "policy_from_env mem_host invalid ?set sample_variables (s\<lparr>mem_dirs := ?dir # mem_dirs s\<rparr>)
      = (Inr pol, s\<lparr>mem_dirs := ?dir # mem_dirs s\<rparr>)" using pol by blast
  obtain pol' where pol': "permit_root mem_host ?dir pol (s\<lparr>mem_dirs := ?dir # ?dir # mem_dirs s\<rparr>)
      = (Inr pol', s\<lparr>mem_dirs := ?dir # ?dir # mem_dirs s\<rparr>)" using root by fastforce
  show ?thesis
    by (simp add: agent_settings_from_def Let_def io_then_def io_lift_apply io_context_def id assms(5) pol poll pol'
        beat s3 cr connect_def bounded_env_dec agent_written)
qed

lemma mem_agent_setup:
  assumes "agent_settings_from (mem_env T) mem_host sample_variables (Some (agent_config_table a)) invalid s = (Inr se, w)"
    and "\<And>v. up_current_exe U v = (Inl [], v)"
  shows "\<exists>tasks w'. agent_setup (mem_env T) mem_host G U sample_variables (Some (agent_config_table a)) invalid s = Some (Inr tasks, w')"
  using assms
  by (simp add: agent_setup_def Let_def w_then_def w_io_def w_attempt_def running_sha256_def io_ok_apply io_lift_apply
      new_transfer_id_def uuid_v4_def now_unix_def agent_unset bounded_env_dec on_unless_no_def split: prod.split)

lemma mem_background: "\<exists>b. background_tasks (optional_env sample_variables (Some (controller_config_table c))) invalid = Inr b"
  by (simp add: background_tasks_def bounded_env_dec controller_unset on_unless_no_def)

lemma mem_limits: "\<exists>C. controller_limits (optional_env sample_variables (Some (controller_config_table c))) invalid m = Inr C"
  by (simp add: controller_limits_def Let_def bounded_env_dec controller_unset controller_written)

lemma mem_status:
  "\<exists>st w. status_task mem_host (\<lambda>_ w. (Inr (), w)) sample_variables (optional_env sample_variables (Some (controller_config_table c)))
     invalid db s = (Inr st, w)"
  by (simp add: status_task_def Let_def io_then_def io_lift_apply io_ok_apply bounded_env_dec controller_unset controller_written log_store_new_def)

lemma mem_controller_setup:
  assumes "rg_agents (mem_registry s) = [(name, row)]" and "ar_public_key row = toy_b64_encode x" and "ce_private c = toy_b64_encode y"
    and "length x = 32" "length y = 32" and "validate_agent_id name = Inr ()" and "trim (ba_bucket (ce_bucket c)) \<noteq> []"
  shows "\<exists>ct w. controller_setup (mem_env T) mem_host mem_sqlite (cn_create (mem_console line parsed)) (\<lambda>_ w. (Inr (), w)) id
    sample_variables (Some (controller_config_table c)) invalid s = (Inr ct, w)"
proof -
  let ?t = "controller_config_table c" and ?set = "optional_env sample_variables (Some (controller_config_table c))"
  let ?db = "PathBuf (display (ce_database c))"
  have bkt: "map_of ?t ''s3'' = Some (TTable (bucket_table (ce_bucket c)))" by (simp add: controller_table_defs)
  obtain s3 where s3: "s3_from_env sample_variables (Some ?t) = Inr s3" "s3_validate s3 = Inr ()"
    using mem_s3 [OF bkt assms(7) controller_file_settings(2) [OF sample_variables_unset] controller_unset] by auto
  obtain w where w: "registry_open mem_host (cn_create (mem_console line parsed)) ?db s = (Inr (), w)"
    "mem_registry w = mem_registry s" using mem_registry_open by blast
  obtain cr where cr: "res_then (derive_key (mem_env T) (toy_b64_encode y) (toy_b64_encode x) name)
      (\<lambda>key. from_base64 (mem_env T) key PAIRED_KEY_ID) = Inr cr"
    using mem_key_derived [OF assms(5,4,6)] by blast
  have key: "required_env sample_variables (Some ?t) ''CONTROL_PRIVATE_KEY'' = Inr (toy_b64_encode y)"
    using controller_file_settings(1) [OF sample_variables_unset, of c] assms(3) by (simp add: required_env_def)
  have rows: "agents mem_sqlite w = (Inr [\<lparr>ak_id = name, ak_public_key = toy_b64_encode x\<rparr>], w)"
    by (simp add: agents_def mem_sqlite_def io_then_def io_ok_def w(2) assms(1,2))
  have fleet: "\<exists>T'. controller_fleet (mem_env T) mem_sqlite id ?set (required_env sample_variables (Some ?t)) s3 w
      = (Inr [(name, T')], w)"
    using cr by (auto simp: controller_fleet_def io_then_def io_lift_apply rows key assms(6) connect_def s3 res_then_Inr_iff)
  obtain T' where fleet: "controller_fleet (mem_env T) mem_sqlite id ?set (required_env sample_variables (Some ?t)) s3 w
      = (Inr [(name, T')], w)" using fleet by blast
  obtain C where C: "controller_limits ?set invalid (in_order id [(name, T')]) = Inr C" using mem_limits by blast
  obtain st w2 where st: "status_task mem_host (\<lambda>_ w. (Inr (), w)) sample_variables ?set invalid ?db w = (Inr st, w2)"
    using mem_status by blast
  obtain b where b: "background_tasks ?set invalid = Inr b" using mem_background by blast
  show ?thesis
    by (simp add: controller_setup_def Let_def io_then_def io_lift_apply io_ok_apply s3 controller_written w fleet C st b split: prod.split)
qed

section \<open>The programs start\<close>

lemma mem_load_config:
  assumes "validate_table ''/r.toml'' t = Inr ()" and "mem_fs s (PathBuf ''/r.toml'') \<noteq> None"
  shows "load_config mem_host (mem_console line (Inr t)) sample_variables s = (Inr (Some t), s)"
proof -
  have "mem_exists (PathBuf ''/r.toml'') s" using assms(2) by (auto simp: mem_exists_def)
  moreover obtain b where "mem_fs s (PathBuf ''/r.toml'') = Some b" using assms(2) by blast
  then have "cn_read_to_string (mem_console line (Inr t)) (PathBuf ''/r.toml'') s = (Inr (of_bytes b), s)"
    "cn_parse (mem_console line (Inr t)) (of_bytes b) = Inr t"
    by (simp_all add: mem_console_def)
  moreover have "sample_variables ''RELAY_CONFIG'' = Some ''/r.toml''" by (simp add: sample_variables_def)
  ultimately show ?thesis
    using assms(1) by (simp add: load_config_def init_config_def config_file_def)
qed

lemma mem_agent_program:
  assumes "ae_private a = toy_b64_encode x" and "ae_controller_public a = toy_b64_encode y" and "length x = 32" "length y = 32"
    and "validate_agent_id (ae_agent_id a) = Inr ()" and "trim (ba_bucket (ae_bucket a)) \<noteq> []"
    and "mem_fs s (PathBuf ''/r.toml'') \<noteq> None" and "\<And>v. up_current_exe U v = (Inl [], v)"
  shows "\<exists>tasks w. agent_program (mem_env T) mem_host (mem_console line (Inr (agent_config_table a))) G U sample_variables [] invalid s
    = Some (Inr (Some tasks), w)"
proof -
  obtain se w where "agent_settings_from (mem_env T) mem_host sample_variables (Some (agent_config_table a)) invalid s = (Inr se, w)"
    using mem_agent_settings [OF assms(1-6)] by blast
  from mem_agent_setup [OF this assms(8)] obtain tasks w'
    where "agent_setup (mem_env T) mem_host G U sample_variables (Some (agent_config_table a)) invalid s = Some (Inr tasks, w')" by blast
  then show ?thesis
    by (simp add: agent_program_def agent_admin_def w_then_def w_io_def io_ok_apply
        mem_load_config [OF written_files_are_valid(1) assms(7)])
qed

lemma mem_controller_program:
  assumes "rg_agents (mem_registry s) = [(name, row)]" and "ar_public_key row = toy_b64_encode x" and "ce_private c = toy_b64_encode y"
    and "length x = 32" "length y = 32" and "validate_agent_id name = Inr ()" and "trim (ba_bucket (ce_bucket c)) \<noteq> []"
    and "mem_fs s (PathBuf ''/r.toml'') \<noteq> None"
  shows "\<exists>ct w. controller_program (mem_env T) mem_host (mem_console line (Inr (controller_config_table c))) (\<lambda>_ w. (Inr (), w))
    (\<lambda>_ w. (Inr (), w)) id sample_variables [] invalid s = (Inr (Some ct), w)"
proof -
  have "sample_variables ''RELAY_LOG_FILE'' = None" by (simp add: sample_variables_def)
  moreover obtain ct w where "controller_setup (mem_env T) mem_host mem_sqlite
      (cn_create (mem_console line (Inr (controller_config_table c)))) (\<lambda>_ w. (Inr (), w)) id
      sample_variables (Some (controller_config_table c)) invalid s = (Inr ct, w)"
    using mem_controller_setup [OF assms(1-7)] by blast
  ultimately show ?thesis
    by (simp add: controller_program_def controller_admin_def init_logging_def io_then_def io_ok_apply Let_def
        mem_load_config [OF written_files_are_valid(2) assms(8)])
qed

end
