(* ===== verification/Commissioning.thy ===== *)
theory Commissioning
  imports Console
begin

text \<open>
  What the set-up of the two programs gives: the files that enrolment writes make the two ends
  share one transport, a controller that starts can reach every agent it allows and never waits
  for ever, and a heartbeat outlives a beat that is missed.
\<close>

section \<open>What the set-up amounts to\<close>

text \<open>The two ends once their settings are read: they use one transport.\<close>

lemma settings_agree:
  assumes "terminal E view rest H files unread target C tables_at"
    and "agent_init E Ha Ca env_a suggested s = (Inr (a, code), s')"
    and "controller_init E Hc Cc env_c t = (Inr c, t')"
    and "ae_controller_public a = ce_public c"
    and "controller_paths C env_c u = (Inr (key, db, logs), u0)" and "registry_ok (tables_at db u)"
    and "controller_add E H C env_c code u = (Inr v, u')"
    and "keys_unset ga" and "keys_unset gc" and "\<And>xs. mset (order xs) = mset xs"
    and "agent_settings_from E Ha ga (Some (agent_config_table a)) invalid w = (Inr se, w')"
    and "tables_at db x = tables_at db u'"
    and "controller_setup E H (cn_registry C db) (cn_create C) lg order gc (Some (controller_config_table c)) invalid x
      = (Inr ct, x')"
  shows "se_agent_id se = ae_agent_id a
    \<and> transport_for (cs_controller ct) (ae_agent_id a) = Inr (se_transport se)"
proof -
  have E: "crates E" using assms(1) by (simp add: terminal_def machine_def relay_def)
  obtain kx where kx: "length kx = 32" "ae_private a = b64_encode E kx" "ae_public a = b64_encode E (x25519_public E kx)"
    and code: "encode_enrollment E (ae_agent_id a) (ae_public a) = Inr code"
    using crates.agent_init_Inr [OF E assms(2)] crates.agent_enrol_Inr [OF E] by metis
  obtain ky where ky: "length ky = 32" "ce_private c = b64_encode E ky" "ce_public c = b64_encode E (x25519_public E ky)"
    using crates.controller_init_Inr [OF E assms(3)] by blast
  have en: "decode_enrollment E code = Inr \<lparr>enr_agent_id = ae_agent_id a, enr_public_key = ae_public a, enr_version = 1\<rparr>"
    using crates.code_of_agent [OF E] code kx(3) by simp
  obtain now where tab: "tables_at db x = upsert_agent (ae_agent_id a) (ae_public a) now (tables_at db u)"
    using terminal.add_enters [OF assms(1,7)] en assms(5,12) by auto
  then have ok: "registry_ok (tables_at db x)" using statements_ok(1) [OF assms(6)] by simp
  obtain row where row: "(ae_agent_id a, row) \<in> set (rg_agents (tables_at db x))" "ar_public_key row = ae_public a"
    using upsert_agent_row unfolding tab by blast
  obtain s3 T where s3: "s3_from_env gc (Some (controller_config_table c)) = Inr s3"
    and T: "transport_for (cs_controller ct) (ae_agent_id a) = Inr T"
    and pt: "paired_transport E s3 (ce_private c) \<lparr>ak_id = ae_agent_id a, ak_public_key = ae_public a\<rparr> = Inr T"
    using terminal.setup_fleet_row [OF assms(1) ok assms(10,13) row(1)] row(2)
      controller_file_settings(1) [OF assms(9), of c] by (auto simp: required_env_def)
  obtain s3a cr where se: "s3_from_env ga (Some (agent_config_table a)) = Inr s3a" "connect s3a cr = Inr (se_transport se)"
    "crypto_from_env E (optional_env ga (Some (agent_config_table a))) (required_env ga (Some (agent_config_table a))) = Inr cr"
    using agent_settings_Inr [OF assms(11)] by blast
  have "se_agent_id se = ae_agent_id a"
    using agent_settings_id [OF assms(11)] agent_file_settings(1) [OF assms(8), of a] by (simp add: required_env_def)
  moreover have "T = se_transport se"
    using crates.paired_transport_of_agent [OF E assms(8,9) kx(1) ky(1) kx(2) _ _ s3 se(3,1,2)] pt ky kx(3) assms(4) by simp
  ultimately show ?thesis using T by simp
qed

section \<open>Properties\<close>



text \<open>
  C9. A controller that starts allows some agent, has a transport for every agent it allows, and
  answers every command it relays: its settings keep the time limit of a command at one second or
  more, so that cutting a timeout to it is well defined, and the poll interval above zero, so that
  no relay waits for ever.
\<close>

theorem started_controller_serves_its_agents:
  assumes "terminal E view rest H files unread target C tables_at" and "monotonic E elapsed"
    and "registry_ok (tables_at db s)" and "\<And>xs. mset (order xs) = mset xs"
    and "controller_setup E H (cn_registry C db) (cn_create C) logs order getenv file invalid s = (Inr ct, s')"
  shows "ct_allowed_agents (cs_controller ct) \<noteq> []
    \<and> (\<forall>a \<in> set (ct_allowed_agents (cs_controller ct)). \<exists>T. transport_for (cs_controller ct) a = Inr T)
    \<and> 1 \<le> ct_max_exec_secs (cs_controller ct) \<and> unat (ct_max_exec_secs (cs_controller ct)) \<le> 3600
    \<and> (\<forall>agent kind timeout w. \<exists>out w'. relay_command E (cs_controller ct) agent kind timeout w = Some (out, w'))"
proof -
  let ?K = "cs_controller ct"
  obtain lim: "controller_limits (optional_env getenv file) invalid (ct_transports ?K) = Inr ?K"
    and "ct_transports ?K \<noteq> []" and keys: "\<forall>a \<in> set (ct_allowed_agents ?K). \<exists>T. transport_for ?K a = Inr T"
    using terminal.setup_fleet [OF assms(1,3,4,5)] by blast
  note b = controller_limits_Inr [OF lim]
  have "\<exists>out w'. relay_command E ?K agent kind timeout w = Some (out, w')" for agent kind timeout w
    using relay_with_returns [OF assms(2), of ?K agent kind "clamp_u64 1 (ct_max_exec_secs ?K) timeout" "ct_max_wait_secs ?K" w] b
    by (auto simp: relay_command_def)
  with b keys \<open>ct_transports ?K \<noteq> []\<close> show ?thesis by simp
qed

text \<open>A database with one agent, and the file of a controller.\<close>

definition staffed_world :: mem where
  "staffed_world = mem_start\<lparr>mem_registry := registry_empty\<lparr>rg_agents := [(''alpha'',
     \<lparr>ar_public_key = toy_b64_encode (mem_key mem_start), ar_added_at = 1, ar_updated_at = 1\<rparr>)]\<rparr>\<rparr>"

definition staffed_controller :: controller_enrolment where
  "staffed_controller = \<lparr>ce_bucket = \<lparr>ba_endpoint = ''x'', ba_region = ''x'', ba_bucket = ''x'', ba_access = ''x'', ba_secret = ''x''\<rparr>,
     ce_private = toy_b64_encode (mem_key mem_start), ce_public = toy_b64_encode (mem_key mem_start),
     ce_database = PathBuf ''/db'', ce_log_dir = PathBuf ''/logs''\<rparr>"

theorem started_controller_serves_its_agents_witness:
  "\<exists>ct :: controller_tasks. ct_allowed_agents (cs_controller ct) \<noteq> []
    \<and> (\<exists>out w'. relay_command (mem_env sample_tables) (cs_controller ct) ''alpha'' Ping 10 mem_start = Some (out, w'))"
proof -
  have rows: "rg_agents (mem_registry staffed_world) = [(''alpha'',
      \<lparr>ar_public_key = toy_b64_encode (mem_key mem_start), ar_added_at = 1, ar_updated_at = 1\<rparr>)]"
    by (simp add: staffed_world_def)
  have fields: "ce_private staffed_controller = toy_b64_encode (mem_key mem_start)" "trim (ba_bucket (ce_bucket staffed_controller)) \<noteq> []"
    by (simp_all add: staffed_controller_def trim_def is_space_def in_range_def)
  have alpha: "validate_agent_id ''alpha'' = Inr ()" by code_simp
  obtain ct v where ct: "controller_setup (mem_env sample_tables) mem_host mem_sqlite (cn_create (mem_console [] (Inl []))) (\<lambda>_ w. (Inr (), w)) id
      sample_variables (Some (controller_config_table staffed_controller)) [] staffed_world = (Inr ct, v)"
    using mem_controller_setup [OF rows _ fields(1) mem_key_length(1) mem_key_length(1) alpha fields(2)] by fastforce
  have "registry_ok (mem_registry staffed_world)" by (simp add: staffed_world_def registry_ok_def registry_empty_def)
  moreover have "mset (id xs) = mset xs" for xs :: "string list" by simp
  ultimately have "ct_allowed_agents (cs_controller ct) \<noteq> []
      \<and> (\<forall>agent kind timeout w. \<exists>out w'. relay_command (mem_env sample_tables) (cs_controller ct) agent kind timeout w = Some (out, w'))"
    using started_controller_serves_its_agents [OF mem_terminal.terminal_axioms mem_time.monotonic_axioms _ _
      ct [folded mem_console_sel(3) [of "[]" "Inl []" "PathBuf []"]]] by blast
  then show ?thesis by (intro exI [of _ ct]) simp
qed

text \<open>
  C19. A live agent is never taken for a dead one because a single heartbeat was lost: with the
  settings an agent starts with, what it writes at one beat is not stale before twice the interval
  has passed, and the interval is between five seconds and half an hour.
\<close>

theorem heartbeat_outlives_a_missed_beat:
  assumes "agent_setup E H G U getenv file invalid s = Some (Inr tasks, s')"
    and "now \<le> t + 2 * int (se_heartbeat_secs (at_settings tasks))"
  shows "\<not> is_stale now (heartbeat_of N (at_identity tasks) a sampled t)
    \<and> 5 \<le> se_heartbeat_secs (at_settings tasks) \<and> se_heartbeat_secs (at_settings tasks) \<le> 1800"
proof -
  from agent_setup_Inr [OF assms(1)] obtain s1
    where se: "agent_settings_from E H getenv file invalid s = (Inr (at_settings tasks), s1)"
      and ttl: "id_ttl_secs (at_identity tasks) = se_heartbeat_ttl (at_settings tasks)" by blast
  note b = heartbeat_settings_Inr [OF conjunct1 [OF conjunct2 [OF agent_settings_Inr [OF se]]]]
  have "\<not> is_stale now (heartbeat_of N (at_identity tasks) a sampled t)"
    by (rule not_stale_within [where n = "2 * int (se_heartbeat_secs (at_settings tasks))"])
      (use assms(2) ttl b in \<open>simp_all add: heartbeat_of_def split: prod.split\<close>)
  with b show ?thesis by blast
qed

definition staffed_agent :: agent_enrolment where
  "staffed_agent = \<lparr>ae_bucket = ce_bucket staffed_controller, ae_agent_id = ''alpha'',
     ae_private = toy_b64_encode (mem_key mem_start), ae_public = toy_b64_encode (mem_key mem_start),
     ae_controller_public = toy_b64_encode (mem_key mem_start)\<rparr>"

theorem heartbeat_outlives_a_missed_beat_witness:
  "\<exists>tasks :: agent_tasks. 5 \<le> se_heartbeat_secs (at_settings tasks)
    \<and> \<not> is_stale 1010 (heartbeat_of mem_node (at_identity tasks) idle_agent
      \<lparr>mt_load_1m = None, mt_cpu_count = None, mt_mem_total_mb = None, mt_mem_available_mb = None,
       mt_disk_total_mb = None, mt_disk_free_mb = None, mt_gpus = []\<rparr> 1000)"
proof -
  let ?m = "\<lparr>mt_load_1m = None, mt_cpu_count = None, mt_mem_total_mb = None, mt_mem_available_mb = None,
       mt_disk_total_mb = None, mt_disk_free_mb = None, mt_gpus = []\<rparr>"
  have a: "ae_private staffed_agent = toy_b64_encode (mem_key mem_start)"
      "ae_controller_public staffed_agent = toy_b64_encode (mem_key mem_start)"
      "trim (ba_bucket (ae_bucket staffed_agent)) \<noteq> []"
    by (simp_all add: staffed_agent_def staffed_controller_def trim_def is_space_def in_range_def)
  have id: "validate_agent_id (ae_agent_id staffed_agent) = Inr ()" unfolding staffed_agent_def by code_simp
  obtain se w where "agent_settings_from (mem_env sample_tables) mem_host sample_variables (Some (agent_config_table staffed_agent)) [] mem_start
      = (Inr se, w)"
    using mem_agent_settings [OF a(1,2) mem_key_length(1) mem_key_length(1) id a(3)] by blast
  from mem_agent_setup [OF this, of "(mem_updater [])\<lparr>up_current_exe := \<lambda>v. (Inl [], v)\<rparr>"]
  obtain tasks w' where t: "agent_setup (mem_env sample_tables) mem_host silent_gauges ((mem_updater [])\<lparr>up_current_exe := \<lambda>v. (Inl [], v)\<rparr>)
      sample_variables (Some (agent_config_table staffed_agent)) [] mem_start = Some (Inr tasks, w')" by fastforce
  have "5 \<le> se_heartbeat_secs (at_settings tasks)"
    using heartbeat_outlives_a_missed_beat [OF t, of 0 0 mem_node idle_agent ?m] by simp
  moreover from this have "\<not> is_stale 1010 (heartbeat_of mem_node (at_identity tasks) idle_agent ?m 1000)"
    using heartbeat_outlives_a_missed_beat [OF t, of 1010 1000 mem_node idle_agent ?m] by simp
  ultimately show ?thesis by (intro exI [of _ tasks] conjI)
qed

section \<open>What the commands also do\<close>

text \<open>
  When reading the secret fails, the prompt returns before the terminal echoes again.
\<close>

theorem failed_prompt_leaves_echo_off:
  assumes "cn_ask C (label @ '': '') s = (Inr (), s1)" and "cn_read_line C (cn_echo C False s1) = (Inl e, s2)"
  shows "prompt C label True s = (Inl e, s2)"
  using assms by (simp add: prompt_def io_then_def)

text \<open>
  An agent that is given its name on the command line is asked for it all the same, and without an
  answer it is not initialised.
\<close>

theorem given_name_is_asked_for:
  assumes "prompt C ''Agent name'' False s = (Inl e, s')" and "\<not> path_exists H (config_path getenv ''agent'') s"
  shows "agent_init E H C getenv (Some name) s = (Inl e, s')"
  using assms by (simp add: agent_init_def agent_enrol_def Let_def io_then_def io_lift_apply path_present_def)

text \<open>
  Where \<open>RELAY_CONFIG\<close> is not set, \<open>init\<close> writes below the home directory, but a program that
  starts looks for the file in its working directory and does not find what was written.
\<close>

theorem default_config_is_not_found:
  assumes "getenv ''RELAY_CONFIG'' = None" and "getenv ''HOME'' = Some (CHR ''/'' # home)"
  shows "init_config getenv (\<lambda>p. p = display (config_path getenv role)) read_text parse None = Inr None"
proof -
  have "is_absolute (config_path getenv role)"
    using assms by (auto simp: config_path_def path_join_def PathBuf_def Let_def)
  then have "display (config_path getenv role) \<noteq> ''relay.toml''" by (auto simp: display_def)
  then show ?thesis using assms(1) by (auto simp: init_config_def Let_def)
qed

text \<open>
  An agent honours \<open>RELAY_KEY_ID\<close> also when it is paired, the controller never does: with any other
  key id than the paired one, no controller's transport for the agent is the agent's own.
\<close>

theorem renamed_key_separates_the_ends:
  assumes "crypto_from_env E setting required = Inr cr" and "setting ''RELAY_KEY_ID'' = Some k" and "k \<noteq> PAIRED_KEY_ID"
    and "paired_transport E s3 private row = Inr T"
  shows "cr_key_id (tp_crypto T) \<noteq> cr_key_id cr"
  using assms
  by (auto simp: crypto_from_env_def paired_transport_def from_base64_def connect_Inr res_then_Inr_iff Let_def)

end
