(* ===== verification/Retention.thy ===== *)
theory Retention
  imports Rollout MemFacts
begin

text \<open>
  What the cleaning loops of the controller remove, and above all what they leave: a release
  some recently seen agent still has to install, and a shared file that has not expired.
\<close>

section \<open>Object keys\<close>

lemma release_key_inj:
  assumes "CHR ''/'' \<notin> set r" and "CHR ''/'' \<notin> set r'" and "tp_prefix T = tp_prefix T'"
    and "prefix (release_prefix T r) k" and "prefix (release_prefix T' r') k"
  shows "r = r'"
proof -
  obtain x y where "r @ CHR ''/'' # x = r' @ CHR ''/'' # y"
    using assms(3-5) by (auto simp: release_prefix_def prefix_def)
  then have "split_once (CHR ''/'') (r @ CHR ''/'' # x) = split_once (CHR ''/'') (r' @ CHR ''/'' # y)" by simp
  with assms(1,2) show ?thesis by (simp add: split_once_append)
qed

lemma manifest_not_release [key_simps]:
  "tp_prefix T = tp_prefix T' \<Longrightarrow> \<not> prefix (release_prefix T r) (update_manifest_key T' a)"
  by (simp add: release_prefix_def update_manifest_key_def)

lemma manifest_key_inj [key_simps]:
  "tp_prefix T = tp_prefix T' \<Longrightarrow> update_manifest_key T a = update_manifest_key T' a' \<longleftrightarrow> a = a'"
  by (simp add: update_manifest_key_def)

section \<open>What a sweep may remove\<close>

text \<open>From \<open>v\<close> to \<open>v'\<close> only objects named by \<open>D\<close> went, and none was written.\<close>

definition shrunk :: "string set \<Rightarrow> (string \<Rightarrow> bytes option) \<Rightarrow> (string \<Rightarrow> bytes option) \<Rightarrow> bool" where
  "shrunk D v v' \<longleftrightarrow> (\<forall>k. v' k = v k \<or> k \<in> D \<and> v' k = None)"

lemma shrunk_refl [simp]: "shrunk D v v"
  by (simp add: shrunk_def)

lemma shrunk_mono: "shrunk D v v' \<Longrightarrow> D \<subseteq> D' \<Longrightarrow> shrunk D' v v'"
  by (auto simp: shrunk_def)

lemma shrunk_trans: "shrunk D v v' \<Longrightarrow> shrunk D v' v'' \<Longrightarrow> shrunk D v v''"
  unfolding shrunk_def by metis

lemma shrunk_None: "shrunk D v v' \<Longrightarrow> v k = None \<Longrightarrow> v' k = None"
  unfolding shrunk_def by metis

text \<open>The manifests of a release's holders, as far as the holders are configured.\<close>

definition held_keys :: "fleet \<Rightarrow> holders \<Rightarrow> string set" where
  "held_keys fleet hs = {k. \<exists>a m T. (a, m) \<in> set hs \<and> map_of fleet a = Some T \<and> k = update_manifest_key T a}"

section \<open>Reading the manifests\<close>

text \<open>The manifest the bucket holds for an agent.\<close>

definition manifest_in :: "'s env \<Rightarrow> transport \<Rightarrow> (string \<Rightarrow> bytes option) \<Rightarrow> string \<Rightarrow> update_manifest option" where
  "manifest_in E T objs agent = Option.bind (objs (update_manifest_key T agent)) (\<lambda>b.
     case open_sealed E (tp_crypto T) (update_manifest_json E) (update_manifest_key T agent) b of
       Inl _ \<Rightarrow> None | Inr m \<Rightarrow> Some m)"

lemma add_holder_fst: "set (map fst (add_holder r h gs)) = insert r (set (map fst gs))"
proof (induction gs)
  case (Cons g gs)
  then show ?case by (cases g) (simp add: insert_commute)
qed simp

lemma add_holder_distinct: "distinct (map fst gs) \<Longrightarrow> distinct (map fst (add_holder r h gs))"
proof (induction gs)
  case (Cons g gs)
  have keys: "fst ` set (add_holder r h gs) = insert r (fst ` set gs)" using add_holder_fst [of r h gs] by simp
  obtain r0 hs0 where g: "g = (r0, hs0)" by (cases g)
  show ?case
  proof (cases "r0 = r")
    case True
    with Cons.prems g show ?thesis by simp
  next
    case False
    have "distinct (map fst (add_holder r h gs))" using Cons by simp
    moreover have "r0 \<notin> fst ` set (add_holder r h gs)" using keys False Cons.prems g by simp
    ultimately show ?thesis using g False by simp
  qed
qed simp

lemma add_holder_map_of:
  "map_of (add_holder r h gs) R = (if R = r then Some ((case map_of gs r of None \<Rightarrow> [] | Some old \<Rightarrow> old) @ [h]) else map_of gs R)"
  by (induction gs) auto

lemma add_holder_groups:
  assumes "distinct (map fst gs)"
  shows "(R, hs) \<in> set (add_holder r h gs) \<longleftrightarrow>
    (if R = r then hs = (case map_of gs r of None \<Rightarrow> [] | Some old \<Rightarrow> old) @ [h] else (R, hs) \<in> set gs)"
proof -
  have iff: "(R, hs) \<in> set l \<longleftrightarrow> map_of l R = Some hs" if "distinct (map fst l)" for l :: "(string \<times> holders) list"
    using that by simp
  show ?thesis by (simp only: iff [OF add_holder_distinct [OF assms]] iff [OF assms] add_holder_map_of)
      (auto split: option.splits)
qed

text \<open>The groups of a list of manifests: one per release, with the holders of exactly this release.\<close>

definition grouped :: "(string \<times> update_manifest) set \<Rightarrow> (string \<times> holders) list \<Rightarrow> bool" where
  "grouped held gs \<longleftrightarrow> distinct (map fst gs) \<and>
     (\<forall>a m. (a, m) \<in> held \<longleftrightarrow> (\<exists>hs. (um_release m, hs) \<in> set gs \<and> (a, m) \<in> set hs)) \<and>
     (\<forall>R hs a m. (R, hs) \<in> set gs \<longrightarrow> (a, m) \<in> set hs \<longrightarrow> um_release m = R) \<and>
     (\<forall>R hs. (R, hs) \<in> set gs \<longrightarrow> hs \<noteq> [])"

lemma grouped_add:
  assumes "grouped held gs"
  shows "grouped (insert (a, m) held) (add_holder (um_release m) (a, m) gs)"
proof -
  let ?gs = "add_holder (um_release m) (a, m) gs"
  have d: "distinct (map fst gs)" using assms by (simp add: grouped_def)
  note groups = add_holder_groups [OF d, of _ _ "um_release m" "(a, m)"] add_holder_distinct [OF d, of "um_release m" "(a, m)"]
  have old: "(R, hs) \<in> set gs \<longleftrightarrow> map_of gs R = Some hs" for R hs using d by (auto intro: map_of_is_SomeI dest: map_of_SomeD)
  have member: "(b, m') \<in> held \<longleftrightarrow> (\<exists>hs. (um_release m', hs) \<in> set gs \<and> (b, m') \<in> set hs)" for b m'
    using assms unfolding grouped_def by blast
  have own: "um_release m' = R" if "(R, hs) \<in> set gs" "(b, m') \<in> set hs" for R hs b m'
    using assms that unfolding grouped_def by blast
  have "(b, m') \<in> insert (a, m) held \<longleftrightarrow> (\<exists>hs. (um_release m', hs) \<in> set ?gs \<and> (b, m') \<in> set hs)" for b m'
  proof (cases "um_release m' = um_release m")
    case True
    then show ?thesis using groups by (auto simp: member old split: option.splits)
  next
    case False
    then show ?thesis using groups by (auto simp: member)
  qed
  moreover have "um_release m' = R" if "(R, hs) \<in> set ?gs" "(b, m') \<in> set hs" for R hs b m'
    using that groups by (cases "R = um_release m") (auto simp: old [symmetric] dest: own split: option.splits)
  moreover have "hs \<noteq> []" if "(R, hs) \<in> set ?gs" for R hs
  proof (cases "R = um_release m")
    case True
    with that groups show ?thesis by simp
  next
    case False
    with that groups have "(R, hs) \<in> set gs" by simp
    with assms show ?thesis unfolding grouped_def by blast
  qed
  ultimately show ?thesis using groups unfolding grouped_def by blast
qed

text \<open>A release waits for an agent that holds its manifest, is live and does not run it yet.\<close>

definition waiting :: "'s env \<Rightarrow> fleet \<Rightarrow> (string \<Rightarrow> seen_agent option) \<Rightarrow> (string \<Rightarrow> bytes option) \<Rightarrow> string \<Rightarrow> bool" where
  "waiting E fleet live objs R \<longleftrightarrow> (\<exists>a T m la. (a, T) \<in> set fleet \<and> manifest_in E T objs a = Some m \<and> um_release m = R
     \<and> live a = Some la \<and> \<not> runs la (um_sha256 m) (um_version m))"

lemma complete_not_waiting:
  assumes "grouped {(a, m). \<exists>T. (a, T) \<in> set fleet \<and> manifest_in E T objs a = Some m} gs" and "(R, hs) \<in> set gs"
  shows "rollout_complete live hs \<longleftrightarrow> \<not> waiting E fleet live objs R"
proof -
  have "(a, m) \<in> set hs \<longleftrightarrow> (\<exists>T. (a, T) \<in> set fleet \<and> manifest_in E T objs a = Some m) \<and> um_release m = R" for a m
  proof -
    have "hs' = hs" if "(R, hs') \<in> set gs" for hs'
      using assms that unfolding grouped_def by (metis map_of_is_SomeI option.inject)
    with assms show ?thesis unfolding grouped_def by blast
  qed
  then show ?thesis by (fastforce simp: rollout_complete_def waiting_def list_all_iff split: option.splits)
qed

context relay
begin

lemma read_update_manifest_Inr:
  assumes "read_update_manifest E T agent s = (Inr r, s')"
  shows "view s' = view s \<and> r = manifest_in E T (view s) agent
    \<and> (\<forall>m. r = Some m \<longrightarrow> um_agent_id m = agent \<and> uuid_ok E (um_release m))"
proof -
  let ?rest = "\<lambda>q. case q of None \<Rightarrow> io_ok None | Some m \<Rightarrow> io_then (io_lift (ensure (um_agent_id m = agent)
        (''update manifest at '' @ update_manifest_key T agent @ '' names a different agent''))) (\<lambda>_.
        io_then (io_lift (validate_transfer_id (uuid_ok E) (um_release m))) (\<lambda>_. io_ok (Some m)))"
  have "io_then (io_lift (validate_agent_id agent)) (\<lambda>_.
      io_then (get_encrypted E T (update_manifest_json E) (update_manifest_key T agent)) ?rest) s = (Inr r, s')"
    using assms by (simp only: read_update_manifest_def Let_def)
  then obtain q s1 where q: "get_encrypted E T (update_manifest_json E) (update_manifest_key T agent) s = (Inr q, s1)"
    and go: "?rest q s1 = (Inr r, s')"
    unfolding io_then_Inr io_lift_def prod.inject by blast
  have "view s1 = view s" by (rule get_encrypted_view [OF q])
  with get_encrypted_Inr [OF q] go show ?thesis
    by (auto simp: manifest_in_def io_then_Inr validate_transfer_id_def split: option.splits if_splits)
qed

lemma by_release_Inr:
  assumes "by_release E fleet acc s = (Inr gs, s')" and "grouped held acc"
  shows "view s' = view s \<and> grouped (held \<union> {(a, m). \<exists>T. (a, T) \<in> set fleet \<and> manifest_in E T (view s) a = Some m}) gs
    \<and> (\<forall>a T m. (a, T) \<in> set fleet \<longrightarrow> manifest_in E T (view s) a = Some m \<longrightarrow> uuid_ok E (um_release m))"
  using assms
proof (induction fleet arbitrary: acc s held)
  case (Cons f fleet)
  obtain a T where f: "f = (a, T)" by (cases f)
  from Cons.prems(1) f obtain r s1 where r: "read_update_manifest E T a s = (Inr r, s1)"
    and go: "by_release E fleet (case r of None \<Rightarrow> acc | Some m \<Rightarrow> add_holder (um_release m) (a, m) acc) s1 = (Inr gs, s')"
    by (auto simp: io_then_Inr)
  note r = read_update_manifest_Inr [OF r]
  show ?case
  proof (cases r)
    case None
    have "by_release E fleet acc s1 = (Inr gs, s')" using go None by simp
    from Cons.IH [OF this Cons.prems(2)] r f have
      "view s' = view s \<and> grouped (held \<union> {(a, m). \<exists>T. (a, T) \<in> set fleet \<and> manifest_in E T (view s) a = Some m}) gs
        \<and> (\<forall>a T m. (a, T) \<in> set fleet \<longrightarrow> manifest_in E T (view s) a = Some m \<longrightarrow> uuid_ok E (um_release m))"
      by simp
    moreover have "{(b, m). \<exists>T. (b, T) \<in> set (f # fleet) \<and> manifest_in E T (view s) b = Some m}
      = {(b, m). \<exists>T. (b, T) \<in> set fleet \<and> manifest_in E T (view s) b = Some m}" using f r None by auto
    ultimately show ?thesis using f r None by auto
  next
    case (Some m)
    have "by_release E fleet (add_holder (um_release m) (a, m) acc) s1 = (Inr gs, s')" using go Some by simp
    from Cons.IH [OF this grouped_add [OF Cons.prems(2)]] r
    have "view s' = view s
      \<and> grouped (insert (a, m) held \<union> {(a, m). \<exists>T. (a, T) \<in> set fleet \<and> manifest_in E T (view s) a = Some m}) gs
      \<and> (\<forall>a T m. (a, T) \<in> set fleet \<longrightarrow> manifest_in E T (view s) a = Some m \<longrightarrow> uuid_ok E (um_release m))"
      by simp
    moreover have "held \<union> {(b, m). \<exists>T. (b, T) \<in> set (f # fleet) \<and> manifest_in E T (view s) b = Some m}
      = insert (a, m) held \<union> {(b, m). \<exists>T. (b, T) \<in> set fleet \<and> manifest_in E T (view s) b = Some m}"
      using f r Some by auto
    ultimately show ?thesis using f r Some by auto
  qed
qed simp

lemma by_release_view: "by_release E fleet acc s = (r, s') \<Longrightarrow> view s' = view s"
proof (induction fleet arbitrary: acc s)
  case (Cons f fleet)
  obtain a T where f: "f = (a, T)" by (cases f)
  have "leaves view (get_encrypted E T (update_manifest_json E) k)" for T k
    unfolding leaves_def by (rule allI, rule get_encrypted_view, rule prod.collapse [symmetric])
  then have l: "leaves view (read_update_manifest E T a)"
    unfolding read_update_manifest_def Let_def by (intro leaves_intros)
  obtain q s1 where q: "read_update_manifest E T a s = (q, s1)" by fastforce
  with leavesD [OF l q] Cons f show ?case by (cases q) (auto simp: io_then_def)
qed simp

lemma delete_key_shrunk:
  assumes "delete_key E k s = (r, s')"
  shows "shrunk {k} (view s) (view s') \<and> (is_ok r \<longrightarrow> view s' k = None)"
proof
  show "shrunk {k} (view s) (view s')" using delete_key_view [OF assms] by (auto simp: shrunk_def split: if_splits)
  show "is_ok r \<longrightarrow> view s' k = None" using assms by (cases r) (auto simp: is_ok_def dest: delete_key_Inr)
qed

lemma retract_all_effect:
  assumes "retract_all E fleet hs n s = (r, s')"
  shows "shrunk (held_keys fleet hs) (view s) (view s')
    \<and> (\<forall>m. r = Inr m \<longrightarrow> (\<forall>k \<in> held_keys fleet hs. view s' k = None)
          \<and> m = n + length (filter (\<lambda>h. map_of fleet (fst h) \<noteq> None) hs))"
  using assms
proof (induction hs arbitrary: n s)
  case (Cons h rest)
  obtain a m where h: "h = (a, m)" by (cases h)
  show ?case
  proof (cases "map_of fleet a")
    case None
    then have "held_keys fleet ((a, m) # rest) = held_keys fleet rest" by (fastforce simp: held_keys_def)
    moreover have "filter (\<lambda>h. map_of fleet (fst h) \<noteq> None) ((a, m) # rest) = filter (\<lambda>h. map_of fleet (fst h) \<noteq> None) rest"
      using None by simp
    moreover have "retract_all E fleet rest n s = (r, s')" using Cons.prems h None by simp
    note Cons.IH [OF this]
    ultimately show ?thesis by (simp add: h)
  next
    case (Some T)
    let ?k = "update_manifest_key T a"
    obtain q s1 where q: "delete_update_manifest E T a s = (q, s1)" by fastforce
    have d: "shrunk {?k} (view s) (view s1) \<and> (is_ok q \<longrightarrow> view s1 ?k = None)"
    proof (cases "validate_agent_id a")
      case (Inl e)
      with q have "q = Inl e" and "s1 = s" by (auto simp: delete_update_manifest_def io_then_lift)
      then show ?thesis by simp
    next
      case (Inr u)
      with q have "delete_key E ?k s = (q, s1)" by (simp add: delete_update_manifest_def io_then_lift)
      then show ?thesis by (rule delete_key_shrunk)
    qed
    have keys: "held_keys fleet ((a, m) # rest) = insert ?k (held_keys fleet rest)"
      using Some by (auto simp: held_keys_def)
    show ?thesis
    proof (cases q)
      case (Inl e)
      with Cons.prems h Some q have "s' = s1" "\<exists>e. r = Inl e" by (auto simp: io_then_apply io_context_apply with_context_def)
      with d keys show ?thesis by (auto simp: h intro: shrunk_mono)
    next
      case (Inr u)
      with Cons.prems h Some q have go: "retract_all E fleet rest (Suc n) s1 = (r, s')"
        by (simp add: io_then_apply io_context_apply with_context_def)
      note ih = Cons.IH [OF go]
      have "shrunk (insert ?k (held_keys fleet rest)) (view s) (view s')"
        by (rule shrunk_trans) (use d ih in \<open>auto intro: shrunk_mono\<close>)
      moreover have "view s' ?k = None" if "is_ok q" using d ih that shrunk_None by blast
      ultimately show ?thesis using ih keys Some Inr h by (auto simp: is_ok_def)
    qed
  qed
qed (simp add: held_keys_def shrunk_def)

lemma delete_release_effect:
  assumes "delete_release E T R s = (r, s')"
  shows "shrunk {k. prefix (release_prefix T R) k} (view s) (view s')"
proof -
  obtain q s1 where q: "list_keys E (release_prefix T R) s = (q, s1)" by fastforce
  have v1: "view s1 = view s" using q unfolding list_keys_def by (rule list_loop_view)
  show ?thesis
  proof (cases "is_ok (validate_transfer_id (uuid_ok E) R) \<and> is_ok q")
    case False
    with assms q v1 show ?thesis
      by (cases "validate_transfer_id (uuid_ok E) R"; cases q) (auto simp: delete_release_def io_then_apply io_lift_apply)
  next
    case True
    then obtain keys where keys: "q = Inr keys" and ok: "validate_transfer_id (uuid_ok E) R = Inr ()" by (auto simp: is_ok_iff)
    have "delete_each E keys s1 = (r, s')" using assms q keys ok by (simp add: delete_release_def io_then_apply io_lift_apply)
    then have "shrunk (set keys) (view s) (view s')" using delete_each_view v1 by (fastforce simp: shrunk_def)
    moreover have "set keys \<subseteq> {k. prefix (release_prefix T R) k}"
      using list_keys_Inr [OF q [unfolded keys]] list_first by auto
    ultimately show ?thesis by (rule shrunk_mono)
  qed
qed

end

text \<open>What retiring releases may do to the bucket: a release's chunks go only after its manifests.\<close>

definition chunk_keys :: "fleet \<Rightarrow> string \<Rightarrow> string set" where
  "chunk_keys fleet R = (case fleet of [] \<Rightarrow> {} | (_, T) # _ \<Rightarrow> {k. prefix (release_prefix T R) k})"

definition retired :: "(string \<Rightarrow> seen_agent option) \<Rightarrow> fleet \<Rightarrow> (string \<times> holders) set \<Rightarrow>
    (string \<Rightarrow> bytes option) \<Rightarrow> (string \<Rightarrow> bytes option) \<Rightarrow> bool" where
  "retired live fleet gs v v' \<longleftrightarrow> (\<forall>k. v' k = v k \<or> v' k = None \<and> (\<exists>R hs. (R, hs) \<in> gs \<and> rollout_complete live hs
     \<and> (k \<in> held_keys fleet hs \<or> k \<in> chunk_keys fleet R \<and> (\<forall>k' \<in> held_keys fleet hs. v' k' = None))))"

definition swept_all :: "(string \<Rightarrow> seen_agent option) \<Rightarrow> fleet \<Rightarrow> (string \<times> holders) set \<Rightarrow> (string \<Rightarrow> bytes option) \<Rightarrow> bool" where
  "swept_all live fleet gs v \<longleftrightarrow> (\<forall>R hs k. (R, hs) \<in> gs \<longrightarrow> rollout_complete live hs \<longrightarrow> k \<in> held_keys fleet hs \<longrightarrow> v k = None)"

lemma held_keys_iff:
  assumes "distinct (map fst fleet)" and "\<forall>f \<in> set fleet. tp_prefix (snd f) = p" and "(a, T) \<in> set fleet"
  shows "update_manifest_key T a \<in> held_keys fleet hs \<longleftrightarrow> (\<exists>m. (a, m) \<in> set hs)"
proof -
  have own: "map_of fleet a = Some T" using assms(1,3) by simp
  have same: "tp_prefix T' = tp_prefix T" if "map_of fleet b = Some T'" for b T'
    using bspec [OF assms(2) map_of_SomeD [OF that]] bspec [OF assms(2,3)] by simp
  show ?thesis
  proof
    assume "update_manifest_key T a \<in> held_keys fleet hs"
    then obtain b m T' where b: "(b, m) \<in> set hs" "map_of fleet b = Some T'" and "update_manifest_key T a = update_manifest_key T' b"
      by (auto simp: held_keys_def)
    with manifest_key_inj [OF same [OF b(2)]] have "a = b" by metis
    with b show "\<exists>m. (a, m) \<in> set hs" by blast
  next
    assume "\<exists>m. (a, m) \<in> set hs"
    with own show "update_manifest_key T a \<in> held_keys fleet hs" by (auto simp: held_keys_def)
  qed
qed

lemma not_held_chunk:
  assumes "\<forall>f \<in> set fleet. tp_prefix (snd f) = p" and "(a, T) \<in> set fleet" and "prefix (release_prefix T R) k"
  shows "k \<notin> held_keys fleet hs"
proof
  assume "k \<in> held_keys fleet hs"
  then obtain b T' where "(b, T') \<in> set fleet" and k: "k = update_manifest_key T' b"
    by (auto simp: held_keys_def dest: map_of_SomeD)
  then have "tp_prefix T = tp_prefix T'" using bspec [OF assms(1,2)] bspec [OF assms(1), of "(b, T')"] by simp
  with assms(3) k show False by (simp add: manifest_not_release)
qed

lemma chunk_keysD:
  assumes "\<forall>f \<in> set fleet. tp_prefix (snd f) = p" and "(a, T) \<in> set fleet" and "k \<in> chunk_keys fleet R"
  shows "prefix (release_prefix T R) k"
  using assms by (auto simp: chunk_keys_def release_prefix_def split: list.splits)

section \<open>A controller's environment\<close>

text \<open>
  The relay and the database of a controller: neither touches the other, and reading the wall
  clock touches no table.
\<close>

locale controlling = relay E view rest + database S tables_of
  for E :: "'s env" and view :: "'s \<Rightarrow> string \<Rightarrow> bytes option"
    and rest :: "(string \<Rightarrow> bytes option) \<Rightarrow> string \<Rightarrow> string option \<Rightarrow> string list"
    and S :: "'s sqlite" and tables_of :: "'s \<Rightarrow> registry" +
  assumes query_view: "leaves view (sql_query S)"
    and execute_view: "leaves view (sql_execute S f)"
    and clock_tables: "leaves tables_of (now_unix E)"
begin

lemma retired_mono: "retired live fleet gs v v' \<Longrightarrow> gs \<subseteq> gs' \<Longrightarrow> retired live fleet gs' v v'"
  unfolding retired_def by blast

lemma retired_trans:
  assumes "retired live fleet gs v v1" and "retired live fleet gs v1 v'"
  shows "retired live fleet gs v v'"
  unfolding retired_def
proof
  fix k
  have none: "v1 k' = None \<Longrightarrow> v' k' = None" for k' using assms(2) unfolding retired_def by metis
  show "v' k = v k \<or> v' k = None \<and> (\<exists>R hs. (R, hs) \<in> gs \<and> rollout_complete live hs
     \<and> (k \<in> held_keys fleet hs \<or> k \<in> chunk_keys fleet R \<and> (\<forall>k' \<in> held_keys fleet hs. v' k' = None)))"
  proof (cases "v1 k = v k")
    case True
    with assms(2) show ?thesis unfolding retired_def by metis
  next
    case False
    with assms(1) have "v1 k = None" and "\<exists>R hs. (R, hs) \<in> gs \<and> rollout_complete live hs
       \<and> (k \<in> held_keys fleet hs \<or> k \<in> chunk_keys fleet R \<and> (\<forall>k' \<in> held_keys fleet hs. v1 k' = None))"
      unfolding retired_def by metis+
    with none show ?thesis by blast
  qed
qed

lemma retire_effect:
  assumes "retire E S fleet now R hs sw s = (r, s')" and "rollout_complete live hs"
  shows "retired live fleet {(R, hs)} (view s) (view s')
    \<and> (\<forall>sw'. r = Inr sw' \<longrightarrow> (\<forall>k \<in> held_keys fleet hs. view s' k = None)
         \<and> sw_releases_removed sw' = sw_releases_removed sw @ [R]
         \<and> sw_manifests_removed sw' = sw_manifests_removed sw + length (filter (\<lambda>h. map_of fleet (fst h) \<noteq> None) hs))"
proof -
  let ?del = "case fleet of [] \<Rightarrow> io_ok ()
       | (_, T) # _ \<Rightarrow> io_context (''delete completed release '' @ R) (delete_release E T R)"
  obtain q1 s1 where q1: "retract_all E fleet hs (sw_manifests_removed sw) s = (q1, s1)" by fastforce
  note e1 = retract_all_effect [OF q1]
  have r1: "retired live fleet {(R, hs)} (view s) (view s1)"
    using e1 assms(2) unfolding retired_def shrunk_def by blast
  show ?thesis
  proof (cases q1)
    case (Inl e)
    with assms(1) q1 r1 show ?thesis by (auto simp: retire_def io_then_apply)
  next
    case (Inr n)
    with e1 have gone: "\<forall>k \<in> held_keys fleet hs. view s1 k = None"
      and n: "n = sw_manifests_removed sw + length (filter (\<lambda>h. map_of fleet (fst h) \<noteq> None) hs)" by auto
    obtain q2 s2 where q2: "?del s1 = (q2, s2)" by fastforce
    have s2: "shrunk (chunk_keys fleet R) (view s1) (view s2)"
    proof (cases fleet)
      case Nil
      with q2 show ?thesis by simp
    next
      case (Cons f fs)
      obtain a T where f: "f = (a, T)" by (cases f)
      obtain q3 where "delete_release E T R s1 = (q3, s2)"
        using q2 Cons f by (auto simp: io_context_apply split: prod.splits)
      from delete_release_effect [OF this] show ?thesis by (simp add: chunk_keys_def Cons f)
    qed
    then have r2: "retired live fleet {(R, hs)} (view s1) (view s2)"
      using gone assms(2) shrunk_None [OF s2] unfolding retired_def shrunk_def by blast
    have fin: "view s' = view s2 \<and> (\<forall>sw'. r = Inr sw' \<longrightarrow>
      sw' = \<lparr>sw_releases_removed = sw_releases_removed sw @ [R], sw_manifests_removed = n\<rparr>)"
    proof (cases q2)
      case (Inl e)
      with assms(1) q1 Inr q2 show ?thesis by (auto simp: retire_def io_then_apply)
    next
      case (Inr u)
      obtain q4 s4 where q4: "complete_rollout S R now s2 = (q4, s4)" by fastforce
      then have "view s4 = view s2" using leavesD [OF execute_view] unfolding complete_rollout_def by blast
      with assms(1) q1 \<open>q1 = Inr n\<close> q2 Inr q4 show ?thesis
        by (cases q4) (auto simp: retire_def io_then_apply io_ok_apply)
    qed
    with retired_trans [OF r1 r2] gone shrunk_None [OF s2] n show ?thesis by auto
  qed
qed

lemma retired_None: "retired live fleet gs v v' \<Longrightarrow> v k = None \<Longrightarrow> v' k = None"
  unfolding retired_def by metis

lemma sweep_releases_effect:
  assumes "sweep_releases E S fleet now live gs sw s = (r, s')"
  shows "retired live fleet (set gs) (view s) (view s')"
    and "r = Inr sw' \<Longrightarrow> swept_all live fleet (set gs) (view s')"
    and "r = Inr sw' \<Longrightarrow> sw_releases_removed sw' = sw_releases_removed sw
      @ map fst (filter (\<lambda>g. rollout_complete live (snd g)) gs)"
proof -
  have "retired live fleet (set gs) (view s) (view s') \<and> (r = Inr sw' \<longrightarrow> swept_all live fleet (set gs) (view s')
    \<and> sw_releases_removed sw' = sw_releases_removed sw @ map fst (filter (\<lambda>g. rollout_complete live (snd g)) gs))"
    using assms
  proof (induction gs arbitrary: sw s)
    case Nil
    then show ?case by (auto simp: retired_def swept_all_def)
  next
    case (Cons g gs)
    obtain R hs where g: "g = (R, hs)" by (cases g)
    have more: "retired live fleet (set gs) v v' \<Longrightarrow> retired live fleet (set (g # gs)) v v'" for v v'
      by (erule retired_mono) auto
    have one: "retired live fleet {(R, hs)} v v' \<Longrightarrow> retired live fleet (set (g # gs)) v v'" for v v'
      by (erule retired_mono) (simp add: g)
    have all: "swept_all live fleet (set (g # gs)) v \<longleftrightarrow> swept_all live fleet (set gs) v
      \<and> (rollout_complete live hs \<longrightarrow> (\<forall>k \<in> held_keys fleet hs. v k = None))" for v
      unfolding swept_all_def g by auto
    show ?case
    proof (cases "rollout_complete live hs")
      case False
      with Cons.prems g have "sweep_releases E S fleet now live gs sw s = (r, s')" by simp
      from Cons.IH [OF this] False more all show ?thesis by (simp add: g)
    next
      case True
      obtain q s1 where q: "retire E S fleet now R hs sw s = (q, s1)" by fastforce
      note e = retire_effect [OF q True]
      show ?thesis
      proof (cases q)
        case (Inl e')
        with Cons.prems True q g have "r = Inl e' \<and> s' = s1" by (simp add: io_then_apply)
        with e one show ?thesis by simp
      next
        case (Inr sw1)
        with Cons.prems True q g have go: "sweep_releases E S fleet now live gs sw1 s1 = (r, s')" by (simp add: io_then_apply)
        note ih = Cons.IH [OF go]
        have r: "retired live fleet (set (g # gs)) (view s) (view s')"
          by (rule retired_trans [OF one [OF conjunct1 [OF e]] more [OF conjunct1 [OF ih]]])
        have "\<forall>k \<in> held_keys fleet hs. view s' k = None"
        proof
          fix k assume "k \<in> held_keys fleet hs"
          moreover have "\<forall>k \<in> held_keys fleet hs. view s1 k = None" using conjunct2 [OF e] Inr by simp
          ultimately show "view s' k = None" by (auto intro: retired_None [OF conjunct1 [OF ih]])
        qed
        then have clean: "r = Inr sw' \<longrightarrow> swept_all live fleet (set (g # gs)) (view s')" using ih unfolding all by blast
        have "sw_releases_removed sw1 = sw_releases_removed sw @ [R]" using conjunct2 [OF e] Inr by simp
        moreover have "map fst (filter (\<lambda>g. rollout_complete live (snd g)) (g # gs))
          = R # map fst (filter (\<lambda>g. rollout_complete live (snd g)) gs)" using True g by simp
        ultimately show ?thesis using r clean ih by (metis append.assoc append_Cons append_Nil)
      qed
    qed
  qed
  then show "retired live fleet (set gs) (view s) (view s')"
    and "r = Inr sw' \<Longrightarrow> swept_all live fleet (set gs) (view s')"
    and "r = Inr sw' \<Longrightarrow> sw_releases_removed sw' = sw_releases_removed sw
      @ map fst (filter (\<lambda>g. rollout_complete live (snd g)) gs)"
    by blast+
qed

lemma sweep_effect:
  assumes "sweep E S fleet policy s = (r, s')"
    and "live = live_agents (seen_rows (sat_sub_i64 (fst (clock_unix E s)) (u64_as_i64 (sp_seen_window_secs policy))) (tables_of s))"
  shows "view s' = view s \<and> (\<forall>sw. r = Inr sw \<longrightarrow> \<not> sp_cleanup policy \<and> sw = swept_default)
    \<or> sp_cleanup policy \<and> (\<exists>gs. grouped {(a, m). \<exists>T. (a, T) \<in> set fleet \<and> manifest_in E T (view s) a = Some m} gs
      \<and> (\<forall>a T m. (a, T) \<in> set fleet \<longrightarrow> manifest_in E T (view s) a = Some m \<longrightarrow> uuid_ok E (um_release m))
      \<and> retired live fleet (set gs) (view s) (view s')
      \<and> (\<forall>sw. r = Inr sw \<longrightarrow> swept_all live fleet (set gs) (view s')
           \<and> sw_releases_removed sw = map fst (filter (\<lambda>g. rollout_complete live (snd g)) gs)))"
proof (cases "sp_cleanup policy")
  case False
  with assms(1) show ?thesis by (auto simp: sweep_def)
next
  case True
  obtain now s1 where c: "clock_unix E s = (now, s1)" by fastforce
  then have n: "now_unix E s = (Inr now, s1)" by (simp add: now_unix_def)
  have v1: "view s1 = view s" using clock_frame [of s] c by simp
  have t1: "tables_of s1 = tables_of s" using leavesD [OF clock_tables n] .
  let ?cut = "sat_sub_i64 now (u64_as_i64 (sp_seen_window_secs policy))"
  obtain q2 s2 where q2: "seen_since S ?cut s1 = (q2, s2)" by fastforce
  have l: "leaves view (seen_since S ?cut)" unfolding seen_since_def by (intro leaves_intros query_view)
  have v2: "view s2 = view s" using leavesD [OF l q2] v1 by simp
  show ?thesis
  proof (cases q2)
    case (Inl e)
    with assms(1) True n q2 v2 show ?thesis by (auto simp: sweep_def io_then_apply Let_def)
  next
    case (Inr seen)
    have seen: "seen = seen_rows ?cut (tables_of s)"
      using q2 Inr t1 query_InrD by (auto simp: seen_since_def io_then_Inr)
    have live: "live = live_agents seen" using assms(2) c seen by simp
    obtain q3 s3 where q3: "by_release E fleet [] s2 = (q3, s3)" by fastforce
    have v3: "view s3 = view s" using by_release_view [OF q3] v2 by simp
    show ?thesis
    proof (cases q3)
      case (Inl e)
      with assms(1) True n q2 Inr q3 v3 show ?thesis by (auto simp: sweep_def io_then_apply Let_def)
    next
      case (Inr gs)
      have go: "sweep_releases E S fleet now live gs swept_default s3 = (r, s')"
        using assms(1) True n q2 \<open>q2 = Inr seen\<close> q3 Inr live by (simp add: sweep_def io_then_apply Let_def)
      have "grouped {} []" by (simp add: grouped_def)
      note gs = by_release_Inr [OF q3 [unfolded Inr] this]
      note e = sweep_releases_effect [OF go]
      have "sw_releases_removed swept_default = []" by (simp add: swept_default_def)
      with e gs v2 v3 True show ?thesis by (intro disjI2 conjI exI [of _ gs]) auto
    qed
  qed
qed

lemma sweep_spares:
  assumes "distinct (map fst fleet)" and pre: "\<forall>f \<in> set fleet. tp_prefix (snd f) = p"
    and no_slash: "\<forall>u. uuid_ok E u \<longrightarrow> CHR ''/'' \<notin> set u"
    and "sweep E S fleet policy s = (r, s')"
    and "live = live_agents (seen_rows (sat_sub_i64 (fst (clock_unix E s)) (u64_as_i64 (sp_seen_window_secs policy))) (tables_of s))"
    and a: "(a, T) \<in> set fleet" "manifest_in E T (view s) a = Some m" and k: "prefix (release_prefix T (um_release m)) k"
  shows "(waiting E fleet live (view s) (um_release m) \<longrightarrow>
        view s' (update_manifest_key T a) = view s (update_manifest_key T a) \<and> view s' k = view s k)
    \<and> (view s' (update_manifest_key T a) \<noteq> None \<longrightarrow> view s' k = view s k)"
  using sweep_effect [OF assms(4,5)]
proof (elim disjE conjE exE)
  assume "view s' = view s"
  then show ?thesis by simp
next
  fix gs
  let ?held = "{(a, m). \<exists>T. (a, T) \<in> set fleet \<and> manifest_in E T (view s) a = Some m}"
  assume g: "grouped ?held gs" and re: "retired live fleet (set gs) (view s) (view s')"
    and u: "\<forall>a T m. (a, T) \<in> set fleet \<longrightarrow> manifest_in E T (view s) a = Some m \<longrightarrow> uuid_ok E (um_release m)"
  obtain hs where hs: "(um_release m, hs) \<in> set gs" "(a, m) \<in> set hs"
    using g a unfolding grouped_def by blast
  have uniq: "hs' = hs" if "(um_release m, hs') \<in> set gs" for hs'
    using g hs(1) that unfolding grouped_def by (metis map_of_is_SomeI option.inject)
  have held: "(b, m') \<in> ?held \<and> um_release m' = R" if "(R, hs') \<in> set gs" "(b, m') \<in> set hs'" for R hs' b m'
    using g that unfolding grouped_def by blast
  have slash: "CHR ''/'' \<notin> set R" if gs: "(R, hs') \<in> set gs" for R hs'
  proof -
    obtain b m' where "(b, m') \<in> set hs'" using g gs unfolding grouped_def by (metis list.set_intros(1) neq_Nil_conv surj_pair)
    from held [OF gs this] u no_slash show ?thesis by auto
  qed
  have same: "(R, hs') = (um_release m, hs)" if "(R, hs') \<in> set gs" "k \<in> chunk_keys fleet R" for R hs'
  proof -
    have "prefix (release_prefix T R) k" using chunk_keysD [OF pre a(1) that(2)] by simp
    then have "R = um_release m" using release_key_inj [OF slash [OF that(1)] slash [OF hs(1)] refl _ k] by simp
    with uniq that(1) show ?thesis by simp
  qed
  have chunk: "rollout_complete live hs \<and> (\<forall>k' \<in> held_keys fleet hs. view s' k' = None)" if "view s' k \<noteq> view s k"
    using re that same not_held_chunk [OF pre a(1) k] unfolding retired_def by blast
  have mine: "rollout_complete live hs" if changed: "view s' (update_manifest_key T a) \<noteq> view s (update_manifest_key T a)"
  proof -
    obtain R hs' where gs: "(R, hs') \<in> set gs" "rollout_complete live hs'"
      "update_manifest_key T a \<in> held_keys fleet hs' \<or> update_manifest_key T a \<in> chunk_keys fleet R"
      using re [unfolded retired_def, rule_format, of "update_manifest_key T a"] changed by blast
    moreover have "update_manifest_key T a \<notin> chunk_keys fleet R"
      using chunk_keysD [OF pre a(1)] manifest_not_release [OF refl] by blast
    ultimately obtain m' where "(a, m') \<in> set hs'" using held_keys_iff [OF assms(1) pre a(1)] by auto
    from held [OF gs(1) this] obtain T' where "(a, T') \<in> set fleet" "manifest_in E T' (view s) a = Some m'" "um_release m' = R"
      by blast
    moreover have "T' = T" using eq_key_imp_eq_value [OF assms(1)] \<open>(a, T') \<in> set fleet\<close> a(1) by blast
    ultimately have "R = um_release m" using a(2) by simp
    with uniq gs show ?thesis by auto
  qed
  have "update_manifest_key T a \<in> held_keys fleet hs" using held_keys_iff [OF assms(1) pre a(1)] hs(2) by auto
  then have "view s' (update_manifest_key T a) = None" if "view s' k \<noteq> view s k" using chunk [OF that] by auto
  moreover have "rollout_complete live hs \<longleftrightarrow> \<not> waiting E fleet live (view s) (um_release m)"
    by (rule complete_not_waiting [OF g hs(1)])
  ultimately show ?thesis using chunk mine by metis
qed

lemma sweep_removes:
  assumes "distinct (map fst fleet)" and pre: "\<forall>f \<in> set fleet. tp_prefix (snd f) = p"
    and "sweep E S fleet policy s = (Inr sw, s')" and "sp_cleanup policy"
    and "live = live_agents (seen_rows (sat_sub_i64 (fst (clock_unix E s)) (u64_as_i64 (sp_seen_window_secs policy))) (tables_of s))"
  shows "distinct (sw_releases_removed sw)
    \<and> (R \<in> set (sw_releases_removed sw) \<longleftrightarrow>
        (\<exists>a T m. (a, T) \<in> set fleet \<and> manifest_in E T (view s) a = Some m \<and> um_release m = R)
        \<and> \<not> waiting E fleet live (view s) R)
    \<and> (\<forall>(a, T) \<in> set fleet. \<forall>m. manifest_in E T (view s) a = Some m \<and> um_release m \<in> set (sw_releases_removed sw)
         \<longrightarrow> view s' (update_manifest_key T a) = None)"
proof -
  let ?held = "{(a, m). \<exists>T. (a, T) \<in> set fleet \<and> manifest_in E T (view s) a = Some m}"
  obtain gs where g: "grouped ?held gs" and clean: "swept_all live fleet (set gs) (view s')"
    and sw: "sw_releases_removed sw = map fst (filter (\<lambda>g. rollout_complete live (snd g)) gs)"
    using sweep_effect [OF assms(3,5)] assms(4) by auto
  have complete: "rollout_complete live hs \<longleftrightarrow> \<not> waiting E fleet live (view s) R'" if "(R', hs) \<in> set gs" for R' hs
    by (rule complete_not_waiting [OF g that])
  have held: "(\<exists>hs. (R', hs) \<in> set gs) \<longleftrightarrow> (\<exists>a m. (a, m) \<in> ?held \<and> um_release m = R')" for R'
  proof
    assume "\<exists>hs. (R', hs) \<in> set gs"
    then obtain hs where hs: "(R', hs) \<in> set gs" by blast
    with g obtain b m where "(b, m) \<in> set hs" unfolding grouped_def by (metis list.set_intros(1) neq_Nil_conv surj_pair)
    with g hs show "\<exists>a m. (a, m) \<in> ?held \<and> um_release m = R'" unfolding grouped_def by blast
  next
    assume "\<exists>a m. (a, m) \<in> ?held \<and> um_release m = R'"
    with g show "\<exists>hs. (R', hs) \<in> set gs" unfolding grouped_def by blast
  qed
  have removed: "R' \<in> set (sw_releases_removed sw) \<longleftrightarrow> (\<exists>a m. (a, m) \<in> ?held \<and> um_release m = R')
      \<and> \<not> waiting E fleet live (view s) R'" for R'
    unfolding sw held [symmetric] using complete by force
  have "view s' (update_manifest_key T a) = None"
    if a: "(a, T) \<in> set fleet" "manifest_in E T (view s) a = Some m" and m: "um_release m \<in> set (sw_releases_removed sw)" for a T m
  proof -
    obtain hs where hs: "(um_release m, hs) \<in> set gs" "(a, m) \<in> set hs"
      using g a unfolding grouped_def by blast
    have "update_manifest_key T a \<in> held_keys fleet hs" using held_keys_iff [OF assms(1) pre a(1)] hs(2) by auto
    moreover have "rollout_complete live hs" using complete [OF hs(1)] removed m by simp
    ultimately show ?thesis using clean hs(1) unfolding swept_all_def by blast
  qed
  moreover have "distinct (sw_releases_removed sw)"
    using g unfolding sw grouped_def by (auto intro: distinct_map_filter)
  ultimately show ?thesis using removed [of R] by auto
qed

end

section \<open>A small fleet\<close>

interpretation mem_controlling: controlling "mem_env T" mem_view mem_rest mem_sqlite mem_registry for T
  by unfold_locales (simp_all add: leaves_def mem_sqlite_def now_unix_def mem_view_def)

definition alpha_manifest :: update_manifest where
  "alpha_manifest = \<lparr>um_agent_id = ''alpha'', um_version = ''2.0'', um_target = ''linux'', um_release = sample_uuid 3,
     um_chunks = 1, um_total_bytes = 1, um_sha256 = replicate 64 (CHR ''a''), um_release_key_b64 = [], um_published_at = 900\<rparr>"

definition fleet_tables :: tables where
  "fleet_tables = no_tables\<lparr>tb_updates := [alpha_manifest]\<rparr>"

definition sample_fleet :: fleet where
  "sample_fleet = [(''alpha'', sample_transport)]"

definition alpha_seen :: "string \<Rightarrow> seen_agent" where
  "alpha_seen v = \<lparr>sa_id = ''alpha'', sa_last_seen = 990, sa_version = Some v, sa_binary_sha256 = None, sa_platform = None\<rparr>"

definition weekly :: sweep_policy where
  "weekly = \<lparr>sp_seen_window_secs = 604800, sp_cleanup = True\<rparr>"

definition alpha_live :: "string \<Rightarrow> string \<Rightarrow> seen_agent option" where
  "alpha_live v = live_agents (seen_rows (sat_sub_i64 1000 (u64_as_i64 (sp_seen_window_secs weekly)))
     (registry_empty\<lparr>rg_seen := [(''alpha'', alpha_seen v)]\<rparr>))"

lemma alpha_live_eq: "alpha_live v a = (if a = ''alpha'' then Some (alpha_seen v) else None)"
  by (simp add: alpha_live_def weekly_def seen_rows_def alpha_seen_def registry_empty_def live_agents_def
      sat_sub_i64_def u64_as_i64_def clamp_i64_def i64_max_def i64_min_def)

lemma sample_uuid_ok: "toy_uuid_ok (sample_uuid 3)"
  by (simp add: toy_uuid_ok_def sample_uuid_def digit_char_def is_ascii_alphanumeric_def is_ascii_digit_def
      is_ascii_upper_def is_ascii_lower_def in_range_def list_all_iff)

lemma toy_uuid_no_slash: "\<forall>u. uuid_ok (mem_env T) u \<longrightarrow> CHR ''/'' \<notin> set u"
  by (auto simp: toy_uuid_ok_def list_all_iff is_ascii_alphanumeric_def is_ascii_digit_def
      is_ascii_upper_def is_ascii_lower_def in_range_def)

text \<open>The release is published for alpha, its chunk is stored, and alpha last reported version \<open>v\<close>.\<close>

lemma release_world:
  "\<exists>w. quiet w \<and> length (mem_objects w) \<le> 2 \<and> mem_clock w = 1000
     \<and> mem_registry w = registry_empty\<lparr>rg_seen := [(''alpha'', alpha_seen v)]\<rparr>
     \<and> mem_view w (release_chunk_key sample_transport (sample_uuid 3) 0) = Some [1]
     \<and> manifest_in (mem_env fleet_tables) sample_transport (mem_view w) ''alpha'' = Some alpha_manifest"
proof -
  let ?E = "mem_env fleet_tables" and ?P = sample_transport
  let ?k = "update_manifest_key ?P ''alpha''" and ?c = "release_chunk_key ?P (sample_uuid 3) 0"
  let ?w0 = "mem_start\<lparr>mem_registry := registry_empty\<lparr>rg_seen := [(''alpha'', alpha_seen v)]\<rparr>\<rparr>"
  let ?w1 = "stored ?c [1] ?w0"
  let ?w2 = "\<lambda>b. stored ?k b (reseeded ?w1)"
  have q0: "quiet ?w0" by (simp add: quiet_def mem_start_def)
  have q1: "quiet ?w1" using q0 by (simp add: quiet_stored MAX_RELAY_OBJECT_BYTES_def)
  have id: "length (cr_key_id (tp_crypto ?P)) \<le> 1000" by simp
  obtain pt where pt: "to_vec (update_manifest_json ?E) alpha_manifest = Inr pt" "length pt \<le> 1000"
    using table_to_vec [of alpha_manifest "[alpha_manifest]"] by (auto simp: fleet_tables_def)
  obtain b where put: "put_encrypted ?E ?P (update_manifest_json ?E) ?k alpha_manifest ?w1 = (Inr (), stored ?k b (reseeded ?w1))"
    and b: "length b \<le> MAX_RELAY_OBJECT_BYTES"
    using mem_put_encrypted [OF q1 pt id, where k = ?k] by blast
  have "open_sealed ?E (tp_crypto ?P) (update_manifest_json ?E) ?k b = Inr alpha_manifest"
  proof -
    obtain b' where "mem_view (stored ?k b (reseeded ?w1)) = (mem_view ?w1)(?k \<mapsto> b')"
      and "open_sealed ?E (tp_crypto ?P) (update_manifest_json ?E) ?k b' = Inr alpha_manifest"
      using mem.put_encrypted_Inr [OF put mem_crates.update_manifest_ok] by blast
    then show ?thesis by (metis fun_upd_same mem_view_steps(1) option.inject)
  qed
  then have "manifest_in ?E ?P (mem_view (?w2 b)) ''alpha'' = Some alpha_manifest" by (simp add: manifest_in_def)
  moreover have "?c \<noteq> ?k" by (simp add: release_chunk_key_def release_prefix_def update_manifest_key_def)
  then have "mem_view (?w2 b) ?c = Some [1]" by simp
  moreover have "quiet (?w2 b)" using q1 b by (simp add: quiet_stored)
  moreover have "length (mem_objects (?w2 b)) \<le> 2" "mem_registry (?w2 b) = mem_registry ?w0" "mem_clock (?w2 b) = 1000"
    by (simp_all add: stored_def reseeded_def mem_start_def)
  ultimately show ?thesis by (intro exI [of _ "?w2 b"]) simp
qed

lemma mem_sweep_succeeds:
  assumes "quiet w" and "length (mem_objects w) \<le> 2" and "mem_clock w = 1000"
    and "mem_registry w = registry_empty\<lparr>rg_seen := [(''alpha'', alpha_seen ''2.0'')]\<rparr>"
    and "manifest_in (mem_env fleet_tables) sample_transport (mem_view w) ''alpha'' = Some alpha_manifest"
  shows "\<exists>sw w'. sweep (mem_env fleet_tables) mem_sqlite sample_fleet weekly w = (Inr sw, w')"
proof -
  let ?E = "mem_env fleet_tables" and ?P = sample_transport
  let ?k = "update_manifest_key ?P ''alpha''"
  obtain b where b: "mem_view w ?k = Some b"
    and o: "open_sealed ?E (tp_crypto ?P) (update_manifest_json ?E) ?k b = Inr alpha_manifest"
    using assms(5) by (auto simp: manifest_in_def split: option.splits sum.splits bind_splits)
  have "get_encrypted ?E ?P (update_manifest_json ?E) ?k w = (Inr (Some alpha_manifest), w)"
    unfolding get_encrypted_def io_then_apply mem_get_raw [OF assms(1) order_refl] b
    by (simp add: io_simps o del: mem_env_sel)
  then have read: "read_update_manifest ?E ?P ''alpha'' w = (Inr (Some alpha_manifest), w)"
    by (simp add: read_update_manifest_def io_simps Let_def alpha_manifest_def validate_transfer_id_def sample_uuid_ok)
  let ?live = "live_agents (seen_rows (sat_sub_i64 1000 (u64_as_i64 (sp_seen_window_secs weekly))) (mem_registry w))"
  have live: "?live = alpha_live ''2.0''" using assms(4) by (simp add: alpha_live_def)
  have q: "quiet (removed ?k w)" and n: "length (mem_objects (removed ?k w)) \<le> MAX_LISTED_OBJECTS"
    using assms(1) order_trans [OF mem_objects_steps(2) [of ?k w] order_trans [OF assms(2)]]
    by (simp_all add: MAX_LISTED_OBJECTS_def)
  have del: "delete_update_manifest ?E ?P ''alpha'' w = (Inr (), removed ?k w)"
    by (simp add: delete_update_manifest_def io_simps mem_delete_key [OF assms(1)] del: mem_env_sel)
  obtain w2 where rel: "delete_release ?E ?P (sample_uuid 3) (removed ?k w) = (Inr (), w2)"
  proof -
    obtain q2 w2 where d: "delete_each ?E (mem_keys (removed ?k w) (release_prefix ?P (sample_uuid 3))) (removed ?k w) = (q2, w2)"
      by fastforce
    with mem.delete_each_Inr [OF d] show ?thesis
      using that mem_list_keys [OF q n] sample_uuid_ok
      by (auto simp: delete_release_def io_simps validate_transfer_id_def)
  qed
  have complete: "rollout_complete (alpha_live ''2.0'') [(''alpha'', alpha_manifest)]"
    by (simp add: rollout_complete_def alpha_live_eq runs_def alpha_seen_def alpha_manifest_def)
  have rid: "um_release alpha_manifest = sample_uuid 3" by (simp add: alpha_manifest_def)
  have now: "now_unix ?E w = (Inr 1000, w)" using assms(3) by (simp add: now_unix_def)
  have seen: "seen_since mem_sqlite c w = (Inr (seen_rows c (mem_registry w)), w)" for c
    by (simp add: seen_since_def io_simps mem_sqlite_def)
  have clean: "sp_cleanup weekly" by (simp add: weekly_def)
  have groups: "by_release ?E sample_fleet [] w = (Inr [(sample_uuid 3, [(''alpha'', alpha_manifest)])], w)"
    by (simp add: sample_fleet_def io_simps read rid del: mem_env_sel)
  have "complete_rollout mem_sqlite R t w2 = (Inr (), w2\<lparr>mem_registry := set_completed R t (mem_registry w2)\<rparr>)" for R t
    by (simp add: complete_rollout_def mem_sqlite_def)
  then have "\<exists>sw w'. retire ?E mem_sqlite sample_fleet 1000 (sample_uuid 3) [(''alpha'', alpha_manifest)] swept_default w = (Inr sw, w')"
    by (simp add: retire_def io_simps sample_fleet_def del rel with_context_def del: mem_env_sel)
  then obtain sw w' where "retire ?E mem_sqlite sample_fleet 1000 (sample_uuid 3) [(''alpha'', alpha_manifest)] swept_default w = (Inr sw, w')"
    by blast
  then have "sweep ?E mem_sqlite sample_fleet weekly w = (Inr sw, w')"
    by (simp add: sweep_def clean io_simps now seen groups Let_def live complete del: mem_env_sel)
  then show ?thesis by blast
qed

section \<open>Properties\<close>

text \<open>
  C32. A sweep never takes anything from an agent that still needs it, whatever fails on the way:
  while some live holder of a release does not run it yet, every chunk and every manifest of the
  release stays; and a manifest that survives the sweep keeps all the chunks it names.
\<close>

theorem sweep_spares_unfinished_releases:
  assumes "controlling E view rest S tables_of"
    and "distinct (map fst fleet)" and "\<forall>f \<in> set fleet. tp_prefix (snd f) = p"
    and "\<forall>u. uuid_ok E u \<longrightarrow> CHR ''/'' \<notin> set u"
    and "sweep E S fleet policy s = (r, s')"
    and "live = live_agents (seen_rows (sat_sub_i64 (fst (clock_unix E s)) (u64_as_i64 (sp_seen_window_secs policy))) (tables_of s))"
    and "(a, T) \<in> set fleet" and "manifest_in E T (view s) a = Some m" and "prefix (release_prefix T (um_release m)) k"
  shows "(waiting E fleet live (view s) (um_release m) \<longrightarrow>
        view s' (update_manifest_key T a) = view s (update_manifest_key T a) \<and> view s' k = view s k)
    \<and> (view s' (update_manifest_key T a) \<noteq> None \<longrightarrow> view s' k = view s k)"
  by (rule controlling.sweep_spares [OF assms])

theorem sweep_spares_unfinished_releases_witness:
  "\<exists>w r w'. sweep (mem_env fleet_tables) mem_sqlite sample_fleet weekly w = (r, w')
    \<and> mem_view w' (update_manifest_key sample_transport ''alpha'') \<noteq> None
    \<and> mem_view w' (release_chunk_key sample_transport (sample_uuid 3) 0) = Some [1]"
proof -
  let ?E = "mem_env fleet_tables" and ?k = "release_chunk_key sample_transport (sample_uuid 3) 0"
  obtain w where w: "mem_clock w = 1000" "mem_registry w = registry_empty\<lparr>rg_seen := [(''alpha'', alpha_seen ''1.0'')]\<rparr>"
    "mem_view w ?k = Some [1]" and m: "manifest_in ?E sample_transport (mem_view w) ''alpha'' = Some alpha_manifest"
    using release_world [of "''1.0''"] by blast
  obtain r w' where run: "sweep ?E mem_sqlite sample_fleet weekly w = (r, w')" by fastforce
  have live: "alpha_live ''1.0'' = live_agents (seen_rows (sat_sub_i64 (fst (clock_unix ?E w))
      (u64_as_i64 (sp_seen_window_secs weekly))) (mem_registry w))"
    using w by (simp add: alpha_live_def)
  have d: "distinct (map fst sample_fleet)" "\<forall>f \<in> set sample_fleet. tp_prefix (snd f) = ''relay/''"
    "(''alpha'', sample_transport) \<in> set sample_fleet"
    by (simp_all add: sample_fleet_def sample_transport_def)
  have "prefix (release_prefix sample_transport (um_release alpha_manifest)) ?k"
    by (simp add: alpha_manifest_def release_chunk_key_def)
  from sweep_spares_unfinished_releases [OF mem_controlling.controlling_axioms d(1,2) toy_uuid_no_slash run live d(3) m this]
  have "waiting ?E sample_fleet (alpha_live ''1.0'') (mem_view w) (um_release alpha_manifest) \<longrightarrow>
      mem_view w' (update_manifest_key sample_transport ''alpha'') = mem_view w (update_manifest_key sample_transport ''alpha'')
      \<and> mem_view w' ?k = mem_view w ?k" by blast
  moreover have "waiting ?E sample_fleet (alpha_live ''1.0'') (mem_view w) (um_release alpha_manifest)"
    unfolding waiting_def
    by (intro exI [of _ "''alpha''"] exI [of _ sample_transport] exI [of _ alpha_manifest] exI [of _ "alpha_seen ''1.0''"])
      (simp add: d m alpha_live_eq runs_def alpha_seen_def alpha_manifest_def)
  moreover have "mem_view w (update_manifest_key sample_transport ''alpha'') \<noteq> None"
    using m by (cases "mem_view w (update_manifest_key sample_transport ''alpha'')") (simp_all add: manifest_in_def)
  ultimately show ?thesis using run w(3) by (intro exI [of _ w] exI [of _ r] exI [of _ w']) simp
qed



section \<open>The shared area\<close>

lemma share_key_name:
  assumes "validate_share_name n = Inr ()" and "validate_share_name n' = Inr ()"
    and "prefix (share_prefix T n) k" and "prefix (share_prefix T n') k"
  shows "n = n'"
proof -
  obtain x y where "n @ CHR ''/'' # x = n' @ CHR ''/'' # y"
    using assms(3,4) by (auto simp: share_prefix_def prefix_def)
  then have "split_once (CHR ''/'') (n @ CHR ''/'' # x) = split_once (CHR ''/'') (n' @ CHR ''/'' # y)" by simp
  with valid_share_name_no_slash [OF assms(1)] valid_share_name_no_slash [OF assms(2)] show ?thesis by (simp add: split_once_append)
qed

text \<open>The listing has met the manifest of \<open>name\<close>.\<close>

definition noted :: "string \<Rightarrow> (string \<times> bool \<times> int) list \<Rightarrow> bool" where
  "noted name seen \<longleftrightarrow> distinct (map fst seen) \<and> (\<exists>t. map_of seen name = Some (True, t))"

lemma note_object_distinct: "distinct (map fst seen) \<Longrightarrow> distinct (map fst (note_object p obj seen))"
  by (auto simp: note_object_def distinct_update split: prod.splits option.splits)

lemma note_object_keeps: "noted name seen \<Longrightarrow> noted name (note_object p obj seen)"
  by (auto simp: note_object_def noted_def distinct_update update_conv' simp del: map_of_eq_Some_iff
      split: prod.splits option.splits)

lemma note_object_manifest:
  assumes "distinct (map fst seen)" and "validate_share_name name = Inr ()"
  shows "noted name (note_object (tp_prefix T @ ''share/'') (Some (share_manifest_key T name), t) seen)"
proof -
  have "strip_prefix (tp_prefix T @ ''share/'') (share_manifest_key T name) = Some (name @ CHR ''/'' # ''manifest'')"
    by (simp add: share_manifest_key_def share_prefix_def strip_prefix_def)
  then show ?thesis using assms valid_share_name_no_slash [OF assms(2)]
    by (auto simp: note_object_def noted_def distinct_update update_conv' split_once_append
        simp del: map_of_eq_Some_iff split: option.splits)
qed

lemma notes_distinct: "distinct (map fst seen) \<Longrightarrow> distinct (map fst (fold (note_object p) objs seen))"
  by (induction objs arbitrary: seen) (auto simp: note_object_distinct)

lemma notes_keep: "noted name seen \<Longrightarrow> noted name (fold (note_object p) objs seen)"
  by (induction objs arbitrary: seen) (auto simp: note_object_keeps)

lemma notes_manifest:
  assumes "validate_share_name name = Inr ()"
  shows "distinct (map fst seen) \<Longrightarrow> Some (share_manifest_key T name) \<in> fst ` set objs \<Longrightarrow>
    noted name (fold (note_object (tp_prefix T @ ''share/'')) objs seen)"
proof (induction objs arbitrary: seen)
  case (Cons ob objs)
  show ?case
  proof (cases "fst ob = Some (share_manifest_key T name)")
    case True
    then obtain t where "ob = (Some (share_manifest_key T name), t)" by (cases ob) auto
    with note_object_manifest [OF Cons.prems(1) assms] show ?thesis by (simp add: notes_keep)
  next
    case False
    with Cons show ?thesis by (simp add: note_object_distinct)
  qed
qed simp

lemma noted_not_orphan: "noted name seen \<Longrightarrow> name \<notin> set (orphans_of cutoff seen)"
  by (auto simp: noted_def orphans_of_def dest: eq_key_imp_eq_value map_of_SomeD)

context relay
begin

lemma orphan_loop_spec:
  assumes "validate_share_name name = Inr ()"
  shows "length (rest (view s) (tp_prefix T @ ''share/'') t) = n \<Longrightarrow> distinct (map fst seen) \<Longrightarrow>
    \<exists>r s'. orphan_loop E (tp_prefix T @ ''share/'') t seen s = Some (r, s') \<and> view s' = view s
      \<and> (\<forall>out. r = Inr out \<longrightarrow> noted name seen \<or> share_manifest_key T name \<in> set (rest (view s) (tp_prefix T @ ''share/'') t)
           \<longrightarrow> noted name out)"
proof (induction n arbitrary: s t seen rule: less_induct)
  case (less n)
  let ?p = "tp_prefix T @ ''share/''"
  obtain q s1 where q: "list_objects_v2 E ?p t s = (q, s1)" by fastforce
  have v1: "view s1 = view s" using list_frame [of ?p t s] q by simp
  show ?case
  proof (cases q)
    case (Inl e)
    with q v1 show ?thesis by (simp add: orphan_loop.simps io_context_apply with_context_def)
  next
    case (Inr pg)
    obtain ks where ks: "map fst (lp_contents pg) = map Some ks"
      "if lp_is_truncated pg = Some True
       then ks \<noteq> [] \<and> (\<exists>t'. lp_next_token pg = Some t' \<and> rest (view s) ?p t = ks @ rest (view s) ?p (Some t'))
       else rest (view s) ?p t = ks"
      using list_page q Inr by blast
    have fsts: "fst ` set (lp_contents pg) = Some ` set ks" using ks(1) by (metis list.set_map)
    let ?seen = "fold (note_object ?p) (lp_contents pg) seen"
    have d: "distinct (map fst ?seen)" by (rule notes_distinct [OF less.prems(2)])
    have met: "noted name ?seen" if "noted name seen \<or> share_manifest_key T name \<in> set ks"
      using that notes_keep notes_manifest [OF assms less.prems(2), of T "lp_contents pg"] fsts by auto
    show ?thesis
    proof (cases "lp_is_truncated pg = Some True")
      case False
      with q Inr v1 ks(2) met show ?thesis by (simp add: orphan_loop.simps io_context_apply with_context_def Let_def)
    next
      case True
      then obtain t' where t': "lp_next_token pg = Some t'" "rest (view s) ?p t = ks @ rest (view s) ?p (Some t')" and "ks \<noteq> []"
        using ks(2) by auto
      then have "length (rest (view s1) ?p (Some t')) < n" using less.prems(1) v1 by auto
      from less.IH [OF this refl d] obtain r s' where
        "orphan_loop E ?p (Some t') ?seen s1 = Some (r, s')" "view s' = view s1"
        "\<forall>out. r = Inr out \<longrightarrow> noted name ?seen \<or> share_manifest_key T name \<in> set (rest (view s1) ?p (Some t')) \<longrightarrow> noted name out"
        by blast
      with q Inr True t' v1 met show ?thesis
        by (auto simp: orphan_loop.simps [of E ?p t] io_context_apply with_context_def Let_def)
    qed
  qed
qed

lemma read_share_manifest_view:
  assumes "read_share_manifest E T n cr s = (r, s')"
  shows "view s' = view s"
proof -
  have "leaves view (get_raw E k l)" for k l
    unfolding leaves_def by (rule allI, rule get_raw_view, rule prod.collapse [symmetric])
  then have "leaves view (read_share_manifest E T n cr)"
    unfolding read_share_manifest_def Let_def by (intro leaves_intros)
  from leavesD [OF this assms] show ?thesis .
qed

lemma read_share_manifest_Inr:
  assumes "read_share_manifest E T n cr s = (Inr (Some m), s')" and "view s (share_manifest_key T n) = Some b"
  shows "open_sealed E cr (share_manifest_json E) (share_manifest_key T n) b = Inr m"
proof -
  let ?rest = "\<lambda>raw. io_then (io_lift (open_sealed E cr (share_manifest_json E) (share_manifest_key T n) raw)) (\<lambda>m.
     io_then (io_lift (ensure (sm_name m = n) (''share manifest at '' @ share_manifest_key T n @ '' names a different file''))) (\<lambda>_.
     io_ok (Some m)))"
  have "io_then (io_lift (validate_share_name n)) (\<lambda>_. io_then (get_raw E (share_manifest_key T n) MAX_RELAY_OBJECT_BYTES)
      (\<lambda>r. case r of None \<Rightarrow> io_ok None | Some raw \<Rightarrow> ?rest raw)) s = (Inr (Some m), s')"
    using assms(1) by (simp only: read_share_manifest_def Let_def)
  then obtain q s1 where q: "get_raw E (share_manifest_key T n) MAX_RELAY_OBJECT_BYTES s = (Inr q, s1)"
    and go: "(case q of None \<Rightarrow> io_ok None | Some raw \<Rightarrow> ?rest raw) s1 = (Inr (Some m), s')"
    unfolding io_then_Inr io_lift_def prod.inject by blast
  from get_raw_Inr [OF q] assms(2) have "q = Some b" by simp
  with go show ?thesis by (auto simp: io_then_Inr)
qed

lemma delete_share_effect:
  assumes "delete_share E T n s = (r, s')"
  shows "shrunk {k. prefix (share_prefix T n) k \<and> validate_share_name n = Inr ()} (view s) (view s')"
proof (cases "validate_share_name n")
  case (Inl e)
  with assms have "s' = s" by (auto simp: delete_share_def io_then_lift)
  then show ?thesis by simp
next
  case (Inr u)
  let ?D = "{k. prefix (share_prefix T n) k \<and> validate_share_name n = Inr ()}"
  obtain q1 s1 where q1: "delete_key E (share_manifest_key T n) s = (q1, s1)" by fastforce
  have d1: "shrunk ?D (view s) (view s1)"
    using delete_key_shrunk [OF q1] Inr by (auto simp: share_manifest_key_def intro: shrunk_mono)
  obtain q2 s2 where q2: "list_keys E (share_prefix T n) s1 = (q2, s2)" by fastforce
  have v2: "view s2 = view s1" using q2 unfolding list_keys_def by (rule list_loop_view)
  have go: "(case q2 of Inl e \<Rightarrow> (Inl e, s2) | Inr keys \<Rightarrow> delete_each E keys s2) = (r, s')"
    using assms Inr q1 q2 by (simp add: delete_share_def io_simps)
  show ?thesis
  proof (cases q2)
    case (Inl e)
    with go d1 v2 show ?thesis by simp
  next
    case (Inr keys)
    then have del: "delete_each E keys s2 = (r, s')" using go by simp
    have "shrunk (set keys) (view s1) (view s')" using delete_each_view [OF del] v2 by (fastforce simp: shrunk_def)
    moreover have "set keys \<subseteq> ?D"
      using list_keys_Inr(1) [OF q2 [unfolded Inr]] list_first \<open>validate_share_name n = Inr u\<close> by auto
    ultimately show ?thesis using shrunk_trans [OF d1] shrunk_mono by blast
  qed
qed

lemma delete_share_other:
  assumes "delete_share E T n s = (r, s')" and "n \<noteq> name" and "validate_share_name name = Inr ()"
    and "prefix (share_prefix T name) k"
  shows "view s' k = view s k"
  using delete_share_effect [OF assms(1)] share_key_name [OF _ assms(3) _ assms(4)] assms(2) unfolding shrunk_def by blast

text \<open>A manifest that is there and does not say that the share has expired.\<close>

definition unexpired :: "transport \<Rightarrow> crypto \<Rightarrow> int \<Rightarrow> string \<Rightarrow> 's \<Rightarrow> bool" where
  "unexpired T cr now name s \<longleftrightarrow> (\<exists>b. view s (share_manifest_key T name) = Some b
     \<and> (\<forall>m. open_sealed E cr (share_manifest_json E) (share_manifest_key T name) b = Inr m
          \<longrightarrow> \<not> (sm_expires_at m > 0 \<and> sm_expires_at m \<le> now)))"

lemma sweep_expired_spares:
  assumes "validate_share_name name = Inr ()"
  shows "sweep_expired E T cr now names acc s = (r, s') \<Longrightarrow> unexpired T cr now name s \<Longrightarrow>
    \<forall>k. prefix (share_prefix T name) k \<longrightarrow> view s' k = view s k"
proof (induction names arbitrary: acc s)
  case (Cons n names)
  obtain q s1 where q: "read_share_manifest E T n cr s = (q, s1)" by fastforce
  have v1: "view s1 = view s" by (rule read_share_manifest_view [OF q])
  let ?old = "case q of Inr (Some m) \<Rightarrow> sm_expires_at m > 0 \<and> sm_expires_at m \<le> now | _ \<Rightarrow> False"
  show ?case
  proof (cases ?old)
    case False
    with Cons.prems(1) q have "sweep_expired E T cr now names acc s1 = (r, s')"
      by (simp add: io_then_apply io_attempt_apply del: not_None_eq)
    from Cons.IH [OF this] Cons.prems(2) v1 show ?thesis by (simp add: unexpired_def)
  next
    case True
    then obtain m where m: "q = Inr (Some m)" "sm_expires_at m > 0 \<and> sm_expires_at m \<le> now"
      by (auto split: sum.splits option.splits)
    have other: "n \<noteq> name"
    proof
      assume "n = name"
      with Cons.prems(2) read_share_manifest_Inr [OF q [unfolded m(1)]] m(2) show False unfolding unexpired_def by metis
    qed
    obtain q2 s2 where q2: "delete_share E T n s1 = (q2, s2)" by fastforce
    have v2: "view s2 k = view s k" if "prefix (share_prefix T name) k" for k
      using delete_share_other [OF q2 other assms that] v1 by simp
    show ?thesis
    proof (cases q2)
      case (Inl e)
      with Cons.prems(1) q m q2 v2 show ?thesis by (auto simp: io_simps with_context_def)
    next
      case (Inr u)
      with Cons.prems(1) q m q2 have go: "sweep_expired E T cr now names (acc @ [n]) s2 = (r, s')"
        by (simp add: io_simps with_context_def)
      have "unexpired T cr now name s2" using Cons.prems(2) v2 by (simp add: unexpired_def share_manifest_key_def)
      from Cons.IH [OF go this] v2 show ?thesis by simp
    qed
  qed
qed simp

lemma sweep_orphans_spares:
  assumes "validate_share_name name = Inr ()" and "prefix (share_prefix T name) k"
  shows "sweep_orphans E T names acc s = (r, s') \<Longrightarrow> name \<notin> set names \<Longrightarrow> view s' k = view s k"
proof (induction names arbitrary: acc s)
  case (Cons n names)
  obtain q s1 where q: "delete_share E T n s = (q, s1)" by fastforce
  have "n \<noteq> name" using Cons.prems(2) by auto
  from delete_share_other [OF q this assms] Cons q show ?case by (cases q) (auto simp: io_simps with_context_def)
qed simp

lemma sweep_shares_spares:
  assumes "validate_share_name name = Inr ()" and "prefix (share_prefix T name) k"
    and "unexpired T cr (fst (clock_unix E s)) name s"
  shows "\<exists>r s'. sweep_shares E T cr s = Some (r, s') \<and> view s' k = view s k"
proof -
  obtain now s1 where c: "clock_unix E s = (now, s1)" by fastforce
  have v1: "view s1 = view s" using clock_frame [of s] c by simp
  let ?first = "io_then (now_unix E) (\<lambda>now. io_then (list_shares E T) (\<lambda>names. sweep_expired E T cr now names []))"
  obtain q3 s3 where q3: "?first s = (q3, s3)" by fastforce
  have v3: "\<forall>k. prefix (share_prefix T name) k \<longrightarrow> view s3 k = view s k"
  proof -
    obtain q2 s2 where q2: "list_shares E T s1 = (q2, s2)" by fastforce
    have v2: "view s2 = view s"
    proof -
      have "leaves view (list_keys E p)" for p
        unfolding leaves_def list_keys_def by (rule allI, rule list_loop_view, rule prod.collapse [symmetric])
      then have "leaves view (list_shares E T)" unfolding list_shares_def Let_def by (intro leaves_intros)
      from leavesD [OF this q2] v1 show ?thesis by simp
    qed
    show ?thesis
    proof (cases q2)
      case (Inl e)
      with q3 q2 c v2 show ?thesis by (simp add: io_then_apply now_unix_def)
    next
      case (Inr names)
      with q3 q2 c have "sweep_expired E T cr now names [] s2 = (q3, s3)" by (simp add: io_then_apply now_unix_def)
      from sweep_expired_spares [OF assms(1) this] assms(3) c v2 show ?thesis by (simp add: unexpired_def)
    qed
  qed
  show ?thesis
  proof (cases q3)
    case (Inl e)
    with q3 v3 assms(2) show ?thesis by (simp add: sweep_shares_def)
  next
    case (Inr expired)
    obtain now2 s4 where c4: "clock_unix E s3 = (now2, s4)" by fastforce
    have v4: "view s4 = view s3" using clock_frame [of s3] c4 by simp
    obtain b where "view s4 (share_manifest_key T name) = Some b"
      using assms(3) v3 v4 by (auto simp: unexpired_def share_manifest_key_def)
    then have listed: "share_manifest_key T name \<in> set (rest (view s4) (tp_prefix T @ ''share/'') None)"
      by (auto simp: list_first share_manifest_key_def share_prefix_def)
    obtain r5 s5 where loop: "orphan_loop E (tp_prefix T @ ''share/'') None [] s4 = Some (r5, s5)" and v5: "view s5 = view s4"
      and met: "\<And>out. r5 = Inr out \<Longrightarrow> noted name out"
      using orphan_loop_spec [OF assms(1), of s4 T None _ "[]"] listed by auto
    show ?thesis
    proof (cases r5)
      case (Inl e)
      with q3 Inr c4 loop v5 v4 v3 assms(2) show ?thesis
        by (simp add: sweep_shares_def list_share_orphans_def Let_def)
    next
      case (Inr seen)
      let ?names = "orphans_of (sat_sub_i64 now2 (u64_as_i64 ORPHAN_GRACE_SECS)) seen"
      obtain r6 s6 where six: "io_then (sweep_orphans E T ?names []) (\<lambda>orphaned. io_ok (expired, orphaned)) s5 = (r6, s6)" by fastforce
      obtain q7 s7 where q7: "sweep_orphans E T ?names [] s5 = (q7, s7)" by fastforce
      have "view s7 k = view s5 k"
        by (rule sweep_orphans_spares [OF assms(1,2) q7 noted_not_orphan [OF met [OF Inr]]])
      moreover have "s6 = s7" using six q7 by (cases q7) (simp_all add: io_then_apply io_ok_apply)
      ultimately show ?thesis
        using q3 \<open>q3 = Inr expired\<close> c4 loop Inr six v5 v4 v3 assms(2)
        by (simp add: sweep_shares_def list_share_orphans_def Let_def)
    qed
  qed
qed

end

text \<open>
  C34. The cleaning of the shared area returns, and leaves a file alone until it has expired: while
  the manifest stands and does not name a moment that has passed (or cannot be read with this
  key), no object of the file is removed, neither as expired nor as the rest of a dead upload.
\<close>

theorem shared_files_live_until_expiry:
  assumes "relay E view rest"
    and "validate_share_name name = Inr ()" and "prefix (share_prefix T name) k"
    and "view s (share_manifest_key T name) = Some b"
    and "\<forall>m. open_sealed E cr (share_manifest_json E) (share_manifest_key T name) b = Inr m
      \<longrightarrow> sm_expires_at m \<le> 0 \<or> fst (clock_unix E s) < sm_expires_at m"
  shows "\<exists>r s'. sweep_shares E T cr s = Some (r, s') \<and> view s' k = view s k"
proof -
  have "relay.unexpired E view T cr (fst (clock_unix E s)) name s"
    unfolding relay.unexpired_def [OF assms(1)] using assms(4,5) by (metis not_less not_le)
  from relay.sweep_shares_spares [OF assms(1-3) this] show ?thesis .
qed

definition shared_file :: share_manifest where
  "shared_file = \<lparr>sm_name = ''a'', sm_chunks = 1, sm_total_bytes = 1, sm_sha256 = [],
     sm_source_agent = ''alpha'', sm_created_at = 900, sm_expires_at = 2000\<rparr>"

theorem shared_files_live_until_expiry_witness:
  "\<exists>T w r w'. sweep_shares (mem_env T) sample_transport (tp_crypto sample_transport) w = Some (r, w')
    \<and> mem_view w' (share_manifest_key sample_transport ''a'') \<noteq> None"
proof -
  let ?T = "no_tables\<lparr>tb_shares := [shared_file]\<rparr>"
  let ?E = "mem_env ?T" and ?k = "share_manifest_key sample_transport ''a''" and ?cr = "tp_crypto sample_transport"
  obtain pt where pt: "to_vec (share_manifest_json ?E) shared_file = Inr pt"
    using table_to_vec [of shared_file "[shared_file]"] by auto
  obtain b where b: "seal ?E ?cr (share_manifest_json ?E) ?k shared_file mem_start = (Inr b, reseeded mem_start)"
    using mem_seal [OF pt] by blast
  have o: "open_sealed ?E ?cr (share_manifest_json ?E) ?k b = Inr shared_file"
    by (rule mem_crates.seal_open [OF b mem_crates.share_manifest_ok])
  let ?w = "stored ?k b mem_start"
  have "\<not> contains_str ''a'' ''..''" by (auto dest: sublist_length_le)
  then have v: "validate_share_name ''a'' = Inr ()"
    by (simp add: validate_share_name_iff share_name_char_def is_ascii_alphanumeric_def is_ascii_digit_def
        is_ascii_upper_def is_ascii_lower_def in_range_def)
  have p: "prefix (share_prefix sample_transport ''a'') ?k" by (simp add: share_manifest_key_def)
  have here: "mem_view ?w ?k = Some b" by simp
  have "\<forall>m. open_sealed ?E ?cr (share_manifest_json ?E) ?k b = Inr m
      \<longrightarrow> sm_expires_at m \<le> 0 \<or> fst (clock_unix ?E ?w) < sm_expires_at m"
    using o by (simp add: shared_file_def)
  from shared_files_live_until_expiry [OF mem.relay_axioms v p here this]
  show ?thesis using here by fastforce
qed

end
