(* ===== verification/Offering.thy ===== *)
theory Offering
  imports Publishing Retention Update Relaying
begin

text \<open>
  What publishing a build comes to: a release that is offered is complete and recorded, what is
  known is not published again, and what a release that was superseded leaves behind.
\<close>

section \<open>Offering a release\<close>

text \<open>The bucket offers the release to the agent, sealed for it.\<close>

definition offered :: "'s env \<Rightarrow> controller \<Rightarrow> update_manifest \<Rightarrow> (string \<Rightarrow> bytes option) \<Rightarrow> string \<Rightarrow> bool" where
  "offered E C m objs a \<longleftrightarrow> (case transport_for C a of Inl _ \<Rightarrow> False
     | Inr T \<Rightarrow> manifest_in E T objs a = Some (m\<lparr>um_agent_id := a\<rparr>))"

lemma transport_in: "transport_for C a = Inr T \<Longrightarrow> (a, T) \<in> set (ct_transports C)"
  by (auto simp: transport_for_def ok_or_def res_then_Inr_iff split: option.splits dest: map_of_SomeD)

lemma transport_keys:
  assumes "\<forall>f \<in> set (ct_transports C). tp_prefix (snd f) = p"
    and "transport_for C a = Inr T" and "transport_for C b = Inr T'"
  shows "update_manifest_key T a = update_manifest_key T' b \<longleftrightarrow> a = b"
proof -
  have "tp_prefix T = tp_prefix T'" using bspec [OF assms(1) transport_in [OF assms(2)]] bspec [OF assms(1) transport_in [OF assms(3)]] by simp
  then show ?thesis by (rule manifest_key_inj)
qed

lemma offered_cong:
  assumes "\<And>T. transport_for C a = Inr T \<Longrightarrow> v' (update_manifest_key T a) = v (update_manifest_key T a)"
  shows "offered E C m v' a = offered E C m v a"
  using assms by (auto simp: offered_def manifest_in_def split: sum.splits)

text \<open>Every row of the answer that says published is true.\<close>

definition rows_true :: "'s env \<Rightarrow> controller \<Rightarrow> update_manifest \<Rightarrow> (string \<Rightarrow> bytes option) \<Rightarrow> string list \<Rightarrow> json_value list \<Rightarrow> bool" where
  "rows_true E C m objs ids rows \<longleftrightarrow> (\<forall>row \<in> set rows. \<exists>a hb outcome. a \<in> set ids
     \<and> row = offer_row (um_target m) a hb outcome \<and> (is_ok outcome \<longrightarrow> offered E C m objs a))"

context relay
begin

lemma read_heartbeat_view: "read_heartbeat E T a s = (r, s') \<Longrightarrow> view s' = view s"
  by (auto simp: read_heartbeat_def Let_def io_then_def io_lift_def io_ok_def
      split: prod.splits sum.splits option.splits if_splits dest!: get_encrypted_view now_view)

lemma put_update_manifest_effect:
  assumes "put_update_manifest E T m s = (r, s')"
  shows "(\<forall>k. k \<noteq> update_manifest_key T (um_agent_id m) \<longrightarrow> view s' k = view s k)
    \<and> (is_ok r \<longrightarrow> manifest_in E T (view s') (um_agent_id m) = Some m)"
proof (cases "validate_agent_id (um_agent_id m)")
  case (Inl e)
  with assms have "s' = s" "r = Inl e" by (simp_all add: put_update_manifest_def io_then_lift)
  then show ?thesis by simp
next
  case (Inr u)
  note id = this
  show ?thesis
  proof (cases "validate_transfer_id (uuid_ok E) (um_release m)")
    case (Inl e)
    with assms id have "s' = s" "r = Inl e" by (simp_all add: put_update_manifest_def io_then_lift)
    then show ?thesis by simp
  next
    case (Inr u')
    with id have put: "put_encrypted E T (update_manifest_json E) (update_manifest_key T (um_agent_id m)) m s = (r, s')"
      using assms by (simp add: put_update_manifest_def io_then_lift)
    from put_encrypted_view [OF put] have "\<forall>k. k \<noteq> update_manifest_key T (um_agent_id m) \<longrightarrow> view s' k = view s k" by auto
    moreover have "manifest_in E T (view s') (um_agent_id m) = Some m" if ok: "is_ok r"
    proof -
      obtain v where "r = Inr v" using ok by (auto simp: is_ok_iff)
      with put_encrypted_Inr [OF put [unfolded this] update_manifest_ok] show ?thesis by (auto simp: manifest_in_def)
    qed
    ultimately show ?thesis by blast
  qed
qed

lemma offer_all_effect:
  assumes pre: "\<forall>f \<in> set (ct_transports C). tp_prefix (snd f) = p"
    and "offer_all E C m ids rows n s = (Inr (rows', n'), s')" and "distinct (past @ ids)"
    and "rows_true E C m (view s) past rows" and "n \<noteq> 0 \<longrightarrow> (\<exists>a \<in> set past. offered E C m (view s) a)"
  shows "(\<forall>k. (\<forall>a \<in> set ids. \<forall>T. transport_for C a = Inr T \<longrightarrow> k \<noteq> update_manifest_key T a) \<longrightarrow> view s' k = view s k)
    \<and> rows_true E C m (view s') (past @ ids) rows'
    \<and> (n' \<noteq> 0 \<longrightarrow> (\<exists>a \<in> set (past @ ids). offered E C m (view s') a))"
  using assms(2-)
proof (induction ids arbitrary: past rows n s)
  case Nil
  then show ?case by (simp add: io_ok_def)
next
  case (Cons a ids)
  let ?m = "m\<lparr>um_agent_id := a\<rparr>"
  obtain T where T: "transport_for C a = Inr T"
    using Cons.prems(1) by (cases "transport_for C a") (auto simp: io_then_apply io_lift_apply)
  obtain hb s1 where hb: "read_heartbeat E T a s = (hb, s1)" by fastforce
  obtain outcome s2 where out: "put_update_manifest E T ?m s1 = (outcome, s2)" by fastforce
  let ?rows = "rows @ [offer_row (um_target m) a (ok_flatten hb) outcome]"
  let ?n = "if is_ok outcome then Suc n else n"
  have go: "offer_all E C m ids ?rows ?n s2 = (Inr (rows', n'), s')"
    using Cons.prems(1) T hb out by (simp add: io_then_apply io_lift_apply io_attempt_apply)
  have v1: "view s1 = view s" by (rule read_heartbeat_view [OF hb])
  have frame: "view s2 k = view s k" if "k \<noteq> update_manifest_key T a" for k
    using put_update_manifest_effect [OF out] that v1 by simp
  have mine: "offered E C m (view s2) a" if "is_ok outcome"
    using put_update_manifest_effect [OF out] that T by (simp add: offered_def)
  have past: "offered E C m (view s2) b = offered E C m (view s) b" if "b \<in> set past" for b
  proof (rule offered_cong)
    fix T' assume "transport_for C b = Inr T'"
    moreover have "b \<noteq> a" using Cons.prems(2) that by auto
    ultimately show "view s2 (update_manifest_key T' b) = view s (update_manifest_key T' b)"
      using frame transport_keys [OF pre _ T, of b T'] by simp
  qed
  have rows: "rows_true E C m (view s2) (past @ [a]) ?rows"
    using Cons.prems(3) mine past unfolding rows_true_def by (fastforce simp: is_ok_iff)
  have some: "?n \<noteq> 0 \<longrightarrow> (\<exists>b \<in> set (past @ [a]). offered E C m (view s2) b)"
    using Cons.prems(4) mine past by auto
  have "distinct ((past @ [a]) @ ids)" using Cons.prems(2) by simp
  from Cons.IH [OF go this rows some] frame T show ?case by auto
qed

end

section \<open>A published release\<close>

lemma chunk_key_prefix: "prefix (release_prefix T r) (release_chunk_key T r i)"
  unfolding release_chunk_key_def by (rule prefixI, rule refl)

lemma sorted_remdups_adj_distinct: "sorted xs \<Longrightarrow> distinct (remdups_adj xs)" for xs :: "'a :: linorder list"
  by (induction xs rule: remdups_adj.induct) fastforce+

lemma targets_distinct: "targets C requested = Inr ids \<Longrightarrow> distinct ids"
  by (auto simp: targets_def Let_def res_then_Inr_iff split: option.splits intro: sorted_remdups_adj_distinct)

lemma prepare_release_Inr:
  assumes "prepare_release E H W C source requested target s = (Inr (t, ids, release, key, cr, staging), s')"
  shows "targets C requested = Inr ids \<and> from_base64 E key ''release'' = Inr cr
    \<and> (\<exists>a rest. ct_transports C = (a, staging) # rest)"
  using assms unfolding prepare_release_def
  by (auto simp: io_then_Inr ok_or_def split: list.splits option.splits prod.splits)

lemma publish_Inr:
  assumes "publish E H S W C local_path requested target version s = (Inr v, s')"
  obtains t ids release key cr staging s1 chunks total sha s2 now s3 where
    "prepare_release E H W C (PathBuf local_path) requested target s = (Inr (t, ids, release, key, cr, staging), s1)"
    and "stage_release E H (ws_concurrency W) staging release cr (PathBuf local_path) s1 = (Inr (chunks, total, sha), s2)"
    and "now_unix E s2 = (Inr now, s3)"
    and "offer_release E S C staging ids \<lparr>um_agent_id = [], um_version = (case version of None \<Rightarrow> ws_version W | Some v \<Rightarrow> v),
      um_target = t, um_release = release, um_chunks = chunks, um_total_bytes = total, um_sha256 = sha,
      um_release_key_b64 = key, um_published_at = now\<rparr> s3 = (Inr v, s')"
  using assms unfolding publish_def Let_def
  by (auto simp: io_then_Inr io_attempt_Inr io_lift_eq split_sum_ex intro: that)

lemma offer_release_Inr:
  assumes "offer_release E S C staging ids m s = (Inr v, s')"
  obtains rows n s1 ro where "offer_all E C m ids [] 0 s = (Inr (rows, n), s1)" and "n \<noteq> 0"
    and "record_rollout S ro s1 = (Inr (), s')" and "ro_version ro = um_version m" and "ro_target ro = um_target m"
    and "\<exists>fields. v = J_object (fields @ [(''agents'', J_list rows)])"
proof -
  from assms obtain x s1 where all: "offer_all E C m ids [] 0 s = (Inr x, s1)"
    and go: "(case x of (rows, delivered) \<Rightarrow> if delivered = 0 then
       io_then (io_ignore (delete_release E staging (um_release m))) (\<lambda>_.
       io_lift (bail ''no agent could be given the update; the release was removed''))
     else
       io_then (record_rollout S \<lparr>ro_release = um_release m, ro_version = um_version m, ro_target = um_target m,
         ro_sha256 = um_sha256 m, ro_published_at = um_published_at m\<rparr>) (\<lambda>_.
       io_ok (J_object [(''release'', J_string (um_release m)), (''version'', J_string (um_version m)),
         (''target'', J_string (um_target m)), (''sha256'', J_string (um_sha256 m)),
         (''bytes'', J_int (uint (um_total_bytes m))), (''chunks'', J_int (uint (um_chunks m))),
         (''published_at'', J_int (um_published_at m)), (''agents'', J_list rows)]))) s1 = (Inr v, s')"
    unfolding offer_release_def by (rule io_then_InrE)
  obtain rows n where x: "x = (rows, n)" by (cases x)
  have "n \<noteq> 0" by (rule notI) (use go x in \<open>simp add: io_then_Inr\<close>)
  with go x obtain u where rec: "record_rollout S \<lparr>ro_release = um_release m, ro_version = um_version m, ro_target = um_target m,
      ro_sha256 = um_sha256 m, ro_published_at = um_published_at m\<rparr> s1 = (Inr u, s')"
    and v: "v = J_object ([(''release'', J_string (um_release m)), (''version'', J_string (um_version m)),
         (''target'', J_string (um_target m)), (''sha256'', J_string (um_sha256 m)),
         (''bytes'', J_int (uint (um_total_bytes m))), (''chunks'', J_int (uint (um_chunks m))),
         (''published_at'', J_int (um_published_at m))] @ [(''agents'', J_list rows)])"
    by (auto simp: io_then_Inr io_ok_def)
  show thesis by (rule that [OF all [unfolded x] \<open>n \<noteq> 0\<close> rec [unfolded unit_eq [of u]] _ _ exI, OF _ _ v]) simp_all
qed

lemma record_rollout_published:
  assumes "database S tables_of" and "record_rollout S ro s = (Inr u, s')"
  shows "published_in (ro_version ro) (ro_target ro) (tables_of s')"
  using database.execute_ok [OF assms(1) assms(2) [unfolded record_rollout_def]] published_recorded by simp

context machine
begin

lemma stage_release_Inr:
  assumes "stage_release E H concurrency T release cr source s = (Inr (chunks, bytes_sent, sha), s')"
  shows "\<exists>ds content. files s source = Some content \<and> concat ds = content \<and> length ds = unat chunks
    \<and> sha = hex (sha256 E content)
    \<and> (\<forall>i. unat i < unat chunks \<longrightarrow> sealed_chunks E cr (release_chunk_key T release) (view s') i = Some (ds ! unat i))"
proof -
  have "0 < BLOB_CHUNK_BYTES" "BLOB_CHUNK_BYTES < 2 ^ 64" by (simp_all add: BLOB_CHUNK_BYTES_def)
  from release.upload_chunks_Inr [OF assms [unfolded stage_release_def] this] show ?thesis by blast
qed

lemma prepare_release_files:
  assumes "leaves files (ws_metadata W source)"
  shows "leaves files (prepare_release E H W C source requested platform)"
proof -
  have "leaves files (file_open H source)" using open_frame by (auto simp: leaves_def) (metis prod.collapse)
  moreover have "leaves files (file_read H h n)" for h n using read_frame by (auto simp: leaves_def) (metis prod.collapse)
  moreover have "leaves files (uuid_v4 E)" "leaves files (random E n)" for n
    using leaves_part [OF uuid_local, of fst] leaves_part [OF random_local, of fst] by simp_all
  ultimately show ?thesis
    unfolding prepare_release_def detect_target_def new_transfer_id_def new_release_key_def
    by (intro leaves_intros assms)
qed

end

section \<open>Properties\<close>

text \<open>
  C36. A published release is complete: when publishing succeeds, every chunk of the build is in
  the bucket, sealed with the release key at the place where each agent looks for it, the chunks
  are the file that was named and the manifest carries its SHA-256; at least one agent is offered
  this manifest, sealed for it, and so is every agent that the answer calls published; and the
  release is recorded, so that the check for new releases knows it.
\<close>

theorem published_release_is_complete:
  assumes "machine E view rest H files unread target" and "controlling E view rest S tables_of"
    and "\<forall>f \<in> set (ct_transports C). tp_prefix (snd f) = p"
    and "leaves files (ws_metadata W (PathBuf local_path))"
    and "publish E H S W C local_path requested platform version s = (Inr v, s')"
  shows "\<exists>m cr ds content ids rows. files s (PathBuf local_path) = Some content \<and> concat ds = content
    \<and> length ds = unat (um_chunks m) \<and> um_sha256 m = hex (sha256 E content)
    \<and> from_base64 E (um_release_key_b64 m) ''release'' = Inr cr
    \<and> (\<forall>(a, T) \<in> set (ct_transports C). \<forall>i. unat i < unat (um_chunks m) \<longrightarrow>
        sealed_chunks E cr (release_chunk_key T (um_release m)) (view s') i = Some (ds ! unat i))
    \<and> targets C requested = Inr ids \<and> (\<exists>a \<in> set ids. offered E C m (view s') a)
    \<and> (\<exists>fields. v = J_object (fields @ [(''agents'', J_list rows)])) \<and> rows_true E C m (view s') ids rows
    \<and> published_in (um_version m) (um_target m) (tables_of s')"
proof -
  have r: "relay E view rest" using assms(1) by (simp add: machine_def)
  from assms(5) show ?thesis
  proof (rule publish_Inr)
    fix t ids release key cr staging s1 chunks total sha s2 now s3
    let ?m = "\<lparr>um_agent_id = [], um_version = (case version of None \<Rightarrow> ws_version W | Some v \<Rightarrow> v), um_target = t,
      um_release = release, um_chunks = chunks, um_total_bytes = total, um_sha256 = sha, um_release_key_b64 = key,
      um_published_at = now\<rparr>"
    assume prep: "prepare_release E H W C (PathBuf local_path) requested platform s
        = (Inr (t, ids, release, key, cr, staging), s1)"
      and stage: "stage_release E H (ws_concurrency W) staging release cr (PathBuf local_path) s1 = (Inr (chunks, total, sha), s2)"
      and now: "now_unix E s2 = (Inr now, s3)"
      and offer: "offer_release E S C staging ids ?m s3 = (Inr v, s')"
    have files: "files s1 = files s"
      by (rule leavesD [OF machine.prepare_release_files [OF assms(1,4)] prep])
    obtain a0 rest where p: "targets C requested = Inr ids" "from_base64 E key ''release'' = Inr cr"
      "ct_transports C = (a0, staging) # rest"
      using prepare_release_Inr [OF prep] by blast
    obtain ds content where ds: "files s1 (PathBuf local_path) = Some content" "concat ds = content" "length ds = unat chunks"
      "sha = hex (sha256 E content)"
      "\<forall>i. unat i < unat chunks \<longrightarrow> sealed_chunks E cr (release_chunk_key staging release) (view s2) i = Some (ds ! unat i)"
      using machine.stage_release_Inr [OF assms(1) stage] by blast
    have v3: "view s3 = view s2" by (rule relay.now_view [OF r now])
    from offer show ?thesis
    proof (rule offer_release_Inr)
      fix rows n s4 ro
      assume all: "offer_all E C ?m ids [] 0 s3 = (Inr (rows, n), s4)" and n: "n \<noteq> 0"
        and rec: "record_rollout S ro s4 = (Inr (), s')" and ro: "ro_version ro = um_version ?m" "ro_target ro = um_target ?m"
        and v: "\<exists>fields. v = J_object (fields @ [(''agents'', J_list rows)])"
      have v': "view s' = view s4"
        using rec by (auto simp: record_rollout_def dest: leavesD [OF controlling.execute_view [OF assms(2)]])
      have "distinct ([] @ ids)" using targets_distinct [OF p(1)] by simp
      from relay.offer_all_effect [OF r assms(3) all this]
      have frame: "(\<forall>a \<in> set ids. \<forall>T. transport_for C a = Inr T \<longrightarrow> k \<noteq> update_manifest_key T a) \<Longrightarrow> view s4 k = view s3 k"
        and rows: "rows_true E C ?m (view s4) ids rows" and some: "\<exists>a \<in> set ids. offered E C ?m (view s4) a" for k
        using n by (auto simp: rows_true_def)
      have chunks: "sealed_chunks E cr (release_chunk_key T release) (view s') i = Some (ds ! unat i)"
        if T: "(a, T) \<in> set (ct_transports C)" and i: "unat i < unat chunks" for a T i
      proof -
        have "tp_prefix T = tp_prefix staging" using bspec [OF assms(3) T] bspec [OF assms(3), of "(a0, staging)"] p(3) by simp
        then have key: "release_chunk_key T release = release_chunk_key staging release"
          by (simp add: release_chunk_key_def release_prefix_def fun_eq_iff)
        have "view s4 (release_chunk_key T release i) = view s3 (release_chunk_key T release i)"
        proof (rule frame, intro ballI allI impI)
          fix b T' assume "transport_for C b = Inr T'"
          then have "tp_prefix T = tp_prefix T'" using bspec [OF assms(3) T] bspec [OF assms(3) transport_in] by fastforce
          then show "release_chunk_key T release i \<noteq> update_manifest_key T' b"
            using manifest_not_release [of T T' release b] chunk_key_prefix [of T release i] by metis
        qed
        with ds(5) i v' v3 show ?thesis by (simp add: sealed_chunks_def key)
      qed
      have "published_in (um_version ?m) (um_target ?m) (tables_of s')"
        using record_rollout_published [OF controlling.axioms(2) [OF assms(2)] rec] unfolding ro .
      with chunks ds files p v v' rows some show ?thesis
        by (intro exI [of _ ?m] exI [of _ cr] exI [of _ ds] exI [of _ content] exI [of _ ids] exI [of _ rows]) auto
    qed
  qed
qed

section \<open>A concrete publisher\<close>

definition sample_workshop :: "mem workshop" where
  "sample_workshop = \<lparr>ws_metadata = (\<lambda>p w. (Inr (True, 5), w)), ws_version = ''2.0'', ws_concurrency = 8,
     ws_curl = (\<lambda>args w. (bail ''curl: not installed'', w)), ws_json = (\<lambda>b. bail ''not JSON''), ws_staging_dir = Path True [''tmp'']\<rparr>"

definition sample_release_key :: string where
  "sample_release_key = toy_b64_encode (replicate 32 2)"

definition built_manifest :: update_manifest where
  "built_manifest = \<lparr>um_agent_id = ''alpha'', um_version = ''2.0'', um_target = ''linux x86_64'', um_release = sample_uuid 1,
     um_chunks = 1, um_total_bytes = 5, um_sha256 = hex (toy_sha256 [1, 2, 3, 4, 5]),
     um_release_key_b64 = sample_release_key, um_published_at = 1000\<rparr>"

definition built_tables :: tables where
  "built_tables = no_tables\<lparr>tb_updates := [built_manifest]\<rparr>"

lemma sample_prepare:
  "\<exists>cr w. prepare_release (mem_env built_tables) mem_host sample_workshop sample_controller source_path None
      (Some ''linux x86_64'') with_source
    = (Inr (''linux x86_64'', [''alpha''], sample_uuid 1, sample_release_key, cr, sample_transport), w)
    \<and> quiet w \<and> mem_fs w source_path = Some [1, 2, 3, 4, 5] \<and> mem_picks w = [] \<and> mem_clock w = 1000"
proof -
  have id: "dec_fixed 36 (Suc 0) = sample_uuid (Suc 0)" by code_simp
  have "from_base64 (mem_env built_tables) sample_release_key ''release'' = Inr \<lparr>cr_key = replicate 32 2, cr_key_id = ''release''\<rparr>"
    by (simp add: from_base64_def sample_release_key_def trim_plain [OF toy_b64_plain] toy_b64_inv res_then_def with_context_def)
  then obtain cr where key: "from_base64 (mem_env built_tables) sample_release_key ''release'' = Inr cr" by blast
  show ?thesis
    unfolding prepare_release_def new_transfer_id_def new_release_key_def
    by (simp add: sample_workshop_def io_simps targets_def sample_controller_def uuid_v4_def random_def id key ok_or_def MAX_UPDATE_BYTES_def quiet_def mem_fs_def sample_release_key_def [symmetric]
        with_source_def mem_start_def del: dec_fixed.simps)
qed

lemma sample_stage:
  assumes "quiet w" and "mem_fs w source_path = Some [1, 2, 3, 4, 5]" and "mem_picks w = []"
  shows "\<exists>w'. stage_release (mem_env T) mem_host 8 sample_transport (sample_uuid 1) cr source_path w
      = (Inr (1, 5, hex (toy_sha256 [1, 2, 3, 4, 5])), w') \<and> quiet w' \<and> mem_clock w' = mem_clock w"
proof -
  let ?k = "release_chunk_key sample_transport (sample_uuid 1) 0"
  have "\<exists>b. put_release_chunk (mem_env T) sample_transport (sample_uuid 1) 0 [1, 2, 3, 4, 5] cr w
      = (Inr (), stored ?k b (reseeded w)) \<and> length b \<le> MAX_RELAY_OBJECT_BYTES" if "quiet w" for w
    using mem_put_chunk [OF that, of "[1, 2, 3, 4, 5]" T cr "''release''" ?k]
    by (auto simp: MAX_RELAY_OBJECT_BYTES_def put_release_chunk_def io_then_lift validate_transfer_id_def
        toy_uuid_sample [of 1, simplified])
  from mem_upload [OF assms, where T = T and put = "\<lambda>i d. put_release_chunk (mem_env T) sample_transport (sample_uuid 1) i d cr",
      OF this]
  show ?thesis by (simp add: stage_release_def)
qed

lemma sample_offer:
  assumes "quiet w" and "mem_clock w = 1000"
  shows "\<exists>v w'. offer_release (mem_env built_tables) mem_sqlite sample_controller sample_transport [''alpha'']
      (built_manifest\<lparr>um_agent_id := []\<rparr>) w = (Inr v, w')"
proof -
  let ?E = "mem_env built_tables" and ?P = sample_transport
  have T: "transport_for sample_controller ''alpha'' = Inr ?P"
    by (simp add: transport_for_Inr sample_controller_def)
  obtain hb w1 where hb: "read_heartbeat ?E ?P ''alpha'' w = (hb, w1)" by fastforce
  have same: "w1 = w"
    using hb mem_get_raw [OF assms(1) order_refl, of built_tables]
    by (auto simp: read_heartbeat_def get_encrypted_def Let_def io_then_def io_lift_def io_ok_def now_unix_def
        split: option.splits sum.splits if_splits)
  have m: "built_manifest\<lparr>um_agent_id := ''alpha''\<rparr> = built_manifest" by (simp add: built_manifest_def)
  obtain pt where "to_vec (update_manifest_json ?E) built_manifest = Inr pt" and "length pt \<le> 1000"
    using table_to_vec [of built_manifest "tb_updates built_tables"] by (auto simp: built_tables_def no_tables_def)
  from mem_put_encrypted [OF assms(1) this, of ?P, where k = "update_manifest_key ?P ''alpha''", simplified]
  obtain w2 where put: "put_update_manifest ?E ?P built_manifest w1 = (Inr (), w2)"
    by (auto simp: same put_update_manifest_def io_then_lift validate_transfer_id_def built_manifest_def
        toy_uuid_sample [of 1, simplified])
  obtain v w' where "offer_release ?E mem_sqlite sample_controller ?P [''alpha'']
      (built_manifest\<lparr>um_agent_id := []\<rparr>) w = (Inr v, w')"
    by (simp add: offer_release_def io_then_apply io_lift_apply io_attempt_apply T hb m put record_rollout_def mem_sqlite_def io_ok_apply)
  then show ?thesis by blast
qed

theorem published_release_is_complete_witness:
  "\<exists>v s' ids m. publish (mem_env built_tables) mem_host mem_sqlite sample_workshop sample_controller ''/src'' None
        (Some ''linux x86_64'') None with_source = (Inr v, s')
    \<and> um_sha256 m = hex (toy_sha256 [1, 2, 3, 4, 5]) \<and> targets sample_controller None = Inr ids
    \<and> (\<exists>a \<in> set ids. offered (mem_env built_tables) sample_controller m (mem_view s') a)"
proof -
  let ?E = "mem_env built_tables"
  obtain cr w where prep: "prepare_release ?E mem_host sample_workshop sample_controller source_path None
      (Some ''linux x86_64'') with_source
    = (Inr (''linux x86_64'', [''alpha''], sample_uuid 1, sample_release_key, cr, sample_transport), w)"
    and w: "quiet w" "mem_fs w source_path = Some [1, 2, 3, 4, 5]" "mem_picks w = []" "mem_clock w = 1000"
    using sample_prepare by blast
  obtain w1 where stage: "stage_release ?E mem_host 8 sample_transport (sample_uuid 1) cr source_path w
      = (Inr (1, 5, hex (toy_sha256 [1, 2, 3, 4, 5])), w1)" and w1: "quiet w1" "mem_clock w1 = 1000"
    using sample_stage [OF w(1,2,3)] w(4) by metis
  obtain v s' where offer: "offer_release ?E mem_sqlite sample_controller sample_transport [''alpha'']
      (built_manifest\<lparr>um_agent_id := []\<rparr>) w1 = (Inr v, s')"
    using sample_offer [OF w1] by blast
  have src: "PathBuf ''/src'' = source_path" by code_simp
  have ws: "ws_concurrency sample_workshop = 8" "ws_version sample_workshop = ''2.0''" by (simp_all add: sample_workshop_def)
  have pub: "publish ?E mem_host mem_sqlite sample_workshop sample_controller ''/src'' None
      (Some ''linux x86_64'') None with_source = (Inr v, s')"
    using offer w1(2)
    by (simp add: publish_def Let_def src io_then_apply io_attempt_apply prep ws stage [simplified] now_unix_def built_manifest_def)
  have leaves: "leaves mem_fs (ws_metadata sample_workshop (PathBuf ''/src''))"
    by (simp add: leaves_def sample_workshop_def)
  have pre: "\<forall>f \<in> set (ct_transports sample_controller). tp_prefix (snd f) = ''relay/''"
    by (simp add: sample_controller_def sample_transport_def)
  obtain m content ids where m: "mem_fs with_source (PathBuf ''/src'') = Some content" "um_sha256 m = hex (sha256 ?E content)"
    "targets sample_controller None = Inr ids" "\<exists>a \<in> set ids. offered ?E sample_controller m (mem_view s') a"
    using published_release_is_complete [OF mem_machine.machine_axioms mem_controlling.controlling_axioms pre leaves pub]
    by (elim exE conjE) (rule that)
  have "content = [1, 2, 3, 4, 5]" using m(1) src by (simp add: with_source_def mem_fs_def)
  with m pub show ?thesis by (intro exI [of _ v] exI [of _ s'] exI [of _ ids] exI [of _ m]) simp
qed

lemma known_targets:
  assumes "controlling E view rest S tables_of"
    and "publish_targets E H S W C release groups s = (r, s')"
    and "\<forall>(platform, ids) \<in> set groups. published_in (lr_tag release) platform (tables_of s)"
  shows "view s' = view s \<and> tables_of s' = tables_of s"
  using assms(2,3)
proof (induction groups arbitrary: s)
  case (Cons g groups)
  obtain platform ids where g: "g = (platform, ids)" by (cases g)
  obtain q s1 where q: "sql_query S s = (q, s1)" by fastforce
  have s1: "view s1 = view s" "tables_of s1 = tables_of s"
    using leavesD [OF controlling.query_view [OF assms(1)] q]
      leavesD [OF database.query_frame [OF controlling.axioms(2) [OF assms(1)]] q] by simp_all
  show ?case
  proof (cases q)
    case (Inl e)
    with Cons.prems(1) g q s1 show ?thesis by (simp add: already_published_def io_then_apply)
  next
    case (Inr t)
    have "t = tables_of s" using database.query_ok [OF controlling.axioms(2) [OF assms(1)]] q Inr by blast
    with Cons.prems g q Inr have "publish_targets E H S W C release groups s1 = (r, s')"
      by (simp add: already_published_def io_then_apply io_ok_apply)
    from Cons.IH [OF this] Cons.prems(2) s1 show ?thesis by simp
  qed
qed simp

text \<open>
  A release that is recorded is not published again: when every platform that was seen has
  this tag recorded, following the repository changes neither the bucket nor the database,
  whatever assets the release has, and recording a rollout, completing it or sweeping it from the
  bucket leaves it recorded.
\<close>

theorem known_release_is_left_alone:
  assumes "controlling E view rest S tables_of"
    and "publish_targets E H S W C release groups s = (r, s')"
    and "\<forall>(platform, ids) \<in> set groups. published_in (lr_tag release) platform (tables_of s)"
  shows "view s' = view s \<and> tables_of s' = tables_of s
    \<and> (\<forall>(platform, ids) \<in> set groups. \<forall>R at_time.
         published_in (lr_tag release) platform (set_completed R at_time (tables_of s')))"
  using known_targets [OF assms] assms(3) by (simp add: published_completed)

theorem known_release_is_left_alone_witness:
  "\<exists>s r s'. published_in ''v2'' ''linux x86_64'' (mem_registry s)
    \<and> publish_targets (mem_env no_tables) mem_host mem_sqlite sample_workshop sample_controller
        \<lparr>lr_tag = ''v2'', lr_assets = [\<lparr>as_name = ''relay-agent-linux-x86_64'', as_url = ''https://x''\<rparr>]\<rparr>
        [(''linux x86_64'', [''alpha''])] s = (r, s')
    \<and> mem_view s' = mem_view s"
proof -
  let ?ro = "\<lparr>ro_release = sample_uuid 3, ro_version = ''v2'', ro_target = ''linux x86_64'', ro_sha256 = [], ro_published_at = 900\<rparr>"
  let ?s = "mem_start\<lparr>mem_registry := upsert_rollout ?ro registry_empty\<rparr>"
  have known: "published_in ''v2'' ''linux x86_64'' (mem_registry ?s)"
    using published_recorded [of ?ro registry_empty] by simp
  obtain r s' where run: "publish_targets (mem_env no_tables) mem_host mem_sqlite sample_workshop sample_controller
        \<lparr>lr_tag = ''v2'', lr_assets = [\<lparr>as_name = ''relay-agent-linux-x86_64'', as_url = ''https://x''\<rparr>]\<rparr>
        [(''linux x86_64'', [''alpha''])] ?s = (r, s')" by fastforce
  from known_release_is_left_alone [OF mem_controlling.controlling_axioms run] known
  have "mem_view s' = mem_view ?s" by simp
  with known run show ?thesis by blast
qed

text \<open>
  C37. A release that no manifest names any more is never swept: its chunks stay in the bucket
  whatever the cleaning loop does, since it forms its groups from the manifests alone. Publishing
  the next build over an unfinished one replaces the manifests and leaves such a release.
\<close>

theorem superseded_release_is_never_swept:
  assumes "controlling E view rest S tables_of"
    and "sweep E S fleet policy s = (r, s')"
    and "(a, T) \<in> set fleet" and "\<forall>f \<in> set fleet. tp_prefix (snd f) = p"
    and "\<forall>u. uuid_ok E u \<longrightarrow> CHR ''/'' \<notin> set u" and "CHR ''/'' \<notin> set R"
    and "\<forall>(b, T') \<in> set fleet. \<forall>m. manifest_in E T' (view s) b = Some m \<longrightarrow> um_release m \<noteq> R"
    and "prefix (release_prefix T R) k"
  shows "view s' k = view s k"
  using controlling.sweep_effect [OF assms(1,2) refl]
proof (elim disjE conjE exE)
  fix gs
  let ?held = "{(a, m). \<exists>T. (a, T) \<in> set fleet \<and> manifest_in E T (view s) a = Some m}"
  assume g: "grouped ?held gs"
    and u: "\<forall>a T m. (a, T) \<in> set fleet \<longrightarrow> manifest_in E T (view s) a = Some m \<longrightarrow> uuid_ok E (um_release m)"
    and re: "retired (live_agents (seen_rows (sat_sub_i64 (fst (clock_unix E s)) (u64_as_i64 (sp_seen_window_secs policy)))
        (tables_of s))) fleet (set gs) (view s) (view s')"
  show "view s' k = view s k"
  proof (rule ccontr)
    assume "view s' k \<noteq> view s k"
    then obtain R' hs where hs: "(R', hs) \<in> set gs" "k \<in> held_keys fleet hs \<or> k \<in> chunk_keys fleet R'"
      using re unfolding retired_def by blast
    then have "k \<in> chunk_keys fleet R'" using not_held_chunk [OF assms(4,3,8)] by blast
    then have k: "prefix (release_prefix T R') k" by (rule chunk_keysD [OF assms(4,3)])
    obtain b m where "(b, m) \<in> set hs"
      using g hs(1) unfolding grouped_def by (metis list.set_intros(1) neq_Nil_conv surj_pair)
    then obtain T' where m: "(b, T') \<in> set fleet" "manifest_in E T' (view s) b = Some m" "um_release m = R'"
      using g hs(1) unfolding grouped_def by blast
    then have "CHR ''/'' \<notin> set R'" using u assms(5) by blast
    then have "R' = R" by (rule release_key_inj [OF _ assms(6) refl k assms(8)])
    with m assms(7) show False by blast
  qed
qed simp

theorem superseded_release_is_never_swept_witness:
  "\<exists>w r w'. sweep (mem_env fleet_tables) mem_sqlite sample_fleet weekly w = (r, w')
    \<and> mem_view w (release_chunk_key sample_transport (sample_uuid 4) 0) = Some [9]
    \<and> mem_view w' (release_chunk_key sample_transport (sample_uuid 4) 0) = Some [9]"
proof -
  let ?E = "mem_env fleet_tables" and ?P = sample_transport
  let ?k = "release_chunk_key ?P (sample_uuid 4) 0"
  obtain w0 where m: "manifest_in ?E ?P (mem_view w0) ''alpha'' = Some alpha_manifest"
    using release_world by blast
  let ?w = "stored ?k [9] w0"
  obtain r w' where run: "sweep ?E mem_sqlite sample_fleet weekly ?w = (r, w')" by fastforce
  have "?k \<noteq> update_manifest_key ?P ''alpha''"
    by (simp add: release_chunk_key_def release_prefix_def update_manifest_key_def)
  then have "manifest_in ?E ?P (mem_view ?w) ''alpha'' = manifest_in ?E ?P (mem_view w0) ''alpha''"
    by (simp add: manifest_in_def)
  then have other: "\<forall>(b, T') \<in> set sample_fleet. \<forall>m. manifest_in ?E T' (mem_view ?w) b = Some m \<longrightarrow> um_release m \<noteq> sample_uuid 4"
    using m by (simp add: sample_fleet_def alpha_manifest_def sample_uuid_def digit_char_def)
  have slash: "CHR ''/'' \<notin> set (sample_uuid 4)" by code_simp
  have fleet: "(''alpha'', ?P) \<in> set sample_fleet" "\<forall>f \<in> set sample_fleet. tp_prefix (snd f) = tp_prefix ?P"
    by (simp_all add: sample_fleet_def)
  have "mem_view w' ?k = mem_view ?w ?k"
    by (rule superseded_release_is_never_swept [OF mem_controlling.controlling_axioms run fleet toy_uuid_no_slash
        slash other chunk_key_prefix])
  with run show ?thesis by (intro exI [of _ ?w] exI [of _ r] exI [of _ w']) simp
qed



text \<open>
  When an entry of the shared area expires: a retention of d days, for any d below a hundred
  trillion, expires exactly d times 86400 seconds from now, and zero days never.
\<close>

theorem share_expiry_is_exact:
  assumes "unat days < 10 ^ 14" and "0 \<le> now" and "now < 2 ^ 59"
  shows "share_expiry now days = (if days = 0 then 0 else now + 86400 * int (unat days))"
proof -
  have small: "unat days * 86400 < 2 ^ 63" using assms(1) by simp
  then have "unat (days * 86400) = unat days * 86400"
    using unat_mult_lem [of days "86400 :: u64"] by simp
  then have "u64_as_i64 (sat_mul_u64 days 86400) = 86400 * int (unat days)"
    using small u64_as_i64_small [of "days * 86400"] by (simp add: sat_mul_u64_def)
  moreover have "uint days < 10 ^ 14" using assms(1) by (simp add: uint_nat del: of_nat_unat)
  moreover have "- 9223372036854775808 \<le> now + 86400 * uint days" using assms(2) uint_ge_0 [of days] by linarith
  ultimately show ?thesis using assms(2,3)
    by (auto simp: share_expiry_def sat_add_i64_def clamp_i64_def i64_bounds)
qed

theorem share_expiry_is_exact_witness:
  "share_expiry 1000 7 = 605800"
  using share_expiry_is_exact [of 7 1000] by simp

text \<open>
  Larger retentions wrap: the product saturates at the largest u64, which as an i64 is -1.
\<close>

theorem huge_retention_expires_at_once:
  "\<exists>days. 0 < days \<and> (\<forall>now. 0 < now \<and> now < 2 ^ 62 \<longrightarrow> share_expiry now days = now - 1)"
proof (intro exI [of _ "- 1 :: u64"] conjI allI impI)
  show "0 < (- 1 :: u64)" by (simp add: word_gt_0)
  fix now :: int assume now: "0 < now \<and> now < 2 ^ 62"
  have "unat (- 1 :: u64) = 2 ^ 64 - 1" by (simp add: unsigned_minus_1_eq_mask mask_eq_exp_minus_1)
  then have "u64_as_i64 (sat_mul_u64 (- 1) 86400) = - 1" by (simp add: sat_mul_u64_def u64_as_i64_def)
  with now show "share_expiry now (- 1) = now - 1"
    by (simp add: share_expiry_def sat_add_i64_def clamp_i64_def i64_bounds)
qed

text \<open>
  The time limit for transfers does not reach the shared area: publishing a file and fetching
  one pass it on, but the relay cuts it to the limit for commands.
\<close>

theorem share_transfers_get_the_command_limit:
  assumes "0 < ct_max_exec_secs C" and "ct_max_exec_secs C \<le> ct_max_transfer_secs C"
  shows "run_tool E C agent kind (ct_max_transfer_secs C) = run_tool E C agent kind (ct_max_exec_secs C)"
  using assms by (auto simp: run_tool_def relay_command_def clamp_u64_def)

end
