(* ===== verification/LogCopy.thy ===== *)
theory LogCopy
  imports LogShip MemFacts
begin

text \<open>
  What the copy of a log on the controller is worth: it is the beginning of the log, whatever
  chunks arrive, in whatever order, however often, and wherever a write fails.
\<close>

section \<open>What disk and database promise\<close>

text \<open>
  Over the position \<open>cursor\<close> of a handle and the offsets \<open>nexts\<close> in the database. Each law is
  what POSIX and SQLite say of the call: a failed write may have changed the file from its
  position on, a failed statement may or may not have been committed.
\<close>

locale log_keeping = machine E view rest H files unread target
  for E :: "'s env" and view :: "'s \<Rightarrow> string \<Rightarrow> bytes option"
    and rest :: "(string \<Rightarrow> bytes option) \<Rightarrow> string \<Rightarrow> string option \<Rightarrow> string list"
    and H :: "'s host" and files :: "'s \<Rightarrow> path \<Rightarrow> bytes option"
    and unread :: "'s \<Rightarrow> nat \<Rightarrow> bytes" and target :: "'s \<Rightarrow> nat \<Rightarrow> path option" +
  fixes D :: "'s log_disk" and B :: "'s log_db" and cursor :: "'s \<Rightarrow> nat \<Rightarrow> (path \<times> nat) option"
    and nexts :: "'s \<Rightarrow> string \<Rightarrow> string \<Rightarrow> int option"
  assumes opened_at_start: "file_open H p s = (Inr h, s') \<Longrightarrow> cursor s' h = Some (p, 0)"
    and metadata_ok: "ld_metadata_len D p s = (Inr len, s') \<Longrightarrow> files s p = Some c \<Longrightarrow> unat len = length c"
    and metadata_frame: "leaves (\<lambda>s. (files s, view s)) (ld_metadata_len D p)"
    and seek_ok: "ld_seek D h n s = (Inr u, s') \<Longrightarrow> cursor s h = Some (p, k) \<Longrightarrow> cursor s' h = Some (p, n)"
    and seek_frame: "leaves (\<lambda>s. (files s, view s, nexts s)) (ld_seek D h n)"
    and exact_ok: "ld_read_exact D h n s = (Inr b, s') \<Longrightarrow> cursor s h = Some (p, k) \<Longrightarrow> files s p = Some c \<Longrightarrow>
      b = take n (drop k c) \<and> length b = n"
    and exact_frame: "leaves (\<lambda>s. (files s, view s)) (ld_read_exact D h n)"
    and rw_ok: "ld_open_rw D p s = (Inr h, s') \<Longrightarrow>
      cursor s' h = Some (p, 0) \<and> files s' = (files s)(p \<mapsto> case files s p of None \<Rightarrow> [] | Some c \<Rightarrow> c)"
    and rw_err: "ld_open_rw D p s = (Inl e, s') \<Longrightarrow>
      files s' = files s \<or> files s' = (files s)(p \<mapsto> case files s p of None \<Rightarrow> [] | Some c \<Rightarrow> c)"
    and rw_frame: "leaves nexts (ld_open_rw D p)"
    and at_ok: "ld_write_all D h b s = (Inr u, s') \<Longrightarrow> cursor s h = Some (p, k) \<Longrightarrow> files s p = Some c \<Longrightarrow>
      k \<le> length c \<Longrightarrow> files s' = (files s)(p \<mapsto> take k c @ b @ drop (k + length b) c)"
    and at_err: "ld_write_all D h b s = (Inl e, s') \<Longrightarrow> cursor s h = Some (p, k) \<Longrightarrow> files s p = Some c \<Longrightarrow>
      k \<le> length c \<Longrightarrow> \<exists>c'. files s' = (files s)(p \<mapsto> c') \<and> k \<le> length c' \<and> take k c' = take k c"
    and at_frame: "leaves nexts (ld_write_all D h b)"
    and sync_frame: "leaves (\<lambda>s. (files s, nexts s)) (ld_sync_data D h)"
    and create_dir_all_frame: "leaves (\<lambda>s. (files s, nexts s)) (create_dir_all H p)"
    and db_open_frame: "leaves (\<lambda>s. (files s, nexts s)) (db_open B)"
    and db_read_ok: "db_next_offset B a src s = (Inr row, s') \<Longrightarrow> row = nexts s a src"
    and db_read_frame: "leaves (\<lambda>s. (files s, nexts s)) (db_next_offset B a src)"
    and db_write_frame: "leaves files (db_upsert_offset B a src off shown t)"
    and db_write_ok: "db_upsert_offset B a src off shown t s = (Inr u, s') \<Longrightarrow>
      nexts s' = (\<lambda>x y. if x = a \<and> y = src then Some off else nexts s x y)"
    and db_write_err: "db_upsert_offset B a src off shown t s = (Inl e, s') \<Longrightarrow> nexts s' = nexts s
      \<or> nexts s' = (\<lambda>x y. if x = a \<and> y = src then Some off else nexts s x y)"

section \<open>The copy\<close>

text \<open>
  The copy has everything up to the offset the database holds; behind it there may be bytes of
  a write that was not committed.
\<close>

definition copied :: "bytes \<Rightarrow> bytes option \<Rightarrow> nat \<Rightarrow> bool" where
  "copied content file n \<longleftrightarrow> n \<le> length content \<and>
     (case file of None \<Rightarrow> n = 0 | Some c \<Rightarrow> n \<le> length c \<and> take n c = take n content)"

text \<open>A chunk that carries a part of \<open>content\<close>.\<close>

definition slice_of :: "'z libs_scheme \<Rightarrow> bytes \<Rightarrow> string \<Rightarrow> string \<Rightarrow> log_chunk \<Rightarrow> bool" where
  "slice_of E content agent source chunk \<longleftrightarrow> lc_agent_id chunk = agent \<and> lc_source chunk = source \<and>
     (\<exists>data. b64_decode E (lc_data_b64 chunk) = Inr data
       \<and> unat (lc_offset chunk) + length data \<le> length content
       \<and> take (length data) (drop (unat (lc_offset chunk)) content) = data)"

lemma copied_extend:
  assumes "copied content (Some c) n" and "n + length data \<le> length content"
    and "take (length data) (drop n content) = data"
  shows "copied content (Some (take n c @ data @ drop (n + length data) c)) (n + length data)"
proof -
  have "take n c @ data = take (n + length data) content"
    using assms(1,3) by (simp add: copied_def take_add)
  moreover have "n \<le> length c" using assms(1) by (simp add: copied_def)
  ultimately show ?thesis using assms(2) by (simp add: copied_def)
qed

lemma copied_less: "copied content (Some c) n \<Longrightarrow> take n c' = take n c \<Longrightarrow> n \<le> length c' \<Longrightarrow> copied content (Some c') n"
  by (simp add: copied_def)

lemma copied_zero: "copied content None n \<Longrightarrow> copied content (Some []) n"
  by (simp add: copied_def)

lemma io_then_cases:
  assumes "io_then m f s = (r, s')"
  obtains e where "m s = (Inl e, s')" "r = Inl e" | x s1 where "m s = (Inr x, s1)" "f x s1 = (r, s')"
  using assms by (cases "m s"; cases "fst (m s)") (auto simp: io_then_def)

context log_keeping
begin

lemma append_chunk_ok:
  assumes "append_chunk D p n data s = (Inr u, s')" and "copied content (files s p) n"
    and "n + length data \<le> length content" and "take (length data) (drop n content) = data"
  shows "copied content (files s' p) (n + length data) \<and> (\<forall>q. q \<noteq> p \<longrightarrow> files s' q = files s q) \<and> nexts s' = nexts s"
proof -
  obtain h s1 s2 s3 where op: "ld_open_rw D p s = (Inr h, s1)" and sk: "ld_seek D h n s1 = (Inr (), s2)"
    and wr: "ld_write_all D h data s2 = (Inr (), s3)" and sy: "ld_sync_data D h s3 = (Inr u, s')"
    using assms(1) by (auto simp: append_chunk_def io_then_Inr)
  define c where "c = (case files s p of None \<Rightarrow> [] | Some c \<Rightarrow> c)"
  note rw = rw_ok [OF op]
  have s2: "files s2 = (files s)(p \<mapsto> c)" "nexts s2 = nexts s" "cursor s2 h = Some (p, n)"
    using rw leavesD [OF seek_frame sk] leavesD [OF rw_frame op] seek_ok [OF sk] by (auto simp: c_def)
  have c: "copied content (Some c) n" using assms(2) by (auto simp: c_def copied_zero split: option.splits)
  then have "n \<le> length c" by (simp add: copied_def)
  from at_ok [OF wr s2(3) _ this] s2(1)
  have "files s3 = (files s)(p \<mapsto> take n c @ data @ drop (n + length data) c)" by simp
  with leavesD [OF sync_frame sy] leavesD [OF at_frame wr] s2(2) copied_extend [OF c assms(3,4)]
  show ?thesis by simp
qed

lemma append_chunk_err:
  assumes "append_chunk D p n data s = (Inl e, s')" and "copied content (files s p) n"
  shows "copied content (files s' p) n \<and> (\<forall>q. q \<noteq> p \<longrightarrow> files s' q = files s q) \<and> nexts s' = nexts s"
proof -
  define c where "c = (case files s p of None \<Rightarrow> [] | Some c \<Rightarrow> c)"
  have c: "copied content (Some c) n" using assms(2) by (auto simp: c_def copied_zero split: option.splits)
  then have n: "n \<le> length c" by (simp add: copied_def)
  obtain r s1 where op: "ld_open_rw D p s = (r, s1)" by fastforce
  show ?thesis
  proof (cases r)
    case (Inl e1)
    with assms(1) op have "s' = s1" by (simp add: append_chunk_def io_then_def)
    with rw_err [OF op [unfolded Inl]] leavesD [OF rw_frame op] assms(2) c show ?thesis
      by (auto simp: c_def [symmetric])
  next
    case (Inr h)
    note op = op [unfolded Inr] and rw = rw_ok [OF op [unfolded Inr]]
    obtain r2 s2 where sk: "ld_seek D h n s1 = (r2, s2)" by fastforce
    have s2: "files s2 = (files s)(p \<mapsto> c)" "nexts s2 = nexts s"
      using rw leavesD [OF seek_frame sk] leavesD [OF rw_frame op] by (auto simp: c_def)
    show ?thesis
    proof (cases r2)
      case (Inl e2)
      with assms(1) op sk have "s' = s2" by (simp add: append_chunk_def io_then_def)
      with s2 c show ?thesis by simp
    next
      case (Inr u2)
      then have cur: "cursor s2 h = Some (p, n)" using seek_ok [of h n s1 u2 s2] sk rw by simp
      obtain r3 s3 where wr: "ld_write_all D h data s2 = (r3, s3)" by fastforce
      have "nexts s3 = nexts s" using leavesD [OF at_frame wr] s2(2) by simp
      show ?thesis
      proof (cases r3)
        case (Inl e3)
        with assms(1) op sk \<open>r2 = Inr u2\<close> wr have "s' = s3" by (simp add: append_chunk_def io_then_def)
        obtain c' where "files s3 = (files s2)(p \<mapsto> c')" "n \<le> length c'" "take n c' = take n c"
          using at_err [OF wr [unfolded Inl] cur _ n] s2(1) by auto
        with \<open>s' = s3\<close> \<open>nexts s3 = nexts s\<close> s2(1) copied_less [OF c] show ?thesis by simp
      next
        case (Inr u3)
        with assms(1) op sk \<open>r2 = Inr u2\<close> wr have sy: "ld_sync_data D h s3 = (Inl e, s')"
          by (simp add: append_chunk_def io_then_def)
        have "files s3 = (files s)(p \<mapsto> take n c @ data @ drop (n + length data) c)"
          using at_ok [of h data s2 u3 s3, OF _ cur _ n] wr Inr s2(1) by simp
        with leavesD [OF sync_frame sy] \<open>nexts s3 = nexts s\<close> c n show ?thesis by (simp add: copied_def)
      qed
    qed
  qed
qed

lemma ingest_cases:
  assumes "ingest E H D B root chunk s = (r, s')"
  obtains (early) e where "r = Inl e" "files s' = files s" "nexts s' = nexts s"
  | (late) data s1 where "b64_decode E (lc_data_b64 chunk) = Inr data" "files s1 = files s" "nexts s1 = nexts s"
      "unat (lc_offset chunk) \<le> next_offset (nexts s (lc_agent_id chunk) (lc_source chunk))"
      "(if unat (lc_offset chunk) = next_offset (nexts s (lc_agent_id chunk) (lc_source chunk)) then
          io_then (append_chunk D (store_path root (lc_agent_id chunk) (lc_source chunk)) (unat (lc_offset chunk)) data)
            (\<lambda>_. db_upsert_offset B (lc_agent_id chunk) (lc_source chunk)
              (u64_as_i64 (sat_add_u64 (of_nat (next_offset (nexts s (lc_agent_id chunk) (lc_source chunk)))) (of_nat (length data))))
              (display (store_path root (lc_agent_id chunk) (lc_source chunk))) (lc_at chunk))
        else io_ok ()) s1 = (r, s')"
proof -
  let ?a = "lc_agent_id chunk" and ?src = "lc_source chunk"
  note run = assms [unfolded ingest_def Let_def]
  consider (bad) e where "r = Inl e" "s' = s"
    | (ok) data where "b64_decode E (lc_data_b64 chunk) = Inr data" "validate_agent_id ?a = Inr ()"
        "\<not> (?src = [] \<or> \<not> list_all log_source_char ?src)"
  proof (cases "validate_agent_id ?a")
    case (Inl e)
    with run have "r = Inl e" "s' = s" by (simp_all add: io_then_lift)
    then show ?thesis by (rule bad)
  next
    case (Inr u)
    then have agent: "validate_agent_id ?a = Inr ()" by simp
    show ?thesis
    proof (cases "?src = [] \<or> \<not> list_all log_source_char ?src")
      case True
      then have "ensure (\<not> (?src = [] \<or> \<not> list_all log_source_char ?src)) ''unsafe log source'' = Inl [''unsafe log source'']"
        by (simp only: ensure_def bail_def not_True_eq_False if_False)
      with run agent have "r = Inl [''unsafe log source'']" "s' = s" by (simp_all only: io_then_lift sum.case prod.inject)
      then show ?thesis by (rule bad)
    next
      case False
      then have src: "ensure (\<not> (?src = [] \<or> \<not> list_all log_source_char ?src)) ''unsafe log source'' = Inr ()"
        by (simp only: ensure_def not_False_eq_True if_True)
      show ?thesis
      proof (cases "b64_decode E (lc_data_b64 chunk)")
        case (Inl e)
        with run agent src have "r = Inl (''decode log chunk'' # e)" "s' = s"
          by (simp_all only: io_then_lift sum.case with_context_simps prod.inject)
        then show ?thesis by (rule bad)
      next
        case (Inr data)
        from ok [OF this agent False] show ?thesis .
      qed
    qed
  qed
  then show thesis
  proof cases
    case bad
    with early show thesis by simp
  next
    case ok
    have src: "ensure (\<not> (?src = [] \<or> \<not> list_all log_source_char ?src)) ''unsafe log source'' = Inr ()"
      using ok(3) by (simp only: ensure_def not_False_eq_True if_True)
    note run = run [unfolded io_then_lift ok(1,2) src with_context_simps sum.case]
    from run show thesis
    proof (cases rule: io_then_cases)
      case (1 e)
      with leavesD [OF create_dir_all_frame 1(1)] show thesis by (auto intro: early)
    next
      case mk: (2 u1 s1)
      note f1 = leavesD [OF create_dir_all_frame mk(1)]
      from mk(2) show thesis
      proof (cases rule: io_then_cases)
        case (1 e)
        with f1 leavesD [OF db_open_frame 1(1)] show thesis by (auto intro: early)
      next
        case op: (2 u2 s2)
        note f2 = leavesD [OF db_open_frame op(1)]
        from op(2) show thesis
        proof (cases rule: io_then_cases)
          case (1 e)
          with f1 f2 leavesD [OF db_read_frame 1(1)] show thesis by (auto intro: early)
        next
          case nx: (2 row s3)
          note f3 = leavesD [OF db_read_frame nx(1)]
          have row: "row = nexts s ?a ?src" using db_read_ok [OF nx(1)] f1 f2 by simp
          have fr: "files s3 = files s" "nexts s3 = nexts s" using f1 f2 f3 by simp_all
          show thesis
          proof (cases "unat (lc_offset chunk) > next_offset row")
            case True
            with nx(2) have "(\<exists>e. r = Inl e) \<and> s' = s3" by (auto simp: io_then_lift bail_def)
            with early fr show thesis by blast
          next
            case False
            then have "unat (lc_offset chunk) \<le> next_offset row" by simp
            moreover have "(if unat (lc_offset chunk) = next_offset row then
                io_then (append_chunk D (store_path root ?a ?src) (unat (lc_offset chunk)) data)
                  (\<lambda>_. db_upsert_offset B ?a ?src (u64_as_i64 (sat_add_u64 (of_nat (next_offset row)) (of_nat (length data))))
                    (display (store_path root ?a ?src)) (lc_at chunk))
              else io_ok ()) s3 = (r, s')"
              using nx(2) False by (simp only: io_then_lift ensure_def not_False_eq_True if_True sum.case)
            ultimately show thesis using late [OF ok(1) fr] unfolding row by blast
          qed
        qed
      qed
    qed
  qed
qed

lemma ingest_keeps_copy:
  assumes "ingest E H D B root chunk s = (r, s')" and "slice_of E content agent source chunk"
    and "length content < 2 ^ 63" and "p = store_path root agent source"
    and copy: "copied content (files s p) (next_offset (nexts s agent source))"
  shows "copied content (files s' p) (next_offset (nexts s' agent source))
    \<and> next_offset (nexts s agent source) \<le> next_offset (nexts s' agent source)
    \<and> (r = Inr () \<longrightarrow> unat (lc_offset chunk) = next_offset (nexts s agent source) \<longrightarrow>
        (\<exists>data. b64_decode E (lc_data_b64 chunk) = Inr data
          \<and> next_offset (nexts s' agent source) = next_offset (nexts s agent source) + length data))
    \<and> (\<forall>q. q \<noteq> p \<longrightarrow> files s' q = files s q)"
  using assms(1)
proof (cases rule: ingest_cases)
  case (early e)
  with copy show ?thesis by simp
next
  case (late data s1)
  have id: "lc_agent_id chunk = agent" "lc_source chunk = source" using assms(2) by (simp_all add: slice_of_def)
  let ?n = "next_offset (nexts s agent source)"
  have len: "unat (lc_offset chunk) + length data \<le> length content"
    and data: "take (length data) (drop (unat (lc_offset chunk)) content) = data"
    using assms(2) late(1) by (auto simp: slice_of_def)
  show ?thesis
  proof (cases "unat (lc_offset chunk) = ?n")
    case False
    with late id copy show ?thesis by simp
  next
    case at: True
    let ?off = "u64_as_i64 (sat_add_u64 (of_nat ?n) (of_nat (length data)))"
    have bound: "?n + length data < 2 ^ 63" using len at assms(3) by simp
    then have "unat (of_nat ?n :: u64) = ?n" "unat (of_nat (length data) :: u64) = length data"
      by (simp_all add: unat_of_nat)
    with bound have "unat (sat_add_u64 (of_nat ?n) (of_nat (length data))) = ?n + length data"
      by (simp add: unat_sat_add_u64)
    with bound have off: "?off = int (?n + length data)" by (simp add: u64_as_i64_small)
    have copy1: "copied content (files s1 p) ?n" using copy late(2) by simp
    obtain r2 s2 where ap: "append_chunk D p ?n data s1 = (r2, s2)" by fastforce
    have go: "io_then (append_chunk D p ?n data) (\<lambda>_. db_upsert_offset B agent source ?off (display p) (lc_at chunk)) s1 = (r, s')"
      using late(5) at id assms(4) by simp
    show ?thesis
    proof (cases r2)
      case (Inl e)
      with go ap have "s' = s2" "r = Inl e" by (simp_all add: io_then_def)
      with append_chunk_err [OF ap [unfolded Inl] copy1] late(2,3) show ?thesis by simp
    next
      case (Inr u)
      with go ap have up: "db_upsert_offset B agent source ?off (display p) (lc_at chunk) s2 = (r, s')"
        by (simp add: io_then_def)
      have ok: "copied content (files s2 p) (?n + length data) \<and> (\<forall>q. q \<noteq> p \<longrightarrow> files s2 q = files s1 q) \<and> nexts s2 = nexts s1"
        by (rule append_chunk_ok [OF ap [unfolded Inr] copy1]) (use len data at in simp_all)
      have files': "files s' = files s2" using leavesD [OF db_write_frame up] .
      have nx: "nexts s' agent source = nexts s agent source \<or> nexts s' agent source = Some ?off"
        and nx_ok: "r = Inr () \<Longrightarrow> nexts s' agent source = Some ?off"
        using up ok late(3) by (cases r; auto dest: db_write_ok db_write_err)+
      have "next_offset (Some ?off) = ?n + length data" unfolding off by (simp add: next_offset_def)
      moreover have "copied content (files s2 p) ?n"
        using ok by (auto simp: copied_def split: option.splits) (metis le_add1 min.absorb1 take_take)
      ultimately show ?thesis using nx nx_ok ok files' late(1,2) by auto
    qed
  qed
qed

lemma ship_file_result:
  assumes "ship_file E H D T agent chunk_bytes p source offs s = (Inr offs', s')"
    and "offs p = Some offset" and "files s p = Some c" and "chunk_bytes < 2 ^ 64"
  shows "if length c \<le> unat offset then offs' = offs \<and> view s' = view s
    else \<exists>n now b. n = min (length c - unat offset) chunk_bytes
      \<and> offs' = offs(p \<mapsto> offset + of_nat n) \<and> unat (offset + of_nat n) = unat offset + n
      \<and> (let chunk = \<lparr>lc_agent_id = agent, lc_source = source, lc_offset = offset,
            lc_data_b64 = b64_encode E (take n (drop (unat offset) c)), lc_at = now\<rparr>
         in view s' (log_key T chunk) = Some b
           \<and> open_sealed E (tp_crypto T) (log_chunk_json E) (log_key T chunk) b = Inr chunk)"
proof -
  obtain size s1 where len: "ld_metadata_len D p s = (Inr size, s1)"
    and go: "(if size \<le> offset then io_ok offs else
       let read_len = min (size - offset) (of_nat chunk_bytes) in
       io_then (file_open H p) (\<lambda>h. io_then (ld_seek D h (unat offset)) (\<lambda>_.
       io_then (ld_read_exact D h (unat read_len)) (\<lambda>data. io_then (now_unix E) (\<lambda>now.
       io_then (publish_log_chunk E T \<lparr>lc_agent_id = agent, lc_source = source, lc_offset = offset,
         lc_data_b64 = b64_encode E data, lc_at = now\<rparr>) (\<lambda>_.
       let next = offset + read_len in
       io_then (fs_write H (marker_path p) (as_bytes (dec (unat next)))) (\<lambda>_. io_ok (offs(p \<mapsto> next))))))))) s1
       = (Inr offs', s')"
    using assms(1,2) by (auto simp: ship_file_def io_then_Inr)
  note size = metadata_ok [OF len assms(3)]
  have s1: "files s1 = files s" "view s1 = view s" using leavesD [OF metadata_frame len] by simp_all
  show ?thesis
  proof (cases "size \<le> offset")
    case True
    with go s1 size show ?thesis by (simp add: word_le_nat_alt)
  next
    case False
    then have less: "unat offset < length c" using size by (simp add: word_le_nat_alt not_le)
    define n where "n = min (length c - unat offset) chunk_bytes"
    have "unat size < 2 ^ 64" using unsigned_less [of size] by simp
    then have small: "length c < 2 ^ 64" using size by simp
    have chunk: "unat (of_nat chunk_bytes :: u64) = chunk_bytes" using assms(4) by (simp add: unat_of_nat)
    have rl: "unat (min (size - offset) (of_nat chunk_bytes)) = n"
      using False size chunk by (auto simp: min_def word_le_nat_alt n_def unat_sub not_le)
    then have rl': "min (size - offset) (of_nat chunk_bytes) = of_nat n"
      by (metis of_nat_unat ucast_id)
    have sum: "unat (offset + of_nat n) = unat offset + n"
      using rl small less unfolding rl' by (subst unat_add_lem [THEN iffD1]) (auto simp: n_def)
    from go False obtain h s2 s3 data s4 now s5 s6 where op: "file_open H p s1 = (Inr h, s2)"
      and sk: "ld_seek D h (unat offset) s2 = (Inr (), s3)" and rd: "ld_read_exact D h n s3 = (Inr data, s4)"
      and now: "now_unix E s4 = (Inr now, s5)"
      and pub: "publish_log_chunk E T \<lparr>lc_agent_id = agent, lc_source = source, lc_offset = offset,
         lc_data_b64 = b64_encode E data, lc_at = now\<rparr> s5 = (Inr (), s6)"
      and mark: "fs_write H (marker_path p) (as_bytes (dec (unat (offset + of_nat n)))) s6 = (Inr (), s')"
      and offs': "offs' = offs(p \<mapsto> offset + of_nat n)"
      unfolding Let_def rl' by (auto simp: io_then_Inr rl [unfolded rl'])
    have s3: "files s3 p = Some c" "cursor s3 h = Some (p, unat offset)"
      using open_frame [OF op] s1 assms(3) leavesD [OF seek_frame sk] seek_ok [OF sk opened_at_start [OF op]] by simp_all
    then have data: "data = take n (drop (unat offset) c)" using exact_ok [OF rd s3(2,1)] by simp
    let ?chunk = "\<lparr>lc_agent_id = agent, lc_source = source, lc_offset = offset,
         lc_data_b64 = b64_encode E data, lc_at = now\<rparr>"
    have "put_encrypted E T (log_chunk_json E) (log_key T ?chunk) ?chunk s5 = (Inr (), s6)"
      using pub by (auto simp: publish_log_chunk_def io_then_Inr)
    from put_encrypted_Inr [OF this log_chunk_ok] obtain b where b: "view s6 (log_key T ?chunk) = Some b"
      "open_sealed E (tp_crypto T) (log_chunk_json E) (log_key T ?chunk) b = Inr ?chunk" by auto
    have "leaves view (fs_write H q t)" for q t
      unfolding fs_write_def by (intro leaves_intros create_remote write_remote)
    from leavesD [OF this mark] b offs' sum data less n_def show ?thesis unfolding Let_def by auto
  qed
qed

end

text \<open>A marker is never taken for a log.\<close>

lemma marker_not_shipped: "safe_source (marker_path p) = None"
proof -
  have "ends_with x MARKER_SUFFIX" if "file_name (marker_path p) = Some x" for x
    using that by (auto simp: file_name_def marker_path_def Let_def suffix_def split: if_splits)
  then show ?thesis by (auto simp: safe_source_def split: option.splits)
qed

section \<open>A concrete disk and database\<close>

definition mem_seek :: "nat \<Rightarrow> nat \<Rightarrow> (mem, unit) io" where
  "mem_seek h n w = (case map_of (mem_cursors w) h of None \<Rightarrow> (bail ''bad handle'', w)
     | Some (p, _) \<Rightarrow> (Inr (), w\<lparr>mem_cursors := (h, p, n) # mem_cursors w\<rparr>))"

definition mem_read_exact :: "nat \<Rightarrow> nat \<Rightarrow> (mem, bytes) io" where
  "mem_read_exact h n w = (case map_of (mem_cursors w) h of None \<Rightarrow> (bail ''bad handle'', w)
     | Some (p, k) \<Rightarrow> (case mem_fs w p of None \<Rightarrow> (bail ''gone'', w)
       | Some c \<Rightarrow> if k + n \<le> length c
           then (Inr (take n (drop k c)), w\<lparr>mem_cursors := (h, p, k + n) # mem_cursors w\<rparr>)
           else (bail ''failed to fill whole buffer'', w)))"

definition mem_open_rw :: "path \<Rightarrow> (mem, nat) io" where
  "mem_open_rw p w = (Inr (mem_handles w),
     w\<lparr>mem_files := (p, case mem_fs w p of None \<Rightarrow> [] | Some b \<Rightarrow> b) # mem_files w,
     mem_cursors := (mem_handles w, p, 0) # mem_cursors w, mem_handles := Suc (mem_handles w)\<rparr>)"

definition mem_write_at :: "nat \<Rightarrow> bytes \<Rightarrow> (mem, unit) io" where
  "mem_write_at h b w = (case map_of (mem_cursors w) h of None \<Rightarrow> (bail ''bad handle'', w)
     | Some (p, k) \<Rightarrow> (case mem_fs w p of None \<Rightarrow> (bail ''gone'', w)
       | Some c \<Rightarrow> (Inr (), w\<lparr>mem_files := (p, take k c @ b @ drop (k + length b) c) # mem_files w\<rparr>)))"

definition mem_log_disk :: "mem log_disk" where
  "mem_log_disk = \<lparr>ld_read_dir = (\<lambda>p. io_ok []), ld_metadata_len = (\<lambda>p w. (case mem_fs w p of None \<Rightarrow> bail ''No such file or directory''
       | Some b \<Rightarrow> if length b < 2 ^ 64 then Inr (of_nat (length b)) else bail ''File too large'', w)),
     ld_read_to_string = (\<lambda>p w. (case mem_fs w p of None \<Rightarrow> bail ''No such file or directory'' | Some b \<Rightarrow> Inr (of_bytes b), w)),
     ld_seek = mem_seek, ld_read_exact = mem_read_exact, ld_open_rw = mem_open_rw, ld_write_all = mem_write_at,
     ld_sync_data = (\<lambda>h. io_ok ())\<rparr>"

definition mem_log_db :: "mem log_db" where
  "mem_log_db = \<lparr>db_open = io_ok (), db_next_offset = (\<lambda>a src w. (Inr (map_of (mem_rows w) (a, src)), w)),
     db_upsert_offset = (\<lambda>a src n p t w. (Inr (), w\<lparr>mem_rows := ((a, src), n) # mem_rows w\<rparr>))\<rparr>"

definition mem_cursor :: "mem \<Rightarrow> nat \<Rightarrow> (path \<times> nat) option" where
  "mem_cursor w h = map_of (mem_cursors w) h"

definition mem_next :: "mem \<Rightarrow> string \<Rightarrow> string \<Rightarrow> int option" where
  "mem_next w a src = map_of (mem_rows w) (a, src)"

interpretation mem_logs: log_keeping "mem_env T" mem_view mem_rest mem_host mem_fs mem_unread mem_target
  mem_log_disk mem_log_db mem_cursor mem_next for T
proof
  show "leaves (\<lambda>s. (mem_fs s, mem_view s)) (ld_metadata_len mem_log_disk p)"
    "leaves (\<lambda>s. (mem_fs s, mem_view s, mem_next s)) (ld_seek mem_log_disk h n)"
    "leaves (\<lambda>s. (mem_fs s, mem_view s)) (ld_read_exact mem_log_disk h n)"
    "leaves mem_next (ld_open_rw mem_log_disk p)" "leaves mem_next (ld_write_all mem_log_disk h b)"
    "leaves (\<lambda>s. (mem_fs s, mem_next s)) (ld_sync_data mem_log_disk h)"
    "leaves (\<lambda>s. (mem_fs s, mem_next s)) (create_dir_all mem_host p)"
    "leaves (\<lambda>s. (mem_fs s, mem_next s)) (db_open mem_log_db)"
    "leaves (\<lambda>s. (mem_fs s, mem_next s)) (db_next_offset mem_log_db a src)"
    "leaves mem_fs (db_upsert_offset mem_log_db a src off shown t)" for p h n b a src off shown t
    by (auto simp: leaves_def mem_log_disk_def mem_log_db_def mem_seek_def mem_read_exact_def mem_open_rw_def
        mem_write_at_def mem_host_def mem_fs_def mem_view_def mem_next_def io_ok_def fun_eq_iff
        split: option.splits)
qed (auto simp: mem_log_disk_def mem_log_db_def mem_cursor_def mem_open_def mem_seek_def mem_read_exact_def mem_open_rw_def
    mem_write_at_def mem_fs_def mem_next_def unat_of_nat fun_eq_iff split: option.splits if_splits)

section \<open>Properties\<close>

text \<open>
  Everything that can happen to the copy of one log: a chunk of it is taken in, with whatever
  outcome, or something else happens that concerns neither the copy nor its offset.
\<close>

inductive copy_run :: "'s env \<Rightarrow> 's host \<Rightarrow> 's log_disk \<Rightarrow> 's log_db \<Rightarrow> path \<Rightarrow> ('s \<Rightarrow> path \<Rightarrow> bytes option)
    \<Rightarrow> ('s \<Rightarrow> string \<Rightarrow> string \<Rightarrow> int option) \<Rightarrow> bytes \<Rightarrow> string \<Rightarrow> string \<Rightarrow> 's \<Rightarrow> 's \<Rightarrow> bool"
  for E H D B root files nexts content agent source s where
  start: "copy_run E H D B root files nexts content agent source s s"
| chunk: "copy_run E H D B root files nexts content agent source s s1 \<Longrightarrow> slice_of E content agent source c \<Longrightarrow>
    ingest E H D B root c s1 = (r, s2) \<Longrightarrow> copy_run E H D B root files nexts content agent source s s2"
| other: "copy_run E H D B root files nexts content agent source s s1 \<Longrightarrow>
    files s2 (store_path root agent source) = files s1 (store_path root agent source) \<Longrightarrow>
    nexts s2 agent source = nexts s1 agent source \<Longrightarrow> copy_run E H D B root files nexts content agent source s s2"


text \<open>A log of five bytes, its chunks of one, two and three bytes, and a store that is one byte in.\<close>

definition small_log :: bytes where "small_log = [1, 2, 3, 4, 5]"

definition part :: "nat \<Rightarrow> nat \<Rightarrow> log_chunk" where
  "part from n = \<lparr>lc_agent_id = ''alpha'', lc_source = ''a.out'', lc_offset = of_nat from,
     lc_data_b64 = toy_b64_encode (take n (drop from small_log)), lc_at = 1000\<rparr>"

definition log_root :: path where "log_root = Path True [''logs'']"

definition log_copy_path :: path where "log_copy_path = store_path log_root ''alpha'' ''a.out''"

definition one_in :: mem where
  "one_in = mem_start\<lparr>mem_files := [(log_copy_path, [1])], mem_rows := [((''alpha'', ''a.out''), 1)]\<rparr>"

lemma one_in_sel: "mem_fs one_in log_copy_path = Some [1]" "mem_next one_in ''alpha'' ''a.out'' = Some 1"
  by (simp_all add: one_in_def mem_fs_def mem_next_def)

lemma part_slice: "from + n \<le> 5 \<Longrightarrow> slice_of (mem_env T) small_log ''alpha'' ''a.out'' (part from n)"
  by (auto simp: slice_of_def part_def toy_b64_inv small_log_def unat_of_nat)

lemma part_sel:
  "lc_agent_id (part from n) = ''alpha''" "lc_source (part from n) = ''a.out''"
  "from \<le> 5 \<Longrightarrow> unat (lc_offset (part from n)) = from"
  "b64_decode (mem_env T) (lc_data_b64 (part from n)) = Inr (take n (drop from small_log))"
  by (simp_all add: part_def toy_b64_inv unat_of_nat)


text \<open>
  Shipping publishes the next part of the log and nothing else: the chunk carries the bytes
  from the remembered offset on, as many as there are but at most the chunk size, sealed under
  the key of its offset, and exactly these count as shipped.
\<close>

theorem shipped_chunk_is_the_next_part:
  assumes "log_keeping E view rest H files unread target D B cursor nexts"
    and "ship_file E H D T agent chunk_bytes p source offs s = (Inr offs', s')"
    and "offs p = Some offset" and "files s p = Some c" and "chunk_bytes < 2 ^ 64"
  shows "if length c \<le> unat offset then offs' = offs \<and> view s' = view s
    else \<exists>n now b. n = min (length c - unat offset) chunk_bytes
      \<and> offs' = offs(p \<mapsto> offset + of_nat n) \<and> unat (offset + of_nat n) = unat offset + n
      \<and> (let chunk = \<lparr>lc_agent_id = agent, lc_source = source, lc_offset = offset,
            lc_data_b64 = b64_encode E (take n (drop (unat offset) c)), lc_at = now\<rparr>
         in view s' (log_key T chunk) = Some b
           \<and> open_sealed E (tp_crypto T) (log_chunk_json E) (log_key T chunk) b = Inr chunk)"
  by (rule log_keeping.ship_file_result [OF assms])

definition log_tables :: tables where "log_tables = no_tables\<lparr>tb_log_chunks := [part 2 3]\<rparr>"

definition log_world :: mem where
  "log_world = mem_start\<lparr>mem_files := [(Path True [''a.out''], small_log)]\<rparr>"

definition small_path :: path where "small_path = Path True [''a.out'']"
definition two_out :: offsets where "two_out = (\<lambda>_. None)(small_path \<mapsto> 2)"

definition opened_world :: mem where
  "opened_world = log_world\<lparr>mem_reading := [(0, small_log)], mem_cursors := [(0, small_path, 0)], mem_handles := 1\<rparr>"
definition sought_world :: mem where
  "sought_world = opened_world\<lparr>mem_cursors := [(0, small_path, 2), (0, small_path, 0)]\<rparr>"
definition read_world :: mem where
  "read_world = opened_world\<lparr>mem_cursors := [(0, small_path, 5), (0, small_path, 2), (0, small_path, 0)]\<rparr>"

lemma small_steps:
  "mem_fs log_world small_path = Some small_log"
  "ld_metadata_len mem_log_disk small_path log_world = (Inr 5, log_world)"
  "mem_open small_path log_world = (Inr 0, opened_world)"
  "ld_seek mem_log_disk 0 2 opened_world = (Inr (), sought_world)"
  "ld_read_exact mem_log_disk 0 3 sought_world = (Inr [3, 4, 5], read_world)"
  "quiet read_world" "mem_clock read_world = 1000"
  by (simp_all add: mem_log_disk_def log_world_def mem_fs_def small_log_def mem_open_def opened_world_def mem_start_def
      mem_seek_def sought_world_def mem_read_exact_def read_world_def small_path_def quiet_def)

lemma small_publish:
  "\<exists>w. publish_log_chunk (mem_env log_tables) sample_transport (part 2 3) read_world = (Inr (), w)"
proof -
  have "to_vec (log_chunk_json (mem_env log_tables)) (part 2 3) = Inr []"
    by (simp add: log_tables_def table_codec_def)
  from mem_put_encrypted [OF small_steps(6) this, where P = sample_transport and k = "log_key sample_transport (part 2 3)"
      and T = log_tables]
  obtain w where "put_encrypted (mem_env log_tables) sample_transport (log_chunk_json (mem_env log_tables))
      (log_key sample_transport (part 2 3)) (part 2 3) read_world = (Inr (), w)" by auto
  then show ?thesis
    by (simp add: publish_log_chunk_def part_sel io_then_lift log_source_char_def is_ascii_alphanumeric_def
        is_ascii_digit_def is_ascii_lower_def is_ascii_upper_def in_range_def del: mem_env_sel)
qed

lemma mem_fs_write: "\<exists>w'. fs_write mem_host p t w = (Inr (), w')"
  by (simp add: fs_write_def io_then_def mem_create_def mem_write_all_def mem_target_def)

lemma small_ship:
  "\<exists>w. ship_file (mem_env log_tables) mem_host mem_log_disk sample_transport ''alpha'' 3 small_path ''a.out'' two_out log_world
     = (Inr (two_out(small_path \<mapsto> 2 + 3)), w)"
proof -
  have start: "(case two_out small_path of Some n \<Rightarrow> io_ok n | None \<Rightarrow> read_marker mem_log_disk small_path) log_world
      = (Inr 2, log_world)" by (simp add: two_out_def)
  have now: "now_unix (mem_env log_tables) read_world = (Inr 1000, read_world)"
    by (simp add: now_unix_def small_steps)
  have chunk: "\<lparr>lc_agent_id = ''alpha'', lc_source = ''a.out'', lc_offset = 2, lc_data_b64 = toy_b64_encode [3, 4, 5],
      lc_at = 1000\<rparr> = part 2 3"
    by (simp add: part_def small_log_def)
  have nums: "\<not> (5 :: u64) \<le> 2" "min (5 - 2) (of_nat 3) = (3 :: u64)" "unat (3 :: u64) = 3" "unat (2 :: u64) = 2"
    by simp_all
  obtain w1 where pub: "publish_log_chunk (mem_env log_tables) sample_transport (part 2 3) read_world = (Inr (), w1)"
    using small_publish by blast
  obtain w2 where mark: "fs_write mem_host (marker_path small_path) (as_bytes (dec (unat (2 + 3 :: u64)))) w1 = (Inr (), w2)"
    using mem_fs_write by blast
  have "ship_file (mem_env log_tables) mem_host mem_log_disk sample_transport ''alpha'' 3 small_path ''a.out'' two_out log_world
      = (Inr (two_out(small_path \<mapsto> 2 + 3)), w2)"
    by (simp only: ship_file_def Let_def io_then_apply start small_steps prod.case sum.case nums if_False mem_host_sel
        now mem_env_sel chunk pub mark io_ok_apply)
  then show ?thesis by blast
qed

theorem shipped_chunk_is_the_next_part_witness:
  "\<exists>offs' s'. ship_file (mem_env log_tables) mem_host mem_log_disk sample_transport ''alpha'' 3 small_path ''a.out'' two_out
      log_world = (Inr offs', s') \<and> offs' = two_out(small_path \<mapsto> 5)"
proof -
  obtain offs' s' where run: "ship_file (mem_env log_tables) mem_host mem_log_disk sample_transport ''alpha'' 3 small_path
      ''a.out'' two_out log_world = (Inr offs', s')"
    using small_ship by blast
  have "two_out small_path = Some 2" by (simp add: two_out_def)
  from shipped_chunk_is_the_next_part [OF mem_logs.log_keeping_axioms run this small_steps(1)]
  have "offs' = two_out(small_path \<mapsto> 5)" by (simp add: small_log_def)
  with run show ?thesis by blast
qed

text \<open>
  A chunk that is sent again after the log has grown tears the copy: if the part of a chunk
  up to the recorded offset is already stored, the rest of it is dropped without an error, and
  the chunk that follows it is refused as a gap, now and whenever it is tried again.
\<close>

theorem grown_chunk_leaves_a_gap:
  assumes "log_keeping E view rest H files unread target D B cursor nexts"
    and "b64_decode E (lc_data_b64 grown) = Inr data"
    and "unat (lc_offset grown) < next_offset (nexts s (lc_agent_id grown) (lc_source grown))"
    and "next_offset (nexts s (lc_agent_id grown) (lc_source grown)) < unat (lc_offset grown) + length data"
    and "lc_agent_id following = lc_agent_id grown" and "lc_source following = lc_source grown"
    and "unat (lc_offset following) = unat (lc_offset grown) + length data"
    and "ingest E H D B root grown s = (Inr u, s1)" and "ingest E H D B root following s1 = (r, s2)"
  shows "files s1 = files s \<and> nexts s1 = nexts s \<and> (\<exists>e. r = Inl e) \<and> files s2 = files s \<and> nexts s2 = nexts s"
proof -
  have one: "files s1 = files s \<and> nexts s1 = nexts s"
    using log_keeping.ingest_cases [OF assms(1,8), of ?thesis] assms(3) by fastforce
  have "(\<exists>e. r = Inl e) \<and> files s2 = files s1 \<and> nexts s2 = nexts s1"
    using log_keeping.ingest_cases [OF assms(1,9), of ?thesis] assms(4-7) one by fastforce
  with one show ?thesis by simp
qed

theorem grown_chunk_leaves_a_gap_witness:
  "\<exists>s1 e s2. ingest (mem_env no_tables) mem_host mem_log_disk mem_log_db log_root (part 0 3) one_in = (Inr (), s1)
    \<and> ingest (mem_env no_tables) mem_host mem_log_disk mem_log_db log_root (part 3 2) s1 = (Inl e, s2)
    \<and> mem_next s2 ''alpha'' ''a.out'' = Some 1"
proof -
  obtain s1 where 1: "ingest (mem_env no_tables) mem_host mem_log_disk mem_log_db log_root (part 0 3) one_in = (Inr (), s1)"
    by (simp add: ingest_def Let_def part_def toy_b64_inv io_simps log_source_char_def is_ascii_alphanumeric_def
        is_ascii_digit_def is_ascii_lower_def is_ascii_upper_def in_range_def mem_log_db_def one_in_def next_offset_def
        mem_host_def)
  obtain r s2 where 2: "ingest (mem_env no_tables) mem_host mem_log_disk mem_log_db log_root (part 3 2) s1 = (r, s2)"
    by fastforce
  have "\<exists>e. r = Inl e \<and> mem_next s2 = mem_next one_in"
    using grown_chunk_leaves_a_gap [OF mem_logs.log_keeping_axioms part_sel(4) _ _ _ _ _ 1 2]
    by (simp add: part_sel one_in_sel next_offset_def small_log_def)
  with 1 2 show ?thesis by (auto simp: one_in_sel)
qed

end
