(* ===== verification/Collecting.thy ===== *)
theory Collecting
  imports StatusCache LogCopy
begin

text \<open>
  What a refresh of the controller does to the logs that wait in the bucket: a chunk is deleted
  only after it was taken into the copy, and the first failure leaves the rest in place.
\<close>

section \<open>Taking in logs\<close>

lemma acknowledge_effect:
  assumes "relay E view rest" and "acknowledge_log_chunk E T key s = (r, s')"
  shows "(\<forall>k. k \<noteq> key \<longrightarrow> view s' k = view s k) \<and> (r = Inr () \<longrightarrow> view s' key = None)"
proof (cases "starts_with key (tp_prefix T @ ''logs/'')")
  case False
  with assms(2) show ?thesis by (auto simp: acknowledge_log_chunk_def io_then_lift ensure_def bail_def)
next
  case True
  with assms(2) have del: "delete_key E key s = (r, s')"
    by (simp add: acknowledge_log_chunk_def io_then_lift ensure_def)
  have "view s' key = None" if "r = Inr ()"
    using relay.delete_key_Inr [OF assms(1)] del that by fastforce
  then show ?thesis using relay.delete_key_view [OF assms(1) del] by (auto split: if_splits)
qed

text \<open>The chunks of a list that were taken in and then removed, in order, from \<open>s\<close> to \<open>s'\<close>.\<close>

definition taken_in :: "'s env \<Rightarrow> 's host \<Rightarrow> 's log_disk \<Rightarrow> 's log_db \<Rightarrow> path \<Rightarrow> ('s \<Rightarrow> string \<Rightarrow> bytes option) \<Rightarrow> string
    \<Rightarrow> (string \<times> log_chunk) list \<Rightarrow> 's \<Rightarrow> bool" where
  "taken_in E H D B root view key chunks s \<longleftrightarrow> (\<exists>chunk s1 s2. (key, chunk) \<in> set chunks
     \<and> ingest E H D B root chunk s1 = (Inr (), s2) \<and> view s1 key = view s key)"

lemma take_logs_effect:
  assumes "relay E view rest" and "\<And>c. leaves view (ingest E H D B root c)"
    and "take_logs E H D B root T chunks s = (r, s')"
  shows "(\<forall>key. view s' key \<noteq> view s key \<longrightarrow> taken_in E H D B root view key chunks s)
    \<and> (distinct (map fst chunks) \<and> r = Inr () \<longrightarrow> (\<forall>(key, chunk) \<in> set chunks. view s' key = None))"
  using assms(3)
proof (induction chunks arbitrary: s)
  case (Cons kc chunks)
  obtain key chunk where kc: "kc = (key, chunk)" by (cases kc)
  obtain q s1 where q: "ingest E H D B root chunk s = (q, s1)" by fastforce
  have v1: "view s1 = view s" by (rule leavesD [OF assms(2) q])
  show ?case
  proof (cases q)
    case (Inl e)
    with Cons.prems kc q v1 show ?thesis by (auto simp: io_then_apply)
  next
    case (Inr u)
    obtain q2 s2 where q2: "acknowledge_log_chunk E T key s1 = (q2, s2)" by fastforce
    note ack = acknowledge_effect [OF assms(1) q2]
    have here: "taken_in E H D B root view key (kc # chunks) s"
      using q Inr kc unfolding taken_in_def by auto
    have more: "taken_in E H D B root view k (kc # chunks) s" if "taken_in E H D B root view k chunks s2" "k \<noteq> key" for k
      using that ack v1 unfolding taken_in_def by (metis list.set_intros(2))
    show ?thesis
    proof (cases q2)
      case (Inl e)
      with Cons.prems kc q Inr q2 \<open>q = Inr u\<close> have "s' = s2" "r = Inl e" by (simp_all add: io_then_apply)
      with ack v1 here show ?thesis by auto
    next
      case (Inr u2)
      with Cons.prems kc q \<open>q = Inr u\<close> q2 have go: "take_logs E H D B root T chunks s2 = (r, s')" by (simp add: io_then_apply)
      note ih = Cons.IH [OF go]
      have "taken_in E H D B root view k (kc # chunks) s" if changed: "view s' k \<noteq> view s k" for k
      proof (cases "k = key")
        case True
        with here show ?thesis by simp
      next
        case False
        with changed ack v1 have "view s' k \<noteq> view s2 k" by simp
        with ih more False show ?thesis by blast
      qed
      moreover have "view s' key = None" if gone: "distinct (map fst (kc # chunks))"
      proof (rule ccontr)
        assume "view s' key \<noteq> None"
        then have "view s' key \<noteq> view s2 key" using ack Inr by simp
        then have "taken_in E H D B root view key chunks s2" using ih by blast
        then show False using gone kc unfolding taken_in_def by force
      qed
      ultimately show ?thesis using ih kc by auto
    qed
  qed
qed (simp add: io_ok_def)

section \<open>Properties\<close>


lemma mem_ingest_view: "leaves mem_view (ingest (mem_env T) mem_host mem_log_disk mem_log_db root c)"
  unfolding ingest_def append_chunk_def Let_def
  by (intro leaves_intros) (auto simp: leaves_def mem_log_disk_def mem_log_db_def mem_host_def mem_view_def io_ok_def mem_open_rw_def mem_seek_def
      mem_write_at_def Let_def bail_def split: option.splits)


end
